(* ===== verification/Prelude.thy ===== *)
theory Prelude
  imports Main "HOL-Library.Word" "HOL-Library.Char_ord" "HOL-Library.List_Lexorder"
begin

text \<open>
  What every component shares: the integer types of Go (\<open>int64\<close> wrap-around written out,
  \<open>time.Time\<close> and \<open>time.Duration\<close> in nanoseconds), the \<open>strings\<close> helpers the sources call,
  and generic lemmas on lists and maps.

  A \<open>time.Time\<close> is an \<^typ>\<open>int\<close>, the nanoseconds since the Unix epoch; a \<open>time.Duration\<close> is
  an \<^typ>\<open>int\<close> too, the nanoseconds, kept in the range of \<open>int64\<close> by \<open>int64\<close> wherever the code
  does arithmetic on it that could leave that range.
\<close>

named_theorems go_defs \<open>definitions of Go library helpers, unfolded by simp in the components\<close>

type_synonym time = int
type_synonym duration = int

definition int64 :: "int \<Rightarrow> int" where
  "int64 x = (x + 2 ^ 63) mod 2 ^ 64 - 2 ^ 63"

definition maxInt64 :: int where
  "maxInt64 = 2 ^ 63 - 1"

definition minInt64 :: int where
  "minInt64 = - (2 ^ 63)"

text \<open>\<open>Time.Sub\<close> saturates at the bounds of \<open>int64\<close>.\<close>

definition time_Sub :: "time \<Rightarrow> time \<Rightarrow> duration" where
  "time_Sub t u = max minInt64 (min maxInt64 (t - u))"

definition second :: duration where "second = 1000000000"
definition minute :: duration where "minute = 60 * second"
definition hour :: duration where "hour = 60 * minute"

text \<open>The zero \<open>time.Time\<close>: January 1 of year 1, 00:00 UTC.\<close>

definition zeroTime :: time where
  "zeroTime = - 62135596800 * second"

lemmas [go_defs] = int64_def maxInt64_def minInt64_def time_Sub_def
  second_def minute_def hour_def zeroTime_def

lemma int64_id: "minInt64 \<le> x \<Longrightarrow> x \<le> maxInt64 \<Longrightarrow> int64 x = x"
  by (simp add: go_defs)

lemma int64_range: "minInt64 \<le> int64 x" "int64 x \<le> maxInt64"
proof -
  have "(x + 2 ^ 63) mod 2 ^ 64 < (2 ^ 64 :: int)" by (rule pos_mod_bound) simp
  then show "int64 x \<le> maxInt64" by (simp add: go_defs)
qed (simp add: go_defs)

lemma time_Sub_pos: "time_Sub t u \<le> 0 \<longleftrightarrow> t \<le> u"
  by (auto simp: go_defs)

lemma time_Sub_id: "minInt64 \<le> t - u \<Longrightarrow> t - u \<le> maxInt64 \<Longrightarrow> time_Sub t u = t - u"
  by (simp add: time_Sub_def)

end
