(* ===== verification/Pricing.thy ===== *)
theory Pricing
  imports Prelude Complex_Main
begin

text \<open>
  The price arithmetic: \<open>filterPricesInWindow\<close>, \<open>pricePointScore\<close> and \<open>selectPricePoint\<close> of
  \<open>internal/controller/energyawarecronjob_controller.go\<close> and \<open>currentPricePoint\<close> of
  \<open>internal/controller/energypricesource_metrics.go\<close>.

  A finite \<open>float64\<close> is the rational number it denotes, and every arithmetic operation on it is
  followed by a rounding function \<open>rnd\<close>, a parameter of the definitions. Nothing is assumed about
  \<open>rnd\<close> unless a lemma says so, so what holds for every \<open>rnd\<close> holds for IEEE rounding; the exact
  arithmetic is \<open>rnd = id\<close>. Infinities and NaN have no representation: JSON cannot carry them into
  a status.
\<close>

section \<open>Definitions\<close>

record pricePoint =
  At :: time
  EurPerMWh :: rat

definition LowestPrice :: string where "LowestPrice = ''LowestPrice''"
definition HighestPrice :: string where "HighestPrice = ''HighestPrice''"

text \<open>The errors of \<open>selectPricePoint\<close>.\<close>

datatype price_error =
    NoPrices
  | UnsupportedStrategy string
  | NoCompleteInterval duration

fun filterPricesInWindow :: "pricePoint list \<Rightarrow> time \<Rightarrow> time \<Rightarrow> pricePoint list" where
  "filterPricesInWindow [] earliest latest = []"
| "filterPricesInWindow (p # ps) earliest latest =
     (if \<not> At p < earliest \<and> At p < latest
      then p # filterPricesInWindow ps earliest latest
      else filterPricesInWindow ps earliest latest)"

text \<open>
  The loop of \<open>pricePointScore\<close>. Its list argument is \<open>prices[i:]\<close>; \<^const>\<open>None\<close> is the
  \<open>return 0, false\<close> of its body, \<^const>\<open>Some\<close> the accumulators when the loop ends.
\<close>

fun scoreLoop :: "(rat \<Rightarrow> rat) \<Rightarrow> time \<Rightarrow> time \<Rightarrow> duration \<Rightarrow> pricePoint list \<Rightarrow> rat \<Rightarrow> duration
    \<Rightarrow> (rat \<times> duration) option" where
  "scoreLoop rnd start end est [] weighted covered = Some (weighted, covered)"
| "scoreLoop rnd start end est (p # ps) weighted covered =
     (if \<not> covered < est then Some (weighted, covered)
      else if At p > start + covered then None
      else case ps of
        [] \<Rightarrow> None
      | q # _ \<Rightarrow>
          (let intervalEnd = (if At q > end then end else At q);
               span = time_Sub intervalEnd (start + covered)
           in if span \<le> 0 then None
              else scoreLoop rnd start end est ps
                     (rnd (weighted + rnd (EurPerMWh p * rnd (of_int span))))
                     (int64 (covered + span))))"

text \<open>
  The Go function returns a score and whether it is valid; \<^const>\<open>None\<close> is an invalid score. An
  index out of range panics in Go; the only caller passes indices of the slice, and the model gives
  \<^const>\<open>None\<close> there.
\<close>

definition pricePointScore ::
  "(rat \<Rightarrow> rat) \<Rightarrow> pricePoint list \<Rightarrow> nat \<Rightarrow> duration \<Rightarrow> time \<Rightarrow> rat option" where
  "pricePointScore rnd prices startIndex est windowEnd =
     (case drop startIndex prices of
        [] \<Rightarrow> None
      | p # ps \<Rightarrow>
          (let start = At p in
           if est \<le> 0 then (if \<not> start > windowEnd then Some (EurPerMWh p) else None)
           else let end = start + est in
             if end > windowEnd then None
             else case scoreLoop rnd start end est (p # ps) 0 0 of
                 None \<Rightarrow> None
               | Some (weighted, covered) \<Rightarrow>
                   if covered \<noteq> est then None else Some (rnd (weighted / rnd (of_int est)))))"

text \<open>One turn of the selection loop; the state is \<^const>\<open>None\<close> until \<open>found\<close>.\<close>

definition selectStep ::
  "(rat \<Rightarrow> rat) \<Rightarrow> pricePoint list \<Rightarrow> string \<Rightarrow> duration \<Rightarrow> time
    \<Rightarrow> (pricePoint \<times> rat) option \<Rightarrow> nat \<Rightarrow> (pricePoint \<times> rat) option" where
  "selectStep rnd prices strategy est windowEnd acc i =
     (case pricePointScore rnd prices i est windowEnd of
        None \<Rightarrow> acc
      | Some score \<Rightarrow>
          (case acc of
             None \<Rightarrow> Some (prices ! i, score)
           | Some (selected, selectedScore) \<Rightarrow>
               if strategy = LowestPrice then
                 (if score < selectedScore then Some (prices ! i, score) else acc)
               else if strategy = HighestPrice then
                 (if score > selectedScore then Some (prices ! i, score) else acc)
               else acc))"

definition selectPricePoint ::
  "(rat \<Rightarrow> rat) \<Rightarrow> pricePoint list \<Rightarrow> string \<Rightarrow> duration \<Rightarrow> time \<Rightarrow> price_error + pricePoint" where
  "selectPricePoint rnd prices strategy0 est windowEnd =
     (if prices = [] then Inl NoPrices
      else let strategy = (if strategy0 = '''' then LowestPrice else strategy0) in
        if strategy \<noteq> LowestPrice \<and> strategy \<noteq> HighestPrice then Inl (UnsupportedStrategy strategy)
        else case foldl (selectStep rnd prices strategy est windowEnd) None [0..<length prices] of
            None \<Rightarrow> Inl (NoCompleteInterval est)
          | Some (selected, _) \<Rightarrow> Inr selected)"

text \<open>The loop of \<open>currentPricePoint\<close>: it keeps the last point and breaks at a later one.\<close>

fun currentPricePointLoop :: "pricePoint list \<Rightarrow> time \<Rightarrow> pricePoint option \<Rightarrow> pricePoint option" where
  "currentPricePointLoop [] now current = current"
| "currentPricePointLoop (p # ps) now current =
     (if At p > now then current else currentPricePointLoop ps now (Some p))"

definition currentPricePoint :: "pricePoint list \<Rightarrow> time \<Rightarrow> pricePoint option" where
  "currentPricePoint prices now = currentPricePointLoop prices now None"

text \<open>
  The specification side: the price in force at an instant, read off the points the way
  \<open>PricePoint\<close> documents them (a slot ends at the start of the next point), and the order a
  strategy prefers.
\<close>

definition priceAt :: "pricePoint list \<Rightarrow> time \<Rightarrow> rat" where
  "priceAt prices t = (case currentPricePoint prices t of None \<Rightarrow> 0 | Some p \<Rightarrow> EurPerMWh p)"

definition beats :: "string \<Rightarrow> rat \<Rightarrow> rat \<Rightarrow> bool" where
  "beats strategy a b = (if strategy = HighestPrice then b < a else a < b)"

definition isBest :: "string \<Rightarrow> (nat \<Rightarrow> rat option) \<Rightarrow> nat \<Rightarrow> nat \<Rightarrow> rat \<Rightarrow> bool" where
  "isBest strategy score n i v \<longleftrightarrow> i < n \<and> score i = Some v \<and>
     (\<forall>j s. j < n \<longrightarrow> score j = Some s \<longrightarrow> \<not> beats strategy s v) \<and>
     (\<forall>j s. j < i \<longrightarrow> score j = Some s \<longrightarrow> s \<noteq> v)"

text \<open>Four hourly points, for the examples.\<close>

definition hourlyPrices :: "pricePoint list" where
  "hourlyPrices = [\<lparr>At = 0, EurPerMWh = 30\<rparr>, \<lparr>At = hour, EurPerMWh = 5\<rparr>,
     \<lparr>At = 2 * hour, EurPerMWh = 40\<rparr>, \<lparr>At = 3 * hour, EurPerMWh = 1\<rparr>]"

section \<open>The window filter\<close>

lemma filterPricesInWindow_filter:
  "filterPricesInWindow ps e l = filter (\<lambda>p. e \<le> At p \<and> At p < l) ps"
  by (induction ps) auto

lemma sorted_filterPricesInWindow:
  "sorted_wrt (<) (map At ps) \<Longrightarrow> sorted_wrt (<) (map At (filterPricesInWindow ps e l))"
  by (induction ps) (auto simp: filterPricesInWindow_filter)

section \<open>The price in force\<close>

lemma currentPricePointLoop_takeWhile:
  "currentPricePointLoop ps t acc =
     (case rev (takeWhile (\<lambda>p. At p \<le> t) ps) of [] \<Rightarrow> acc | p # _ \<Rightarrow> Some p)"
  by (induction ps arbitrary: acc) (auto split: list.splits)

lemma currentPricePoint_between:
  assumes "sorted (map At (pre @ p # q # post))" "At p \<le> t" "t < At q"
  shows "currentPricePoint (pre @ p # q # post) t = Some p"
proof -
  have "\<forall>x \<in> set pre. At x \<le> t"
    using assms by (auto simp: sorted_append)
  then have "takeWhile (\<lambda>p. At p \<le> t) (pre @ p # q # post) = pre @ [p]"
    using assms(2,3) by simp
  then show ?thesis
    by (simp add: currentPricePoint_def currentPricePointLoop_takeWhile)
qed

lemma currentPricePoint_Some:
  assumes "currentPricePoint ps t = Some p"
  shows "p \<in> set ps \<and> At p \<le> t"
proof -
  obtain ys where "rev (takeWhile (\<lambda>p. At p \<le> t) ps) = p # ys"
    using assms
    by (auto simp: currentPricePoint_def currentPricePointLoop_takeWhile split: list.splits)
  then have "p \<in> set (takeWhile (\<lambda>p. At p \<le> t) ps)"
    by (metis list.set_intros(1) set_rev)
  then show ?thesis by (auto dest: set_takeWhileD)
qed

section \<open>The score of a start slot\<close>

text \<open>
  One turn of the loop, for a slot that is entered: the span is the exact difference, the covered
  time stays within the estimate, and the accumulator grows by price times span.
\<close>

lemma scoreLoop_span:
  assumes "0 \<le> c" "c < est" "est \<le> maxInt64" "start + c < e" "e \<le> start + est"
  shows "time_Sub e (start + c) = e - (start + c)"
    and "int64 (c + (e - (start + c))) = e - start"
  using assms by (simp_all add: time_Sub_id int64_id minInt64_def)

lemma scoreLoop_step:
  assumes "0 \<le> c" "c < est" "est \<le> maxInt64" "At p \<le> start + c" "start + c < At q"
  defines "e \<equiv> (if At q > start + est then start + est else At q)"
  shows "start + c < e" "e \<le> start + est"
    and "scoreLoop rnd start (start + est) est (p # q # rest) w c =
      scoreLoop rnd start (start + est) est (q # rest)
        (rnd (w + rnd (EurPerMWh p * rnd (of_int (e - (start + c)))))) (e - start)"
proof -
  show gt: "start + c < e" and le: "e \<le> start + est"
    using assms by (simp_all add: e_def)
  have pos: "\<not> time_Sub e (start + c) \<le> 0" using gt by (simp add: time_Sub_pos)
  show "scoreLoop rnd start (start + est) est (p # q # rest) w c =
      scoreLoop rnd start (start + est) est (q # rest)
        (rnd (w + rnd (EurPerMWh p * rnd (of_int (e - (start + c)))))) (e - start)"
    using assms(1-4) pos scoreLoop_span [OF assms(1-3) gt le]
    by (subst scoreLoop.simps) (simp add: e_def [symmetric] del: scoreLoop.simps)
qed

lemma scoreLoop_sum:
  assumes "scoreLoop id start (start + est) est ps w c = Some (w', c')"
    and "sorted (map At (pre @ ps))" "0 \<le> c" "c \<le> est" "est \<le> maxInt64"
  shows "c \<le> c' \<and> c' \<le> est \<and>
    w' = w + (\<Sum>t \<in> {start + c..<start + c'}. priceAt (pre @ ps) t)"
  using assms
proof (induction ps arbitrary: pre w c)
  case Nil
  then show ?case by simp
next
  case (Cons p ps)
  show ?case
  proof (cases "c < est")
    case False
    with Cons.prems show ?thesis by simp
  next
    case True
    with Cons.prems(1) obtain q rest where ps: "ps = q # rest"
      and le: "At p \<le> start + c" and lt: "start + c < At q"
      by (auto simp: Let_def time_Sub_pos split: if_splits list.splits)
    define e where "e = (if At q > start + est then start + est else At q)"
    note step = scoreLoop_step [OF Cons.prems(3) True Cons.prems(5) le lt, folded e_def]
    note e_gt = step(1) and e_le = step(2)
    have rec: "scoreLoop id start (start + est) est ps
        (w + EurPerMWh p * of_int (e - (start + c))) (e - start) = Some (w', c')"
      using Cons.prems(1) unfolding ps step(3) by (simp only: id_apply)
    have IH: "e - start \<le> c' \<and> c' \<le> est \<and> w' = w + EurPerMWh p * of_int (e - (start + c)) +
        (\<Sum>t \<in> {start + (e - start)..<start + c'}. priceAt ((pre @ [p]) @ ps) t)"
      by (rule Cons.IH [OF rec]) (use Cons.prems e_gt e_le in auto)
    have "priceAt (pre @ p # ps) t = EurPerMWh p" if "t \<in> {start + c..<e}" for t
    proof -
      have "t < At q" using that by (simp add: e_def split: if_splits)
      moreover have "At p \<le> t" using that le by simp
      ultimately show ?thesis
        using Cons.prems(2) by (simp add: priceAt_def ps currentPricePoint_between)
    qed
    then have seg: "(\<Sum>t \<in> {start + c..<e}. priceAt (pre @ p # ps) t)
        = EurPerMWh p * of_int (e - (start + c))"
      using e_gt by (simp add: of_nat_diff)
    have "{start + c..<start + c'} = {start + c..<e} \<union> {e..<start + c'}"
      using e_gt IH by auto
    then have "(\<Sum>t \<in> {start + c..<start + c'}. priceAt (pre @ p # ps) t)
        = (\<Sum>t \<in> {start + c..<e}. priceAt (pre @ p # ps) t)
          + (\<Sum>t \<in> {e..<start + c'}. priceAt (pre @ p # ps) t)"
      by (simp add: sum.union_disjoint)
    with seg IH e_gt show ?thesis by simp
  qed
qed

text \<open>Whether the loop completes does not depend on the prices, only on the instants.\<close>

lemma scoreLoop_complete:
  assumes "sorted_wrt (<) (map At (p # ps))" "start + c = At p"
    and "0 \<le> c" "c < est" "est \<le> maxInt64"
  shows "if \<exists>x \<in> set ps. start + est \<le> At x
    then \<exists>w'. scoreLoop rnd start (start + est) est (p # ps) w c = Some (w', est)
    else scoreLoop rnd start (start + est) est (p # ps) w c = None"
  using assms
proof (induction ps arbitrary: p c w)
  case Nil
  then show ?case by simp
next
  case (Cons q rest)
  define e where "e = (if At q > start + est then start + est else At q)"
  have le: "At p \<le> start + c" and lt: "start + c < At q" using Cons.prems(1,2) by simp_all
  note step = scoreLoop_step [OF Cons.prems(3-5) le lt, folded e_def]
  show ?case
  proof (cases "start + est \<le> At q")
    case True
    then have "e = start + est" by (simp add: e_def)
    then show ?thesis unfolding step(3) using True by simp
  next
    case False
    then have "e = At q" by (simp add: e_def)
    moreover have "sorted_wrt (<) (map At (q # rest))" using Cons.prems(1) by simp
    ultimately show ?thesis unfolding step(3)
      using Cons.IH [of q "At q - start"] False step(1) Cons.prems(3,5)
      by (simp del: scoreLoop.simps)
  qed
qed

lemma pricePointScore_drop:
  "i < length prices \<Longrightarrow> drop i prices = prices ! i # drop (Suc i) prices"
  by (simp add: Cons_nth_drop_Suc)

lemma pricePointScore_index: "pricePointScore rnd prices i est we = Some v \<Longrightarrow> i < length prices"
  by (cases "i < length prices") (auto simp: pricePointScore_def)

lemma pricePointScore_None_all:
  "(\<forall>i. pricePointScore rnd prices i est we = None) \<longleftrightarrow>
     (\<forall>i<length prices. pricePointScore rnd prices i est we = None)"
  using pricePointScore_index by (metis option.exhaust)

lemma pricePointScore_pos:
  assumes "pricePointScore rnd prices i est we = Some v" "0 < est"
  obtains w where "i < length prices" "At (prices ! i) + est \<le> we"
    "scoreLoop rnd (At (prices ! i)) (At (prices ! i) + est) est (drop i prices) 0 0 = Some (w, est)"
    "v = rnd (w / rnd (of_int est))"
proof -
  have i: "i < length prices" using assms(1) by (rule pricePointScore_index)
  show ?thesis
    using assms that i
    by (auto simp: pricePointScore_def pricePointScore_drop [OF i] Let_def
        simp del: scoreLoop.simps split: if_splits option.splits)
qed

lemma pricePointScore_fits:
  assumes "pricePointScore rnd prices i est we = Some v" "0 < est"
  shows "At (prices ! i) + est \<le> we"
  using pricePointScore_pos [OF assms] by blast

lemma pricePointScore_last_index:
  assumes "0 < est"
  shows "pricePointScore rnd prices (length prices - 1) est we = None"
proof (cases prices rule: rev_cases)
  case Nil
  then show ?thesis by (simp add: pricePointScore_def)
next
  case (snoc ys y)
  with assms show ?thesis by (simp add: pricePointScore_def Let_def)
qed

section \<open>The selection loop\<close>

lemma strategies_distinct [simp]:
  "LowestPrice \<noteq> HighestPrice" "HighestPrice \<noteq> LowestPrice"
  "LowestPrice \<noteq> ''''" "HighestPrice \<noteq> ''''" "'''' \<noteq> LowestPrice" "'''' \<noteq> HighestPrice"
  by (simp_all add: LowestPrice_def HighestPrice_def)

lemma selectStep_beats:
  assumes "strategy = LowestPrice \<or> strategy = HighestPrice"
  shows "selectStep rnd prices strategy est we acc i =
    (case pricePointScore rnd prices i est we of
       None \<Rightarrow> acc
     | Some s \<Rightarrow> (case acc of None \<Rightarrow> Some (prices ! i, s)
         | Some (p, b) \<Rightarrow> if beats strategy s b then Some (prices ! i, s) else Some (p, b)))"
  using assms by (auto simp: selectStep_def beats_def split: option.splits)

lemma foldl_selectStep:
  fixes rnd :: "rat \<Rightarrow> rat" and prices :: "pricePoint list" and est we :: int
  assumes "strategy = LowestPrice \<or> strategy = HighestPrice"
  defines "score \<equiv> \<lambda>i. pricePointScore rnd prices i est we"
  shows "case foldl (selectStep rnd prices strategy est we) None [0..<n] of
      None \<Rightarrow> \<forall>i<n. score i = None
    | Some (p, v) \<Rightarrow> \<exists>i. p = prices ! i \<and> isBest strategy score n i v"
proof (induction n)
  case 0
  show ?case by simp
next
  case (Suc n)
  let ?acc = "foldl (selectStep rnd prices strategy est we) None [0..<n]"
  have fold: "foldl (selectStep rnd prices strategy est we) None [0..<Suc n]
      = selectStep rnd prices strategy est we ?acc n"
    by simp
  have step: "selectStep rnd prices strategy est we ?acc n =
      (case score n of None \<Rightarrow> ?acc
       | Some s \<Rightarrow> (case ?acc of None \<Rightarrow> Some (prices ! n, s)
           | Some (p, b) \<Rightarrow> if beats strategy s b then Some (prices ! n, s) else Some (p, b)))"
    unfolding score_def by (rule selectStep_beats [OF assms(1)])
  show ?case
  proof (cases ?acc)
    case None
    with Suc have none: "\<forall>i<n. score i = None" by simp
    show ?thesis unfolding fold step
      using None none
      by (auto simp: isBest_def beats_def less_Suc_eq split: option.splits if_splits)
  next
    case (Some pb)
    then obtain p b i where pb: "?acc = Some (p, b)" and i: "p = prices ! i"
      and best: "isBest strategy score n i b"
      using Suc by (cases pb) auto
    have keep: "isBest strategy score (Suc n) i b"
      if "\<And>s. score n = Some s \<Longrightarrow> \<not> beats strategy s b"
      using best that by (auto simp: isBest_def less_Suc_eq)
    have replace: "isBest strategy score (Suc n) n s" if "score n = Some s" "beats strategy s b" for s
      using best that by (fastforce simp: isBest_def beats_def less_Suc_eq split: if_splits)
    show ?thesis unfolding fold step
      using keep replace i by (auto simp: pb split: option.splits)
  qed
qed

lemma selectPricePoint_Inr:
  assumes "selectPricePoint rnd prices strategy est we = Inr p"
  obtains i v where "i < length prices" "p = prices ! i"
    "isBest (if strategy = '''' then LowestPrice else strategy)
       (\<lambda>i. pricePointScore rnd prices i est we) (length prices) i v"
proof -
  let ?strategy = "if strategy = '''' then LowestPrice else strategy"
  have ok: "?strategy = LowestPrice \<or> ?strategy = HighestPrice"
    and fold: "\<exists>v. foldl (selectStep rnd prices ?strategy est we) None [0..<length prices] = Some (p, v)"
    using assms by (auto simp: selectPricePoint_def Let_def split: if_splits option.splits)
  from fold foldl_selectStep [OF ok, where n = "length prices" and rnd = rnd and prices = prices
      and est = est and we = we]
  show ?thesis
    using that by (auto simp: isBest_def split: option.splits)
qed

lemma pricePointScore_Some_iff:
  assumes "sorted_wrt (<) (map At prices)" "i < length prices" "0 < est" "est \<le> maxInt64"
  shows "(\<exists>v. pricePointScore rnd prices i est windowEnd = Some v) \<longleftrightarrow>
    At (prices ! i) + est \<le> windowEnd \<and> At (prices ! i) + est \<le> At (last prices)"
proof -
  let ?p = "prices ! i" and ?ps = "drop (Suc i) prices"
  have d: "drop i prices = ?p # ?ps" using assms(2) by (rule pricePointScore_drop)
  have sorted: "sorted_wrt (<) (map At (?p # ?ps))"
    using assms(1) d by (metis drop_map sorted_wrt_drop)
  have last: "last prices = last (?p # ?ps)"
    using assms(2) d by (metis last_drop)
  have "(\<exists>x \<in> set ?ps. At ?p + est \<le> At x) \<longleftrightarrow> At ?p + est \<le> At (last prices)"
    using sorted assms(3) unfolding last
    by (cases ?ps rule: rev_cases) (auto simp: sorted_wrt_append intro: less_imp_le order_trans)
  with scoreLoop_complete [OF sorted, of "At ?p" 0 est rnd 0] assms(3,4) show ?thesis
    by (auto simp: pricePointScore_def d Let_def simp del: scoreLoop.simps split: if_splits)
qed

lemma selectPricePoint_Inl_iff:
  "selectPricePoint rnd prices strategy est windowEnd = Inl e \<longleftrightarrow>
    (if prices = [] then e = NoPrices
     else if strategy \<notin> {'''', LowestPrice, HighestPrice} then e = UnsupportedStrategy strategy
     else (\<forall>i. pricePointScore rnd prices i est windowEnd = None) \<and> e = NoCompleteInterval est)"
proof -
  let ?strategy = "if strategy = '''' then LowestPrice else strategy"
  show ?thesis
  proof (cases "prices = [] \<or> strategy \<notin> {'''', LowestPrice, HighestPrice}")
    case True
    then show ?thesis by (auto simp: selectPricePoint_def Let_def)
  next
    case False
    then have ok: "?strategy = LowestPrice \<or> ?strategy = HighestPrice" by auto
    note fold = foldl_selectStep [OF ok, where n = "length prices" and rnd = rnd
        and prices = prices and est = est and we = windowEnd]
    have none: "(\<forall>i. pricePointScore rnd prices i est windowEnd = None) \<longleftrightarrow>
        foldl (selectStep rnd prices ?strategy est windowEnd) None [0..<length prices] = None"
      using fold unfolding pricePointScore_None_all by (auto simp: isBest_def split: option.splits)
    show ?thesis using False ok unfolding none
      by (auto simp: selectPricePoint_def Let_def split: option.splits)
  qed
qed

lemma selected_in_window:
  assumes "sorted_wrt (<) (map At prices)" "0 < est" "est \<le> maxInt64"
    and "selectPricePoint rnd (filterPricesInWindow prices earliest latest) strategy est latest = Inr p"
  shows "p \<in> set prices \<and> earliest \<le> At p \<and>
    At p + est \<le> At (last (filterPricesInWindow prices earliest latest)) \<and>
    At (last (filterPricesInWindow prices earliest latest)) < latest"
proof -
  let ?window = "filterPricesInWindow prices earliest latest"
  from assms(4) obtain i v where i: "i < length ?window" "p = ?window ! i"
    and "pricePointScore rnd ?window i est latest = Some v"
    by (auto simp: isBest_def elim: selectPricePoint_Inr)
  then have "At p + est \<le> At (last ?window)"
    using pricePointScore_Some_iff [OF sorted_filterPricesInWindow [OF assms(1)] i(1) assms(2,3)]
    by blast
  moreover have "last ?window \<in> set ?window" using i by (cases ?window) auto
  then have "At (last ?window) < latest" by (simp add: filterPricesInWindow_filter)
  moreover have "p \<in> set ?window" using i by simp
  then have "p \<in> set prices \<and> earliest \<le> At p" by (simp add: filterPricesInWindow_filter)
  ultimately show ?thesis by blast
qed

section \<open>Properties\<close>

text \<open>
  C1: the selected point is optimal. Whatever the rounding, the point returned by
  \<open>selectPricePoint\<close> is one of the given points, its score is valid, no other valid score is
  better for the strategy (lower for \<open>LowestPrice\<close> and the empty string, higher for
  \<open>HighestPrice\<close>), and among equal scores it is the first of the slice.
\<close>

theorem selectPricePoint_optimal:
  assumes "selectPricePoint rnd prices strategy est windowEnd = Inr p"
  shows "\<exists>i v. i < length prices \<and> p = prices ! i \<and>
      pricePointScore rnd prices i est windowEnd = Some v \<and>
      (\<forall>j s. pricePointScore rnd prices j est windowEnd = Some s \<longrightarrow>
         (if strategy = HighestPrice then s \<le> v else v \<le> s)) \<and>
      (\<forall>j s. j < i \<and> pricePointScore rnd prices j est windowEnd = Some s \<longrightarrow> s \<noteq> v)"
proof -
  from assms obtain i v where "i < length prices" "p = prices ! i"
    and best: "isBest (if strategy = '''' then LowestPrice else strategy)
      (\<lambda>i. pricePointScore rnd prices i est windowEnd) (length prices) i v"
    by (rule selectPricePoint_Inr)
  then show ?thesis
    by (intro exI [of _ i] exI [of _ v])
      (auto simp: isBest_def beats_def not_less dest: pricePointScore_index split: if_splits)
qed

theorem selectPricePoint_optimal_witness:
  defines "ps \<equiv> [\<lparr>At = 0, EurPerMWh = 30\<rparr>, \<lparr>At = 10, EurPerMWh = 5\<rparr>, \<lparr>At = 20, EurPerMWh = 40\<rparr>]"
  shows "selectPricePoint id ps LowestPrice 10 30 = Inr (ps ! 1) \<and>
    (\<exists>i v. i < length ps \<and> ps ! 1 = ps ! i \<and> pricePointScore id ps i 10 30 = Some v \<and>
      (\<forall>j s. pricePointScore id ps j 10 30 = Some s \<longrightarrow>
         (if LowestPrice = HighestPrice then s \<le> v else v \<le> s)) \<and>
      (\<forall>j s. j < i \<and> pricePointScore id ps j 10 30 = Some s \<longrightarrow> s \<noteq> v))"
proof -
  have h: "selectPricePoint id ps LowestPrice 10 30 = Inr (ps ! 1)"
    unfolding ps_def by code_simp
  show ?thesis using h selectPricePoint_optimal [OF h] by (rule conjI)
qed

text \<open>
  C11: the score is the mean price over the run. With exact arithmetic and chronologically ordered
  points, a valid score for a positive estimate times that estimate is the sum, over every
  nanosecond of the run, of the price in force at that instant, where the price in force is the one
  the metrics collector's \<open>currentPricePoint\<close> reports.
\<close>

theorem pricePointScore_mean:
  assumes "sorted (map At prices)" "0 < est" "est \<le> maxInt64"
    and "pricePointScore id prices i est windowEnd = Some v"
  shows "v * of_int est =
    (\<Sum>t \<in> {At (prices ! i)..<At (prices ! i) + est}. priceAt prices t)"
proof -
  from assms(4,2) obtain w where i: "i < length prices"
    and loop: "scoreLoop id (At (prices ! i)) (At (prices ! i) + est) est (drop i prices) 0 0
      = Some (w, est)"
    and v: "v = id (w / id (of_int est))"
    by (rule pricePointScore_pos)
  have "w = 0 + (\<Sum>t \<in> {At (prices ! i) + 0..<At (prices ! i) + est}.
      priceAt (take i prices @ drop i prices) t)"
    using scoreLoop_sum [OF loop, of "take i prices"] assms(1-3) by simp
  then show ?thesis using v assms(2) by simp
qed

theorem pricePointScore_mean_witness:
  defines "ps \<equiv> [\<lparr>At = 0, EurPerMWh = 30\<rparr>, \<lparr>At = 2, EurPerMWh = 6\<rparr>, \<lparr>At = 5, EurPerMWh = 40\<rparr>]"
  shows "pricePointScore id ps 0 3 10 = Some 22 \<and>
    22 * of_int 3 = (\<Sum>t \<in> {At (ps ! 0)..<At (ps ! 0) + 3}. priceAt ps t)"
proof -
  have s: "sorted (map At ps)" by (simp add: ps_def)
  have h: "pricePointScore id ps 0 3 10 = Some 22" unfolding ps_def by code_simp
  show ?thesis
    using h pricePointScore_mean [OF s _ _ h] by (simp add: maxInt64_def)
qed

text \<open>
  When a score exists. For strictly increasing instants and a positive estimate, slot \<open>i\<close> has a
  valid score exactly when the run ends inside the window and not after the last known point; the
  last point only closes the slot before it.
\<close>

theorem pricePointScore_defined_iff:
  assumes "sorted_wrt (<) (map At prices)" "i < length prices" "0 < est" "est \<le> maxInt64"
  shows "(\<exists>v. pricePointScore rnd prices i est windowEnd = Some v) \<longleftrightarrow>
    At (prices ! i) + est \<le> windowEnd \<and> At (prices ! i) + est \<le> At (last prices)"
  using assms by (rule pricePointScore_Some_iff)

theorem pricePointScore_defined_iff_witness:
  defines "ps \<equiv> [\<lparr>At = 0, EurPerMWh = 30\<rparr>, \<lparr>At = 2, EurPerMWh = 6\<rparr>, \<lparr>At = 5, EurPerMWh = 40\<rparr>]"
  shows "(\<exists>v. pricePointScore id ps 1 3 10 = Some v) \<longleftrightarrow>
    At (ps ! 1) + 3 \<le> 10 \<and> At (ps ! 1) + 3 \<le> At (last ps)"
  by (rule pricePointScore_defined_iff) (simp_all add: ps_def maxInt64_def)

text \<open>
  C22: every error of the selection, and when each occurs: no points at all, a strategy that is
  neither empty nor one of the two known ones, or no start slot with a valid score.
\<close>

theorem selectPricePoint_error_iff:
  "selectPricePoint rnd prices strategy est windowEnd = Inl e \<longleftrightarrow>
    (if prices = [] then e = NoPrices
     else if strategy \<notin> {'''', LowestPrice, HighestPrice} then e = UnsupportedStrategy strategy
     else (\<forall>i. pricePointScore rnd prices i est windowEnd = None) \<and> e = NoCompleteInterval est)"
  by (rule selectPricePoint_Inl_iff)

text \<open>
  C23: the scheduled run stays inside the scheduling window. For strictly increasing points, the
  point selected among the points of a window starts a known slot, not before the window opens, and
  a run of the estimated duration from there ends no later than the last known point of the window,
  hence before the window closes.
\<close>

theorem selected_run_in_window:
  assumes "sorted_wrt (<) (map At prices)" "0 < est" "est \<le> maxInt64"
    and "selectPricePoint rnd (filterPricesInWindow prices earliest latest) strategy est latest = Inr p"
  shows "p \<in> set prices \<and> earliest \<le> At p \<and>
    At p + est \<le> At (last (filterPricesInWindow prices earliest latest)) \<and>
    At (last (filterPricesInWindow prices earliest latest)) < latest"
  by (rule selected_in_window [OF assms])

theorem selected_run_in_window_witness:
  "selectPricePoint id (filterPricesInWindow hourlyPrices 0 (3 * hour)) '''' hour (3 * hour)
      = Inr (hourlyPrices ! 1) \<and>
    hourlyPrices ! 1 \<in> set hourlyPrices \<and> 0 \<le> At (hourlyPrices ! 1) \<and>
    At (hourlyPrices ! 1) + hour \<le> At (last (filterPricesInWindow hourlyPrices 0 (3 * hour))) \<and>
    At (last (filterPricesInWindow hourlyPrices 0 (3 * hour))) < 3 * hour"
proof -
  have s: "sorted_wrt (<) (map At hourlyPrices)" by (simp add: hourlyPrices_def go_defs)
  have h: "selectPricePoint id (filterPricesInWindow hourlyPrices 0 (3 * hour)) '''' hour (3 * hour)
      = Inr (hourlyPrices ! 1)"
    by code_simp
  show ?thesis
    using h selected_run_in_window [OF s _ _ h] by (simp add: go_defs)
qed

text \<open>
  A window that holds a single price point can never be used with a positive estimate: the
  selection fails although the run may fit the window exactly, because the point that would close
  the slot lies at the window's end and is filtered out. (The schema documents that a job may start
  as long as its estimated duration fits inside the window.)
\<close>

theorem single_point_window_fails:
  assumes "length (filterPricesInWindow prices earliest latest) = 1" "0 < est"
    and "strategy \<in> {'''', LowestPrice, HighestPrice}"
  shows "selectPricePoint rnd (filterPricesInWindow prices earliest latest) strategy est latest
    = Inl (NoCompleteInterval est)"
proof -
  let ?window = "filterPricesInWindow prices earliest latest"
  have "pricePointScore rnd ?window i est latest = None" for i
    using pricePointScore_last_index [OF assms(2), of rnd ?window latest] assms(1)
      pricePointScore_index [of rnd ?window i est latest]
    by (cases "pricePointScore rnd ?window i est latest") auto
  moreover have "?window \<noteq> []" using assms(1) by auto
  ultimately show ?thesis using assms(3) by (simp add: selectPricePoint_Inl_iff)
qed

theorem single_point_window_fails_witness:
  "length (filterPricesInWindow hourlyPrices hour (2 * hour)) = 1 \<and>
   At (hourlyPrices ! 1) + hour = 2 * hour \<and>
   selectPricePoint id (filterPricesInWindow hourlyPrices hour (2 * hour)) LowestPrice hour (2 * hour)
     = Inl (NoCompleteInterval hour)"
proof -
  have h: "length (filterPricesInWindow hourlyPrices hour (2 * hour)) = 1"
    by (simp add: hourlyPrices_def go_defs)
  show ?thesis
    using h single_point_window_fails [OF h, of hour LowestPrice id]
    by (simp add: hourlyPrices_def go_defs)
qed

end
