(* ===== verification/Go_Strings.thy ===== *)
theory Go_Strings
  imports Prelude
begin

text \<open>
  The parts of Go's \<open>strconv\<close>, \<open>strings\<close>, \<open>crypto/sha256\<close> and \<open>encoding/hex\<close> packages that the
  controllers use, on byte strings: \<open>Itoa\<close> and \<open>Atoi\<close> (base 10, \<open>int64\<close> range),
  \<open>TrimLeft\<close>/\<open>TrimRight\<close> with a cutset, \<open>HasPrefix\<close>, \<open>Quote\<close>, SHA-256 and lower-case hexadecimal text.
\<close>

section \<open>Decimal numbers\<close>

definition digit :: "nat \<Rightarrow> char" where
  "digit d = char_of (48 + d)"

fun natDigits :: "nat \<Rightarrow> string" where
  "natDigits n = (if n < 10 then [digit n] else natDigits (n div 10) @ [digit (n mod 10)])"

declare natDigits.simps [simp del]

text \<open>\<open>strconv.Itoa\<close>, and \<open>fmt\<close>'s \<open>%d\<close>.\<close>

definition Itoa :: "int \<Rightarrow> string" where
  "Itoa n = (if n < 0 then CHR ''-'' # natDigits (nat (- n)) else natDigits (nat n))"

definition isDigit :: "char \<Rightarrow> bool" where
  "isDigit c \<longleftrightarrow> 48 \<le> (of_char c :: nat) \<and> (of_char c :: nat) \<le> 57"

definition digitsValue :: "string \<Rightarrow> nat" where
  "digitsValue s = foldl (\<lambda>v c. 10 * v + (of_char c - 48)) 0 s"

text \<open>\<open>strconv.Atoi\<close>: an optional sign, at least one digit, nothing else, the range of \<open>int64\<close>.\<close>

definition Atoi :: "string \<Rightarrow> int option" where
  "Atoi s =
     (let neg = (s \<noteq> [] \<and> hd s = CHR ''-'');
          ds = (if s \<noteq> [] \<and> (hd s = CHR ''-'' \<or> hd s = CHR ''+'') then tl s else s)
      in if ds = [] \<or> \<not> list_all isDigit ds then None
         else let v = (if neg then - int (digitsValue ds) else int (digitsValue ds))
              in if minInt64 \<le> v \<and> v \<le> maxInt64 then Some v else None)"

section \<open>Trimming and prefixes\<close>

definition TrimLeft :: "string \<Rightarrow> string \<Rightarrow> string" where
  "TrimLeft s cutset = dropWhile (\<lambda>c. c \<in> set cutset) s"

definition TrimRight :: "string \<Rightarrow> string \<Rightarrow> string" where
  "TrimRight s cutset = rev (dropWhile (\<lambda>c. c \<in> set cutset) (rev s))"

definition HasPrefix :: "string \<Rightarrow> string \<Rightarrow> bool" where
  "HasPrefix s p \<longleftrightarrow> take (length p) s = p"

section \<open>Quoting\<close>

text \<open>
  \<open>strconv.Quote\<close>, and \<open>fmt\<close>'s \<open>%q\<close>, on bytes: the escapes of a Go string literal. Bytes from 128 on
  stand for themselves, as they do in printable UTF-8.
\<close>

definition quoteHex :: "nat \<Rightarrow> char" where
  "quoteHex d = (if d < 10 then char_of (48 + d) else char_of (87 + d))"

definition quoteChar :: "char \<Rightarrow> string" where
  "quoteChar c =
     (let n = (of_char c :: nat) in
      if n = 34 \<or> n = 92 then [CHR 0x5C, c]
      else if n = 7 then [CHR 0x5C, CHR ''a'']
      else if n = 8 then [CHR 0x5C, CHR ''b'']
      else if n = 12 then [CHR 0x5C, CHR ''f'']
      else if n = 10 then [CHR 0x5C, CHR ''n'']
      else if n = 13 then [CHR 0x5C, CHR ''r'']
      else if n = 9 then [CHR 0x5C, CHR ''t'']
      else if n = 11 then [CHR 0x5C, CHR ''v'']
      else if n < 32 \<or> n = 127 then [CHR 0x5C, CHR ''x'', quoteHex (n div 16), quoteHex (n mod 16)]
      else [c])"

definition Quote :: "string \<Rightarrow> string" where
  "Quote s = CHR 0x22 # concat (map quoteChar s) @ [CHR 0x22]"

text \<open>Characters that need no escape.\<close>

definition plainChar :: "char \<Rightarrow> bool" where
  "plainChar c \<longleftrightarrow> quoteChar c = [c]"

lemma quoted_plain: "list_all plainChar s \<Longrightarrow> concat (map quoteChar s) = s"
  by (induction s) (auto simp: plainChar_def)

lemma Quote_infix:
  assumes "list_all plainChar s"
  shows "\<exists>a b. Quote (x @ s @ y) = a @ s @ b"
proof (intro exI)
  show "Quote (x @ s @ y) = (CHR 0x22 # concat (map quoteChar x)) @ s @ (concat (map quoteChar y) @ [CHR 0x22])"
    by (simp add: Quote_def quoted_plain [OF assms])
qed

section \<open>SHA-256 and hexadecimal text\<close>

type_synonym u32 = "32 word"

text \<open>A byte is a \<^typ>\<open>nat\<close> below 256.\<close>

definition beBytes :: "nat \<Rightarrow> nat \<Rightarrow> nat list" where
  "beBytes n v = map (\<lambda>i. v div 256 ^ (n - 1 - i) mod 256) [0..<n]"

definition shaPad :: "nat list \<Rightarrow> nat list" where
  "shaPad m = m @ 128 # replicate ((119 - length m mod 64) mod 64) 0 @ beBytes 8 (8 * length m)"

fun chunks :: "nat \<Rightarrow> nat \<Rightarrow> 'a list \<Rightarrow> 'a list list" where
  "chunks 0 k xs = []"
| "chunks (Suc n) k xs = take k xs # chunks n k (drop k xs)"

definition shaWord :: "nat list \<Rightarrow> u32" where
  "shaWord bs = word_of_nat (foldl (\<lambda>v b. 256 * v + b) 0 bs)"

text \<open>The round constants of FIPS 180-4, in decimal.\<close>

definition shaK :: "u32 list" where
  "shaK = [
    1116352408, 1899447441, 3049323471, 3921009573, 961987163, 1508970993, 2453635748, 2870763221,
    3624381080, 310598401, 607225278, 1426881987, 1925078388, 2162078206, 2614888103, 3248222580,
    3835390401, 4022224774, 264347078, 604807628, 770255983, 1249150122, 1555081692, 1996064986,
    2554220882, 2821834349, 2952996808, 3210313671, 3336571891, 3584528711, 113926993, 338241895,
    666307205, 773529912, 1294757372, 1396182291, 1695183700, 1986661051, 2177026350, 2456956037,
    2730485921, 2820302411, 3259730800, 3345764771, 3516065817, 3600352804, 4094571909, 275423344,
    430227734, 506948616, 659060556, 883997877, 958139571, 1322822218, 1537002063, 1747873779,
    1955562222, 2024104815, 2227730452, 2361852424, 2428436474, 2756734187, 3204031479, 3329325298]"

record shaState =
  sA :: u32
  sB :: u32
  sC :: u32
  sD :: u32
  sE :: u32
  sF :: u32
  sG :: u32
  sH :: u32

definition shaInit :: shaState where
  "shaInit = \<lparr>sA = 0x6a09e667, sB = 0xbb67ae85, sC = 0x3c6ef372, sD = 0xa54ff53a,
     sE = 0x510e527f, sF = 0x9b05688c, sG = 0x1f83d9ab, sH = 0x5be0cd19\<rparr>"

unbundle bit_operations_syntax

text \<open>The message schedule keeps its words in reverse, the newest first.\<close>

definition shaSchedule :: "nat list \<Rightarrow> u32 list" where
  "shaSchedule block =
     rev (fold (\<lambda>_ ws.
        let w2 = ws ! 1; w7 = ws ! 6; w15 = ws ! 14; w16 = ws ! 15;
            s0 = word_rotr 7 w15 XOR word_rotr 18 w15 XOR drop_bit 3 w15;
            s1 = word_rotr 17 w2 XOR word_rotr 19 w2 XOR drop_bit 10 w2
        in (s1 + w7 + s0 + w16) # ws)
      [0..<48] (rev (map shaWord (chunks 16 4 block))))"

definition shaRound :: "u32 \<times> u32 \<Rightarrow> shaState \<Rightarrow> shaState" where
  "shaRound kw s =
     (let e = sE s; a = sA s;
          S1 = word_rotr 6 e XOR word_rotr 11 e XOR word_rotr 25 e;
          ch = (e AND sF s) XOR (NOT e AND sG s);
          t1 = sH s + S1 + ch + fst kw + snd kw;
          S0 = word_rotr 2 a XOR word_rotr 13 a XOR word_rotr 22 a;
          maj = (a AND sB s) XOR (a AND sC s) XOR (sB s AND sC s);
          t2 = S0 + maj
      in \<lparr>sA = t1 + t2, sB = a, sC = sB s, sD = sC s, sE = sD s + t1, sF = e, sG = sF s, sH = sG s\<rparr>)"

definition shaCompress :: "nat list \<Rightarrow> shaState \<Rightarrow> shaState" where
  "shaCompress block h =
     (let s = fold shaRound (zip shaK (shaSchedule block)) h
      in \<lparr>sA = sA h + sA s, sB = sB h + sB s, sC = sC h + sC s, sD = sD h + sD s,
          sE = sE h + sE s, sF = sF h + sF s, sG = sG h + sG s, sH = sH h + sH s\<rparr>)"

definition Sum256 :: "nat list \<Rightarrow> nat list" where
  "Sum256 m =
     (let padded = shaPad m;
          h = fold shaCompress (chunks (length padded div 64) 64 padded) shaInit
      in concat (map (\<lambda>w. beBytes 4 (unat w))
           [sA h, sB h, sC h, sD h, sE h, sF h, sG h, sH h]))"

definition hexDigit :: "nat \<Rightarrow> char" where
  "hexDigit d = (if d < 10 then char_of (48 + d) else char_of (87 + d))"

definition hexEncode :: "nat list \<Rightarrow> string" where
  "hexEncode bs = concat (map (\<lambda>b. [hexDigit (b div 16), hexDigit (b mod 16)]) bs)"

definition hexChars :: string where
  "hexChars = ''0123456789abcdef''"

section \<open>Lemmas\<close>

lemma isDigit_digit [simp]: "d < 10 \<Longrightarrow> isDigit (digit d)"
  by (simp add: isDigit_def digit_def)

lemma digit_value [simp]: "d < 10 \<Longrightarrow> of_char (digit d) - 48 = d"
  by (simp add: digit_def)

lemma natDigits_not_Nil [simp]: "natDigits n \<noteq> []"
  by (subst natDigits.simps) simp

lemma natDigits_digits: "list_all isDigit (natDigits n)"
proof (induction n rule: natDigits.induct)
  case (1 n)
  then show ?case by (subst natDigits.simps) simp
qed

lemma digitsValue_snoc: "digitsValue (s @ [c]) = 10 * digitsValue s + (of_char c - 48)"
  by (simp add: digitsValue_def)

lemma digitsValue_natDigits [simp]: "digitsValue (natDigits n) = n"
proof (induction n rule: natDigits.induct)
  case (1 n)
  show ?case
  proof (cases "n < 10")
    case True
    then show ?thesis by (subst natDigits.simps) (simp add: digitsValue_def)
  next
    case False
    with 1 show ?thesis by (subst natDigits.simps) (simp add: digitsValue_snoc)
  qed
qed

lemma natDigits_signs:
  "CHR ''-'' \<notin> set (natDigits n)" "CHR ''+'' \<notin> set (natDigits n)"
  using natDigits_digits [of n] by (auto simp: list_all_iff isDigit_def)

lemma natDigits_hd [simp]:
  "hd (natDigits n) \<noteq> CHR ''-''" "hd (natDigits n) \<noteq> CHR ''+''"
  using natDigits_signs [of n] hd_in_set [OF natDigits_not_Nil, of n] by metis+

lemma Itoa_not_Nil [simp]: "Itoa n \<noteq> []"
  by (simp add: Itoa_def)

lemma Atoi_Itoa: "minInt64 \<le> n \<Longrightarrow> n \<le> maxInt64 \<Longrightarrow> Atoi (Itoa n) = Some n"
  using natDigits_digits by (simp add: Atoi_def Itoa_def Let_def)

lemma natDigits_length: "n < 10 ^ k \<Longrightarrow> 0 < k \<Longrightarrow> length (natDigits n) \<le> k"
proof (induction k arbitrary: n)
  case 0
  then show ?case by simp
next
  case (Suc k)
  show ?case
  proof (cases "n < 10")
    case True
    then show ?thesis by (subst natDigits.simps) simp
  next
    case False
    with Suc.prems have "n div 10 < 10 ^ k" by (simp add: less_mult_imp_div_less mult.commute)
    moreover from False Suc.prems have "0 < k" by (cases k) auto
    ultimately have "length (natDigits (n div 10)) \<le> k" by (rule Suc.IH)
    with False show ?thesis by (subst natDigits.simps) simp
  qed
qed

lemma length_TrimLeft: "length (TrimLeft s cs) \<le> length s"
  by (simp add: TrimLeft_def length_dropWhile_le)

lemma length_TrimRight: "length (TrimRight s cs) \<le> length s"
  by (simp add: TrimRight_def) (metis length_dropWhile_le length_rev)

lemma TrimRight_last:
  assumes "TrimRight s cs \<noteq> []"
  shows "last (TrimRight s cs) \<notin> set cs"
proof -
  have "dropWhile (\<lambda>c. c \<in> set cs) (rev s) \<noteq> []"
    using assms unfolding TrimRight_def by (simp only: rev_is_Nil_conv not_False_eq_True)
  from hd_dropWhile [OF this] show ?thesis
    unfolding TrimRight_def by (simp only: last_rev not_False_eq_True)
qed

lemma TrimRight_prefix: "\<exists>t. s = TrimRight s cs @ t \<and> set t \<subseteq> set cs"
proof (intro exI conjI)
  show "s = TrimRight s cs @ rev (takeWhile (\<lambda>c. c \<in> set cs) (rev s))"
    by (simp add: TrimRight_def flip: rev_append)
  show "set (rev (takeWhile (\<lambda>c. c \<in> set cs) (rev s))) \<subseteq> set cs"
    by (auto dest: set_takeWhileD)
qed

lemma length_beBytes [simp]: "length (beBytes n v) = n"
  by (simp add: beBytes_def)

lemma length_Sum256 [simp]: "length (Sum256 m) = 32"
  by (simp add: Sum256_def Let_def)

lemma beBytes_bound: "b \<in> set (beBytes n v) \<Longrightarrow> b < 256"
  by (auto simp: beBytes_def)

lemma Sum256_bytes: "b \<in> set (Sum256 m) \<Longrightarrow> b < 256"
  by (auto simp: Sum256_def Let_def dest: beBytes_bound)

lemma length_hexEncode [simp]: "length (hexEncode bs) = 2 * length bs"
  by (induction bs) (simp_all add: hexEncode_def)

lemma hexDigit_chars:
  assumes "d < 16"
  shows "hexDigit d \<in> set hexChars"
proof -
  have "\<forall>d \<in> set [0..<16]. hexDigit d \<in> set hexChars" by code_simp
  with assms show ?thesis by simp
qed

lemma hexEncode_chars:
  assumes "\<And>b. b \<in> set bs \<Longrightarrow> b < 256"
  shows "set (hexEncode bs) \<subseteq> set hexChars"
proof -
  have "b div 16 < 16" if "b \<in> set bs" for b
    using assms [OF that] by (simp add: less_mult_imp_div_less)
  then show ?thesis by (auto simp: hexEncode_def intro: hexDigit_chars)
qed

end
