(* ===== verification/Go_Time.thy ===== *)
theory Go_Time
  imports Go_Strings
begin

text \<open>
  The parts of Go's \<open>time\<close> package that the availability windows use: wall-clock readings in a
  location, \<open>time.Date\<close>, \<open>Time.AddDate\<close> by days, \<open>Weekday\<close> and the layout \<open>15:04\<close>.

  A calendar date (year, month, day) is represented by its day number, the days since 1970-01-01:
  \<open>time.Date\<close> takes the date back from the fields \<open>Year\<close>, \<open>Month\<close>, \<open>Day\<close> of another time, so only
  the day matters, and \<open>AddDate(0, 0, n)\<close> adds to it. A location is what the time zone database
  gives for it, the function behind \<open>Location.lookup\<close>: from a Unix second to the offset east of UTC
  in force and the bounds of the period in which it is in force. The database is a parameter,
  \<open>loadLocation\<close>, wherever \<open>time.LoadLocation\<close> is called.
\<close>

section \<open>Definitions\<close>

type_synonym location = "int \<Rightarrow> int \<times> int \<times> int"

definition daySeconds :: int where "daySeconds = 86400"

text \<open>\<open>Time.Unix\<close>: whole seconds since the epoch, rounded down.\<close>

definition Unix :: "time \<Rightarrow> int" where
  "Unix t = t div second"

definition Nanosecond :: "time \<Rightarrow> int" where
  "Nanosecond t = t mod second"

definition zoneOffset :: "location \<Rightarrow> int \<Rightarrow> int" where
  "zoneOffset loc sec = fst (loc sec)"

text \<open>The wall clock of an instant: its local day, and the seconds since local midnight.\<close>

definition localDay :: "location \<Rightarrow> time \<Rightarrow> int" where
  "localDay loc t = (Unix t + zoneOffset loc (Unix t)) div daySeconds"

definition secondOfDay :: "location \<Rightarrow> time \<Rightarrow> int" where
  "secondOfDay loc t = (Unix t + zoneOffset loc (Unix t)) mod daySeconds"

text \<open>\<open>Weekday\<close>, Sunday being 0; 1970-01-01 was a Thursday.\<close>

definition Weekday :: "location \<Rightarrow> time \<Rightarrow> nat" where
  "Weekday loc t = nat ((localDay loc t + 4) mod 7)"

text \<open>
  \<open>time.Date\<close>: the wall-clock second is looked up as if it were UTC, and looked up again at the
  resulting instant when that falls outside the period found first.
\<close>

definition goDate :: "location \<Rightarrow> int \<Rightarrow> int \<Rightarrow> int \<Rightarrow> time" where
  "goDate loc day sec nsec =
     (let unix = day * daySeconds + sec;
          (offset, start, end) = loc unix;
          unix' = (if offset \<noteq> 0 then
                     (let utc = unix - offset;
                          offset' = (if utc < start \<or> utc \<ge> end then zoneOffset loc utc else offset)
                      in unix - offset')
                   else unix)
      in unix' * second + nsec)"

text \<open>\<open>AddDate(0, 0, days)\<close>.\<close>

definition AddDays :: "location \<Rightarrow> time \<Rightarrow> int \<Rightarrow> time" where
  "AddDays loc t days = goDate loc (localDay loc t + days) (secondOfDay loc t) (Nanosecond t)"

text \<open>\<open>getnum\<close> of the \<open>time\<close> package: one or two digits, two when \<open>fixed\<close>.\<close>

definition getnum :: "string \<Rightarrow> bool \<Rightarrow> (nat \<times> string) option" where
  "getnum s fixed =
     (case s of
        [] \<Rightarrow> None
      | a # s1 \<Rightarrow>
          if \<not> isDigit a then None
          else case s1 of
              [] \<Rightarrow> if fixed then None else Some (of_char a - 48, s1)
            | b # s2 \<Rightarrow>
                if \<not> isDigit b then (if fixed then None else Some (of_char a - 48, s1))
                else Some ((of_char a - 48) * 10 + (of_char b - 48), s2))"

text \<open>\<open>time.Parse\<close> for the layout \<open>15:04\<close>: the hour and the minute.\<close>

definition parseClock :: "string \<Rightarrow> (nat \<times> nat) option" where
  "parseClock s =
     (case getnum s False of
        None \<Rightarrow> None
      | Some (h, s1) \<Rightarrow>
          if 24 \<le> h then None
          else case s1 of
              [] \<Rightarrow> None
            | c # s2 \<Rightarrow>
                if c \<noteq> CHR '':'' then None
                else case getnum s2 True of
                    None \<Rightarrow> None
                  | Some (m, s3) \<Rightarrow> if 60 \<le> m then None else if s3 \<noteq> [] then None else Some (h, m))"

text \<open>The JSON form of \<open>metav1.Time\<close> has whole seconds.\<close>

definition wholeSeconds :: "time \<Rightarrow> time" where
  "wholeSeconds t = Unix t * second"

text \<open>A location with one offset for all time, such as UTC.\<close>

definition fixedOffset :: "int \<Rightarrow> location \<Rightarrow> bool" where
  "fixedOffset k loc \<longleftrightarrow> (\<forall>sec. zoneOffset loc sec = k)"

definition UTC :: location where
  "UTC = (\<lambda>_. (0, minInt64, maxInt64))"

section \<open>Lemmas\<close>

lemma parseClock_range: "parseClock s = Some (h, m) \<Longrightarrow> h < 24 \<and> m < 60"
  by (auto simp: parseClock_def split: option.splits list.splits if_splits)

lemma fixedOffset_UTC: "fixedOffset 0 UTC"
  by (simp add: fixedOffset_def UTC_def zoneOffset_def)

lemma goDate_fixed:
  assumes "fixedOffset k loc"
  shows "goDate loc day sec nsec = (day * daySeconds + sec - k) * second + nsec"
proof -
  obtain start end' where "loc (day * daySeconds + sec) = (k, start, end')"
    using assms by (metis fixedOffset_def prod.collapse zoneOffset_def)
  then show ?thesis
    using assms by (simp add: goDate_def fixedOffset_def Let_def)
qed

lemma localDay_fixed: "fixedOffset k loc \<Longrightarrow> localDay loc t = (Unix t + k) div daySeconds"
  by (simp add: localDay_def fixedOffset_def)

lemma Unix_Nanosecond: "Unix t * second + Nanosecond t = t"
  by (simp add: Unix_def Nanosecond_def)

lemma Nanosecond_bounds: "0 \<le> Nanosecond t" "Nanosecond t < second"
  by (simp_all add: Nanosecond_def second_def)

lemma wholeSeconds_idem [simp]: "wholeSeconds (wholeSeconds t) = wholeSeconds t"
  by (simp add: wholeSeconds_def Unix_def second_def)

lemma Unix_mono: "t \<le> u \<Longrightarrow> Unix t \<le> Unix u"
  by (simp add: Unix_def second_def zdiv_mono1)

lemma Unix_le_iff: "x * second \<le> t \<longleftrightarrow> x \<le> Unix t"
  unfolding Unix_def second_def by arith

lemma Unix_goDate [simp]: "0 \<le> ns \<Longrightarrow> ns < second \<Longrightarrow> Unix (x * second + ns) = x"
  by (simp add: Unix_def)

lemma AddDays_fixed:
  assumes "fixedOffset k loc"
  shows "localDay loc (AddDays loc t n) = localDay loc t + n"
  using assms Nanosecond_bounds [of t]
  by (simp add: AddDays_def goDate_fixed localDay_fixed secondOfDay_def daySeconds_def)

end
