(* ===== verification/Names.thy ===== *)
theory Names
  imports Go_Time
begin

text \<open>
  Bounded object names and label values: \<open>shortHash\<close>, \<open>shortLabelValue\<close>, \<open>shortObjectName\<close> and
  \<open>detachedHPATargetName\<close> of \<open>internal/controller/helpers.go\<close>, and the names built from them in
  \<open>internal/controller/energyawarecronjob_controller.go\<close>.
\<close>

section \<open>Definitions\<close>

definition hpaDetachedTargetPrefix :: string where
  "hpaDetachedTargetPrefix = ''kube-greencosts-hibernated''"

definition shortHashLength :: nat where "shortHashLength = 10"
definition maxKubernetesLabelLength :: nat where "maxKubernetesLabelLength = 63"

definition shortHash :: "string \<Rightarrow> string" where
  "shortHash value = take shortHashLength (hexEncode (Sum256 (map of_char value)))"

definition shortLabelValue :: "string \<Rightarrow> string" where
  "shortLabelValue value =
     (if length value \<le> maxKubernetesLabelLength then value
      else let hash = shortHash value;
               suffix = ''-'' @ hash;
               prefixLen = maxKubernetesLabelLength - length suffix;
               prefix = TrimRight (take prefixLen value) ''-_.''
           in if prefix = '''' then hash else prefix @ suffix)"

definition shortObjectName :: "string \<Rightarrow> string \<Rightarrow> string \<Rightarrow> string" where
  "shortObjectName prefix stableInput suffix =
     (let name = prefix @ suffix in
      if length name \<le> maxKubernetesLabelLength then name
      else let hashSuffix = ''-'' @ shortHash stableInput @ suffix;
               prefixLen = int maxKubernetesLabelLength - int (length hashSuffix)
           in if prefixLen \<le> 0 then TrimLeft hashSuffix ''-''
              else let shortPrefix = TrimRight (take (nat prefixLen) prefix) ''-.''
                   in if shortPrefix = '''' then TrimLeft hashSuffix ''-''
                      else shortPrefix @ hashSuffix)"

definition detachedHPATargetName :: "string \<Rightarrow> string \<Rightarrow> string" where
  "detachedHPATargetName kind name =
     hpaDetachedTargetPrefix @ ''-'' @ shortHash (kind @ ''/'' @ name)"

definition energyAwareCronJobName :: "string \<Rightarrow> time \<Rightarrow> string" where
  "energyAwareCronJobName name scheduledAt =
     shortObjectName name name (''-'' @ Itoa (Unix scheduledAt))"

definition energyAwareCronJobOwnerLabelValue :: "string \<Rightarrow> string" where
  "energyAwareCronJobOwnerLabelValue name = shortLabelValue name"

section \<open>Lemmas\<close>

lemma length_shortHash [simp]: "length (shortHash v) = 10"
  by (simp add: shortHash_def shortHashLength_def)

lemma shortHash_chars: "set (shortHash v) \<subseteq> set hexChars"
  unfolding shortHash_def using hexEncode_chars [OF Sum256_bytes] set_take_subset by fast

lemma shortHash_not_Nil [simp]: "shortHash v \<noteq> []"
  using length_shortHash [of v] by (metis length_greater_0_conv zero_less_numeral)

lemma hexChars_no_sep: "c \<in> set hexChars \<Longrightarrow> c \<noteq> CHR ''-''"
  by (auto simp: hexChars_def)

lemma shortHash_hd [simp]: "hd (shortHash v) \<noteq> CHR ''-''"
  using shortHash_chars hexChars_no_sep hd_in_set [OF shortHash_not_Nil] by fast

lemma shortHash_last: "last (shortHash v) \<in> set hexChars"
  using shortHash_chars last_in_set [OF shortHash_not_Nil] by fast

lemma TrimLeft_hashSuffix [simp]: "TrimLeft (CHR ''-'' # shortHash v @ s) ''-'' = shortHash v @ s"
proof -
  obtain c cs where c: "shortHash v = c # cs" by (cases "shortHash v") auto
  with shortHash_hd [of v] show ?thesis by (simp add: TrimLeft_def)
qed

text \<open>Every shape \<open>shortObjectName\<close> can return keeps the suffix.\<close>

lemma shortObjectName_suffix: "\<exists>q. shortObjectName p st s = q @ s"
proof -
  have "\<exists>q. CHR ''-'' # shortHash st @ s = q @ s" by (rule exI [of _ "CHR ''-'' # shortHash st"]) simp
  then show ?thesis
    unfolding shortObjectName_def Let_def by (auto intro: exI [of _ "_ @ CHR ''-'' # shortHash st"])
qed

lemma shortObjectName_length:
  assumes "length s \<le> 53"
  shows "length (shortObjectName p st s) \<le> 63"
proof -
  have "length (TrimRight (take (nat (52 - int (length s))) p) ''-.'') \<le> nat (52 - int (length s))"
    using length_TrimRight [of "take (nat (52 - int (length s))) p" "''-.''"] by simp
  with assms show ?thesis
    by (auto simp: shortObjectName_def maxKubernetesLabelLength_def Let_def)
qed

lemma takeWhile_sep: "c \<notin> set xs \<Longrightarrow> takeWhile ((\<noteq>) c) (xs @ c # ys) = xs"
  by (induction xs) auto

lemma sep_append_inj:
  assumes "p @ c # s = q @ c # t" "c \<notin> set s" "c \<notin> set t"
  shows "s = t"
proof -
  have "takeWhile ((\<noteq>) c) (rev (p @ c # s)) = rev s"
    using assms(2) by (simp add: takeWhile_sep)
  moreover have "takeWhile ((\<noteq>) c) (rev (q @ c # t)) = rev t"
    using assms(3) by (simp add: takeWhile_sep)
  ultimately show ?thesis using assms(1) by simp
qed

section \<open>Properties\<close>

text \<open>
  Label values fit. A value of at most 63 bytes is kept as it is; a longer one becomes a value
  of at most 63 bytes that ends in a hexadecimal digit (so never in one of the separators a label
  value may not end with) and whose last ten bytes are the hash of the whole value.
\<close>

theorem shortLabelValue_bounded:
  "if length v \<le> 63 then shortLabelValue v = v
   else length (shortLabelValue v) \<le> 63 \<and> last (shortLabelValue v) \<in> set hexChars \<and>
     drop (length (shortLabelValue v) - 10) (shortLabelValue v) = shortHash v"
proof -
  have "length (TrimRight (take 52 v) ''-_.'') \<le> 52"
    using length_TrimRight [of "take 52 v" "''-_.''"] by simp
  then show ?thesis
    using shortHash_last [of v]
    by (auto simp: shortLabelValue_def maxKubernetesLabelLength_def Let_def)
qed

text \<open>
  C24: job names identify the scheduled second. Two jobs of one \<open>EnergyAwareCronJob\<close> have the same
  name exactly when their scheduled times fall in the same second, so a retry of a dispatch for a
  stored time hits the existing job and a dispatch for any other second creates a new one. The
  names keep the 63 byte limit.
\<close>

theorem energyAwareCronJobName_identifies_second:
  assumes "0 \<le> t" "0 \<le> u" "Unix t \<le> maxInt64" "Unix u \<le> maxInt64"
  shows "(energyAwareCronJobName name t = energyAwareCronJobName name u \<longleftrightarrow> Unix t = Unix u) \<and>
    length (energyAwareCronJobName name t) \<le> 63"
proof -
  have nonneg: "0 \<le> Unix t" "0 \<le> Unix u"
    using assms(1,2) by (simp_all add: Unix_def second_def pos_imp_zdiv_nonneg_iff)
  have digits: "CHR ''-'' \<notin> set (Itoa (Unix t))" "CHR ''-'' \<notin> set (Itoa (Unix u))"
    using nonneg natDigits_signs by (simp_all add: Itoa_def)
  have inj: "Itoa (Unix t) = Itoa (Unix u)"
    if eq: "energyAwareCronJobName name t = energyAwareCronJobName name u"
  proof -
    obtain p q where "energyAwareCronJobName name t = p @ ''-'' @ Itoa (Unix t)"
      "energyAwareCronJobName name u = q @ ''-'' @ Itoa (Unix u)"
      unfolding energyAwareCronJobName_def using shortObjectName_suffix by blast
    with eq have "p @ CHR ''-'' # Itoa (Unix t) = q @ CHR ''-'' # Itoa (Unix u)" by simp
    then show ?thesis using digits by (rule sep_append_inj)
  qed
  have "Unix t = Unix u" if "Itoa (Unix t) = Itoa (Unix u)"
  proof -
    have "Atoi (Itoa (Unix t)) = Atoi (Itoa (Unix u))" using that by simp
    then show ?thesis using nonneg assms(3,4) by (simp add: Atoi_Itoa minInt64_def)
  qed
  moreover have "length (''-'' @ Itoa (Unix t)) \<le> 53"
    using natDigits_length [of "nat (Unix t)" 19] nonneg(1) assms(3)
    by (simp add: Itoa_def maxInt64_def nat_less_iff)
  then have "length (energyAwareCronJobName name t) \<le> 63"
    unfolding energyAwareCronJobName_def by (rule shortObjectName_length)
  ultimately show ?thesis
    using inj by (auto simp: energyAwareCronJobName_def)
qed

theorem energyAwareCronJobName_identifies_second_witness:
  "(energyAwareCronJobName ''nightly'' (1700000000 * second + 7) =
      energyAwareCronJobName ''nightly'' (1700000000 * second) \<longleftrightarrow>
    Unix (1700000000 * second + 7) = Unix (1700000000 * second)) \<and>
   length (energyAwareCronJobName ''nightly'' (1700000000 * second + 7)) \<le> 63"
  by (rule energyAwareCronJobName_identifies_second) (simp_all add: Unix_def go_defs)

end
