(* ===== verification/Windows.thy ===== *)
theory Windows
  imports Go_Time
begin

text \<open>
  Availability windows: \<open>parseHHMM\<close> of \<open>internal/controller/helpers.go\<close> and
  \<open>isInAvailabilityWindow\<close>, \<open>nextAvailabilityWindowStart\<close>, \<open>containsWeekday\<close> and
  \<open>weekdayFromSpec\<close> of \<open>internal/controller/hibernatepolicy_controller.go\<close>, shared by both
  hibernation policies. The time zone database is the parameter \<open>loadLocation\<close>; \<^const>\<open>None\<close> is
  the error of \<open>time.LoadLocation\<close>.
\<close>

section \<open>Definitions\<close>

record availabilityWindow =
  Weekdays :: "string list"
  From :: string
  Until :: string
  Timezone :: string

definition Monday :: string where "Monday = ''Mon''"
definition Tuesday :: string where "Tuesday = ''Tue''"
definition Wednesday :: string where "Wednesday = ''Wed''"
definition Thursday :: string where "Thursday = ''Thu''"
definition Friday :: string where "Friday = ''Fri''"
definition Saturday :: string where "Saturday = ''Sat''"
definition Sunday :: string where "Sunday = ''Sun''"

definition weekdayFromSpec :: "string \<Rightarrow> nat" where
  "weekdayFromSpec w =
     (if w = Monday then 1 else if w = Tuesday then 2 else if w = Wednesday then 3
      else if w = Thursday then 4 else if w = Friday then 5 else if w = Saturday then 6
      else if w = Sunday then 0 else 0)"

fun containsWeekday :: "string list \<Rightarrow> nat \<Rightarrow> bool" where
  "containsWeekday [] wd = False"
| "containsWeekday (w # ws) wd = (if weekdayFromSpec w = wd then True else containsWeekday ws wd)"

text \<open>The date argument is the local day of the time whose date \<open>parseHHMM\<close> takes.\<close>

definition parseHHMM :: "string \<Rightarrow> int \<Rightarrow> location \<Rightarrow> time option" where
  "parseHHMM hhmm day loc =
     (case parseClock hhmm of
        None \<Rightarrow> None
      | Some (h, m) \<Rightarrow> Some (goDate loc day (int h * 3600 + int m * 60) 0))"

fun isInAvailabilityWindow ::
  "(string \<Rightarrow> location option) \<Rightarrow> availabilityWindow list \<Rightarrow> time \<Rightarrow> bool \<times> time" where
  "isInAvailabilityWindow loadLocation [] now = (False, zeroTime)"
| "isInAvailabilityWindow loadLocation (w # ws) now =
     (case loadLocation (Timezone w) of
        None \<Rightarrow> isInAvailabilityWindow loadLocation ws now
      | Some loc \<Rightarrow>
          if \<not> containsWeekday (Weekdays w) (Weekday loc now)
          then isInAvailabilityWindow loadLocation ws now
          else case parseHHMM (From w) (localDay loc now) loc of
              None \<Rightarrow> isInAvailabilityWindow loadLocation ws now
            | Some from \<Rightarrow>
                (case parseHHMM (Until w) (localDay loc now) loc of
                   None \<Rightarrow> isInAvailabilityWindow loadLocation ws now
                 | Some until \<Rightarrow>
                     if \<not> now < from \<and> now < until then (True, until)
                     else isInAvailabilityWindow loadLocation ws now))"

text \<open>
  The inner loop of \<open>nextAvailabilityWindowStart\<close> over \<open>daysAhead\<close>: the start it breaks at, if any.
\<close>

fun windowStartLoop :: "location \<Rightarrow> availabilityWindow \<Rightarrow> time \<Rightarrow> int list \<Rightarrow> time option" where
  "windowStartLoop loc w now [] = None"
| "windowStartLoop loc w now (daysAhead # ds) =
     (let candidate = AddDays loc now daysAhead in
      if \<not> containsWeekday (Weekdays w) (Weekday loc candidate)
      then windowStartLoop loc w now ds
      else case parseHHMM (From w) (localDay loc candidate) loc of
          None \<Rightarrow> windowStartLoop loc w now ds
        | Some from \<Rightarrow> if from > now then Some from else windowStartLoop loc w now ds)"

fun nextStartLoop ::
  "(string \<Rightarrow> location option) \<Rightarrow> availabilityWindow list \<Rightarrow> time \<Rightarrow> time \<Rightarrow> time" where
  "nextStartLoop loadLocation [] now earliest = earliest"
| "nextStartLoop loadLocation (w # ws) now earliest =
     (case loadLocation (Timezone w) of
        None \<Rightarrow> nextStartLoop loadLocation ws now earliest
      | Some loc \<Rightarrow>
          (case windowStartLoop loc w now [0..7] of
             None \<Rightarrow> nextStartLoop loadLocation ws now earliest
           | Some from \<Rightarrow>
               nextStartLoop loadLocation ws now
                 (if earliest = zeroTime \<or> from < earliest then from else earliest)))"

definition nextAvailabilityWindowStart ::
  "(string \<Rightarrow> location option) \<Rightarrow> availabilityWindow list \<Rightarrow> time \<Rightarrow> time" where
  "nextAvailabilityWindowStart loadLocation windows now =
     nextStartLoop loadLocation windows now zeroTime"

text \<open>
  What a window promises: it is open at an instant when its zone is known, the local weekday is
  listed, both clock times parse and the instant lies between them on its local day.
\<close>

definition opens :: "(string \<Rightarrow> location option) \<Rightarrow> availabilityWindow \<Rightarrow> time \<Rightarrow> time \<Rightarrow> bool" where
  "opens loadLocation w now until \<longleftrightarrow>
     (\<exists>loc from. loadLocation (Timezone w) = Some loc \<and>
        Weekday loc now \<in> weekdayFromSpec ` set (Weekdays w) \<and>
        parseHHMM (From w) (localDay loc now) loc = Some from \<and>
        parseHHMM (Until w) (localDay loc now) loc = Some until \<and> from \<le> now \<and> now < until)"

definition startsAt ::
  "(string \<Rightarrow> location option) \<Rightarrow> time \<Rightarrow> availabilityWindow \<Rightarrow> time \<Rightarrow> bool" where
  "startsAt loadLocation now w s \<longleftrightarrow>
     (\<exists>loc. loadLocation (Timezone w) = Some loc \<and> windowStartLoop loc w now [0..7] = Some s)"

text \<open>Office hours, Monday to Friday 08:00 to 18:00 UTC.\<close>

definition officeHours :: availabilityWindow where
  "officeHours = \<lparr>Weekdays = [Monday, Tuesday, Wednesday, Thursday, Friday],
     From = ''08:00'', Until = ''18:00'', Timezone = ''UTC''\<rparr>"

section \<open>Lemmas\<close>

lemma containsWeekday_iff [simp]: "containsWeekday ws wd \<longleftrightarrow> wd \<in> weekdayFromSpec ` set ws"
  by (induction ws) auto

lemma isInAvailabilityWindow_open:
  "opens ll w now u \<Longrightarrow> isInAvailabilityWindow ll (w # ws) now = (True, u)"
  by (auto simp: opens_def)

lemma isInAvailabilityWindow_closed:
  "\<forall>u. \<not> opens ll w now u \<Longrightarrow>
    isInAvailabilityWindow ll (w # ws) now = isInAvailabilityWindow ll ws now"
  by (auto simp: opens_def not_less split: option.splits)

lemmas isInAvailabilityWindow_cases = isInAvailabilityWindow_open isInAvailabilityWindow_closed

lemma isInAvailabilityWindow_True:
  "isInAvailabilityWindow ll ws now = (True, u) \<Longrightarrow> \<exists>w \<in> set ws. opens ll w now u"
proof (induction ws)
  case (Cons w ws)
  then show ?case
    by (cases "\<exists>v. opens ll w now v")
      (auto simp: isInAvailabilityWindow_cases simp del: isInAvailabilityWindow.simps(2))
qed simp

lemma isInAvailabilityWindow_False:
  "\<not> fst (isInAvailabilityWindow ll ws now) \<longleftrightarrow> (\<forall>w \<in> set ws. \<forall>u. \<not> opens ll w now u)"
proof (induction ws)
  case (Cons w ws)
  then show ?case
    by (cases "\<exists>v. opens ll w now v")
      (auto simp: isInAvailabilityWindow_cases simp del: isInAvailabilityWindow.simps(2))
qed simp

lemma isInAvailabilityWindow_False_time:
  "isInAvailabilityWindow ll ws now = (False, u) \<Longrightarrow> u = zeroTime"
  by (induction ws) (auto split: option.splits if_splits)

lemma windowStartLoop_Some:
  assumes "windowStartLoop loc w now ds = Some s"
  shows "now < s" and "\<exists>d \<in> set ds. parseHHMM (From w) (localDay loc (AddDays loc now d)) loc = Some s"
  using assms by (induction ds) (auto simp: Let_def split: if_splits option.splits)

lemma nextStartLoop_spec:
  assumes "zeroTime < now" "earliest = zeroTime \<or> now < earliest"
  shows "(earliest \<noteq> zeroTime \<longrightarrow>
      nextStartLoop ll ws now earliest \<noteq> zeroTime \<and> nextStartLoop ll ws now earliest \<le> earliest) \<and>
    (\<forall>w s. w \<in> set ws \<longrightarrow> startsAt ll now w s \<longrightarrow>
      nextStartLoop ll ws now earliest \<noteq> zeroTime \<and> nextStartLoop ll ws now earliest \<le> s) \<and>
    (nextStartLoop ll ws now earliest = earliest \<or>
      (\<exists>w \<in> set ws. startsAt ll now w (nextStartLoop ll ws now earliest)))"
  using assms(2)
proof (induction ws arbitrary: earliest)
  case Nil
  then show ?case by simp
next
  case (Cons w ws)
  show ?case
  proof (cases "\<exists>s. startsAt ll now w s")
    case False
    then have "nextStartLoop ll (w # ws) now earliest = nextStartLoop ll ws now earliest"
      by (auto simp: startsAt_def split: option.splits)
    with Cons.IH [OF Cons.prems] False show ?thesis by auto
  next
    case True
    then obtain s where s: "startsAt ll now w s" by blast
    define e where "e = (if earliest = zeroTime \<or> s < earliest then s else earliest)"
    have step: "nextStartLoop ll (w # ws) now earliest = nextStartLoop ll ws now e"
      using s by (auto simp: startsAt_def e_def)
    have "now < s" using s by (auto simp: startsAt_def dest: windowStartLoop_Some(1))
    then have e: "e \<noteq> zeroTime" "now < e" "e \<le> s" "earliest \<noteq> zeroTime \<longrightarrow> e \<le> earliest"
      "e = s \<or> e = earliest"
      using assms(1) Cons.prems by (auto simp: e_def)
    have unique: "s' = s" if "startsAt ll now w s'" for s'
      using that s by (auto simp: startsAt_def)
    show ?thesis
      unfolding step using Cons.IH [of e] e s by (auto dest: unique intro: order_trans)
  qed
qed

text \<open>Fixed offsets: starts of a window move one day at a time.\<close>

lemma Weekday_localDay: "localDay loc t = localDay loc u + 7 * j \<Longrightarrow> Weekday loc t = Weekday loc u"
  by (simp add: Weekday_def add.commute add.left_commute)
    (metis add.assoc mod_mult_self1 mult.commute)

lemma parseHHMM_fixed:
  assumes "fixedOffset k loc"
  shows "parseHHMM hhmm day loc =
    map_option (\<lambda>(h, m). (day * daySeconds + int h * 3600 + int m * 60 - k) * second) (parseClock hhmm)"
  using assms by (auto simp: parseHHMM_def goDate_fixed split: option.splits)

lemma parseHHMM_fixed_day:
  assumes "fixedOffset k loc" "parseHHMM hhmm day loc = Some s"
  shows "parseHHMM hhmm (day + n) loc = Some (s + n * daySeconds * second)"
  using assms by (auto simp: parseHHMM_fixed algebra_simps)

lemma parseHHMM_fixed_bounds:
  assumes "fixedOffset k loc" "parseHHMM hhmm day loc = Some s"
  shows "(day * daySeconds - k) * second \<le> s" "s < ((day + 1) * daySeconds - k) * second"
proof -
  obtain h m where hm: "parseClock hhmm = Some (h, m)"
    and s: "s = (day * daySeconds + int h * 3600 + int m * 60 - k) * second"
    using assms by (auto simp: parseHHMM_fixed)
  from parseClock_range [OF hm]
  show "(day * daySeconds - k) * second \<le> s" "s < ((day + 1) * daySeconds - k) * second"
    unfolding s by (simp_all add: second_def daySeconds_def)
qed

lemma localDay_fixed_le:
  assumes "fixedOffset k loc" "(day * daySeconds - k) * second \<le> t"
  shows "day \<le> localDay loc t"
  using assms by (simp add: localDay_fixed Unix_le_iff daySeconds_def)

lemma windowStartLoop_le:
  assumes "fixedOffset k loc" "sorted ds" "d \<in> set ds"
    and "containsWeekday (Weekdays w) (Weekday loc (AddDays loc now d))"
    and "parseHHMM (From w) (localDay loc now + d) loc = Some f" "now < f"
  shows "\<exists>s. windowStartLoop loc w now ds = Some s \<and> s \<le> f"
  using assms(2,3)
proof (induction ds)
  case Nil
  then show ?case by simp
next
  case (Cons c ds)
  define g where "g = f + (c - d) * (daySeconds * second)"
  have g: "parseHHMM (From w) (localDay loc (AddDays loc now c)) loc = Some g"
    using parseHHMM_fixed_day [OF assms(1,5), of "c - d"]
    by (simp add: g_def AddDays_fixed [OF assms(1)] mult.assoc)
  have "c \<le> d" using Cons.prems by auto
  then have "g \<le> f" by (simp add: g_def daySeconds_def second_def)
  show ?case
  proof (cases "containsWeekday (Weekdays w) (Weekday loc (AddDays loc now c)) \<and> now < g")
    case True
    with g \<open>g \<le> f\<close> show ?thesis by (simp add: Let_def del: containsWeekday_iff)
  next
    case False
    then have "d \<noteq> c" using assms(4,6) by (auto simp: g_def)
    moreover have "windowStartLoop loc w now (c # ds) = windowStartLoop loc w now ds"
      using False g by (simp add: Let_def del: containsWeekday_iff)
    ultimately show ?thesis using Cons by simp
  qed
qed

lemma fixed_before_next_day:
  assumes "fixedOffset k loc" "localDay loc now < day"
  shows "now < (day * daySeconds - k) * second"
  using assms by (metis localDay_fixed_le not_le)

lemma opens_weekly:
  assumes "fixedOffset k loc" "ll (Timezone w) = Some loc" "opens ll w t u" "now \<le> t"
    and "\<forall>v. \<not> opens ll w now v"
  shows "\<exists>s. startsAt ll now w s \<and> s \<le> t"
proof -
  let ?D = "localDay loc t" and ?N = "localDay loc now"
  obtain f where wd: "Weekday loc t \<in> weekdayFromSpec ` set (Weekdays w)"
    and f: "parseHHMM (From w) ?D loc = Some f" and u: "parseHHMM (Until w) ?D loc = Some u"
    and t: "f \<le> t" "t < u"
    using assms(2,3) by (auto simp: opens_def)
  have le: "?N \<le> ?D"
    using assms(1,4) by (simp add: localDay_fixed zdiv_mono1 Unix_mono daySeconds_def)
  have later: "now < f"
  proof (rule ccontr)
    assume "\<not> now < f"
    then have "(?D * daySeconds - k) * second \<le> now"
      using parseHHMM_fixed_bounds(1) [OF assms(1) f] by simp
    then have "?N = ?D" using localDay_fixed_le [OF assms(1)] le by fastforce
    then have "opens ll w now u"
      using wd f u t \<open>\<not> now < f\<close> assms(2,4) Weekday_localDay [of loc t now 0]
      by (auto simp: opens_def)
    with assms(5) show False by blast
  qed
  define j where "j = (if ?D - ?N \<le> 7 then 0 else (?D - ?N - 1) div 7)"
  define d where "d = ?D - ?N - 7 * j"
  have d: "0 \<le> d" "d \<le> 7" "0 \<le> j" "j \<noteq> 0 \<longrightarrow> 1 \<le> d" using le unfolding d_def j_def by auto
  define g where "g = f + (- 7 * j) * daySeconds * second"
  have g: "parseHHMM (From w) (?N + d) loc = Some g"
    using parseHHMM_fixed_day [OF assms(1) f, of "- 7 * j"] by (simp add: g_def d_def)
  have "g \<le> t" using d(3) t by (simp add: g_def daySeconds_def second_def)
  moreover have "now < g"
  proof (cases "j = 0")
    case True
    with later show ?thesis by (simp add: g_def)
  next
    case False
    then have "now < ((?N + d) * daySeconds - k) * second"
      using d(4) by (intro fixed_before_next_day [OF assms(1)]) simp
    with parseHHMM_fixed_bounds(1) [OF assms(1) g] show ?thesis by simp
  qed
  moreover have "Weekday loc (AddDays loc now d) = Weekday loc t"
    by (rule Weekday_localDay [of _ _ _ "- j"]) (simp add: AddDays_fixed [OF assms(1)] d_def)
  ultimately show ?thesis
    using windowStartLoop_le [OF assms(1) _ _ _ g, of "[0..7]"] d wd assms(2)
    by (fastforce simp: startsAt_def)
qed

section \<open>Properties\<close>

text \<open>
  C9: \<open>isInAvailabilityWindow\<close> decides whether some window is open: it answers yes exactly when a
  configured window's zone loads, lists the local weekday, has two parsable clock times and
  contains the instant; the time returned with a yes is the end of such a window, later than now,
  and with a no it is the zero time.
\<close>

theorem isInAvailabilityWindow_iff:
  "case isInAvailabilityWindow loadLocation windows now of
     (True, until) \<Rightarrow> (\<exists>w \<in> set windows. opens loadLocation w now until) \<and> now < until
   | (False, until) \<Rightarrow> (\<nexists>w u. w \<in> set windows \<and> opens loadLocation w now u) \<and> until = zeroTime"
proof (cases "isInAvailabilityWindow loadLocation windows now")
  case (Pair inWindow until)
  show ?thesis
  proof (cases inWindow)
    case True
    with Pair have "\<exists>w \<in> set windows. opens loadLocation w now until"
      by (simp add: isInAvailabilityWindow_True)
    moreover from this have "now < until" by (auto simp: opens_def)
    ultimately show ?thesis using Pair True by simp
  next
    case False
    with Pair show ?thesis
      using isInAvailabilityWindow_False [of loadLocation windows now]
        isInAvailabilityWindow_False_time [of loadLocation windows now until] by auto
  qed
qed

text \<open>
  C17: workloads stay asleep exactly until the announced start. When every configured zone has a
  fixed offset (UTC, the default, is one) and now lies in no window, then no window is open at any
  instant from now until the time \<open>nextAvailabilityWindowStart\<close> returns, and when it returns the
  zero time no window is ever open again; a returned time lies in the future.
\<close>

theorem nextAvailabilityWindowStart_no_gap:
  assumes "\<And>w loc. w \<in> set windows \<Longrightarrow> loadLocation (Timezone w) = Some loc \<Longrightarrow> \<exists>k. fixedOffset k loc"
    and "zeroTime < now" "\<not> fst (isInAvailabilityWindow loadLocation windows now)"
  defines "next \<equiv> nextAvailabilityWindowStart loadLocation windows now"
  shows "(next = zeroTime \<or> now < next) \<and>
    (\<forall>t. now \<le> t \<and> (next = zeroTime \<or> t < next) \<longrightarrow>
       \<not> fst (isInAvailabilityWindow loadLocation windows t))"
proof (intro conjI allI impI)
  note spec = nextStartLoop_spec [OF assms(2), of zeroTime loadLocation windows,
      folded nextAvailabilityWindowStart_def next_def]
  show "next = zeroTime \<or> now < next"
    using spec by (auto simp: startsAt_def dest: windowStartLoop_Some(1))
  fix t assume t: "now \<le> t \<and> (next = zeroTime \<or> t < next)"
  show "\<not> fst (isInAvailabilityWindow loadLocation windows t)"
    unfolding isInAvailabilityWindow_False
  proof (intro ballI allI notI)
    fix w u assume w: "w \<in> set windows" and u: "opens loadLocation w t u"
    then obtain loc where loc: "loadLocation (Timezone w) = Some loc" by (auto simp: opens_def)
    with assms(1) [OF w] obtain k where k: "fixedOffset k loc" by blast
    have "\<forall>v. \<not> opens loadLocation w now v"
      using assms(3) w unfolding isInAvailabilityWindow_False by blast
    then obtain s where "startsAt loadLocation now w s" "s \<le> t"
      using opens_weekly [OF k loc u] t by blast
    with spec w t show False by fastforce
  qed
qed

theorem nextAvailabilityWindowStart_no_gap_witness:
  "nextAvailabilityWindowStart (\<lambda>_. Some UTC) [officeHours] (19 * hour) = 32 * hour \<and>
   \<not> fst (isInAvailabilityWindow (\<lambda>_. Some UTC) [officeHours] (31 * hour))"
proof -
  have n: "nextAvailabilityWindowStart (\<lambda>_. Some UTC) [officeHours] (19 * hour) = 32 * hour"
    by code_simp
  have closed: "\<not> fst (isInAvailabilityWindow (\<lambda>_. Some UTC) [officeHours] (19 * hour))"
    by code_simp
  have fixed: "\<exists>k. fixedOffset k loc"
    if "w \<in> set [officeHours]" "(\<lambda>_. Some UTC) (Timezone w) = Some loc" for w loc
    using that fixedOffset_UTC by auto
  have "zeroTime < 19 * hour" "19 * hour \<le> 31 * hour" "31 * hour < 32 * hour" by (simp_all add: go_defs)
  with nextAvailabilityWindowStart_no_gap [where loadLocation = "\<lambda>_. Some UTC", OF fixed this(1) closed]
  show ?thesis using n by simp
qed

end
