(* ===== verification/Kube_Api.thy ===== *)
theory Kube_Api
  imports Go_Strings
begin

text \<open>
  The Kubernetes API as the hibernation controllers see it. The API server and the client library
  are not part of the program: they are a parameter, a record of the calls the code makes
  (\<open>client.Client\<close>: \<open>List\<close>, \<open>Get\<close>, \<open>Patch\<close>), over an abstract cluster state \<open>'s\<close>. What the
  code relies on is the locale \<open>workload_api\<close>: a listing returns the stored objects, a
  \<open>MergeFrom\<close> patch whose base is the stored object replaces it by the modified one and touches
  nothing else, a failed patch changes nothing. Any call may fail.

  Objects carry the fields the code reads or writes. Annotations are a map; reading a missing
  key gives the empty string (\<open>ann\<close>), as in Go. A nil annotation map reads and deletes like an
  empty one, and the code replaces it before it writes, so both are the empty map here.
\<close>

section \<open>Objects\<close>

text \<open>The error values the code distinguishes: \<open>IsNotFound\<close>, \<open>IsAlreadyExists\<close>, anything else.\<close>

datatype kerr = NotFound | AlreadyExists | ApiError string

text \<open>
  Go errors as the controllers build them: an error of an API call, \<open>fmt.Errorf(format + ": %w",
  args..., err)\<close> and \<open>errors.Join\<close> of a non-empty list.
\<close>

datatype gerror =
    Api kerr
  | Errorf string "string list" gerror
  | Join "gerror list"

text \<open>\<open>errors.Join\<close>: nil when there is no error.\<close>

definition errorsJoin :: "gerror list \<Rightarrow> gerror option" where
  "errorsJoin errs = (if errs = [] then None else Some (Join errs))"

text \<open>The Go type of a workload object.\<close>

datatype wkind = Deployment | StatefulSet | ReplicaSet | DaemonSet

fun workloadKind :: "wkind \<Rightarrow> string" where
  "workloadKind Deployment = ''Deployment''"
| "workloadKind StatefulSet = ''StatefulSet''"
| "workloadKind ReplicaSet = ''ReplicaSet''"
| "workloadKind DaemonSet = ''DaemonSet''"

type_synonym annotations = "string \<rightharpoonup> string"

definition ann :: "annotations \<Rightarrow> string \<Rightarrow> string" where
  "ann a key = (case a key of None \<Rightarrow> '''' | Some v \<Rightarrow> v)"

text \<open>\<open>map[string]string\<close> as its entries in key order; \<^const>\<open>None\<close> is a nil map.\<close>

type_synonym nodeSelector = "(string \<times> string) list option"

text \<open>
  One record for the four workload types. \<open>wReplicas\<close> is \<open>Spec.Replicas\<close> of a Deployment,
  StatefulSet or ReplicaSet, \<open>wNodeSelector\<close> is \<open>Spec.Template.Spec.NodeSelector\<close> of a DaemonSet;
  \<open>wOwnerKinds\<close> lists the kinds of the owner references.
\<close>

record workload =
  wNamespace :: string
  wName :: string
  wAnnotations :: annotations
  wOwnerKinds :: "string list"
  wReplicas :: "32 word option"
  wNodeSelector :: nodeSelector

record scaleTargetRef =
  tAPIVersion :: string
  tKind :: string
  tName :: string

record hpa =
  hNamespace :: string
  hName :: string
  hAnnotations :: annotations
  hMinReplicas :: "32 word option"
  hMaxReplicas :: "32 word"
  hTarget :: scaleTargetRef

section \<open>The client\<close>

text \<open>
  A listing takes the namespace (\<open>client.InNamespace\<close>), \<^const>\<open>None\<close> for the whole cluster. A patch
  takes the deep copy \<open>base\<close> and the modified object, and returns the error, if any, and the new
  cluster state.
\<close>

record 's client =
  listWorkloads :: "wkind \<Rightarrow> string option \<Rightarrow> 's \<Rightarrow> kerr + workload list"
  getWorkload :: "wkind \<Rightarrow> string \<Rightarrow> string \<Rightarrow> 's \<Rightarrow> kerr + workload"
  patchWorkload :: "wkind \<Rightarrow> workload \<Rightarrow> workload \<Rightarrow> 's \<Rightarrow> kerr option \<times> 's"
  listHPAs :: "string \<Rightarrow> 's \<Rightarrow> kerr + hpa list"
  patchHPA :: "hpa \<Rightarrow> hpa \<Rightarrow> 's \<Rightarrow> kerr option \<times> 's"

type_synonym wkey = "wkind \<times> string \<times> string"

definition wkey :: "wkind \<Rightarrow> workload \<Rightarrow> wkey" where
  "wkey k w = (k, wNamespace w, wName w)"

definition hkey :: "hpa \<Rightarrow> string \<times> string" where
  "hkey h = (hNamespace h, hName h)"

locale workload_api =
  fixes C :: "('s, 'm) client_scheme"
    and stored :: "'s \<Rightarrow> wkey \<rightharpoonup> workload"
    and storedHPA :: "'s \<Rightarrow> string \<times> string \<rightharpoonup> hpa"
  assumes stored_key: "stored s (k, ns, n) = Some w \<Longrightarrow> wNamespace w = ns \<and> wName w = n"
    and list_set: "listWorkloads C k (Some ns) s = Inr ws \<Longrightarrow>
      set ws = {w. \<exists>n. stored s (k, ns, n) = Some w} \<and> distinct (map wName ws)"
    and list_all_set: "listWorkloads C k None s = Inr ws \<Longrightarrow>
      set ws = {w. \<exists>ns n. stored s (k, ns, n) = Some w}"
    and get_Inr: "getWorkload C k ns n s = Inr w \<Longrightarrow> stored s (k, ns, n) = Some w"
    and get_NotFound: "getWorkload C k ns n s = Inl NotFound \<Longrightarrow> stored s (k, ns, n) = None"
    and patch_ok: "patchWorkload C k base w s = (None, s') \<Longrightarrow> stored s (wkey k base) = Some base \<Longrightarrow>
      wkey k w = wkey k base \<Longrightarrow>
      stored s' = (stored s)(wkey k base \<mapsto> w) \<and> storedHPA s' = storedHPA s"
    and patch_error: "patchWorkload C k base w s = (Some e, s') \<Longrightarrow>
      stored s' = stored s \<and> storedHPA s' = storedHPA s"
    and storedHPA_key: "storedHPA s (ns, n) = Some h \<Longrightarrow> hNamespace h = ns \<and> hName h = n"
    and listHPAs_set: "listHPAs C ns s = Inr hs \<Longrightarrow> set hs = {h. \<exists>n. storedHPA s (ns, n) = Some h}"
    and patchHPA_ok: "patchHPA C hbase h s = (None, s') \<Longrightarrow> storedHPA s (hkey hbase) = Some hbase \<Longrightarrow>
      hkey h = hkey hbase \<Longrightarrow>
      storedHPA s' = (storedHPA s)(hkey hbase \<mapsto> h) \<and> stored s' = stored s"
    and patchHPA_error: "patchHPA C hbase h s = (Some e, s') \<Longrightarrow>
      storedHPA s' = storedHPA s \<and> stored s' = stored s"
begin

lemma list_stored:
  "listWorkloads C k (Some ns) s = Inr ws \<Longrightarrow> w \<in> set ws \<Longrightarrow>
     stored s (wkey k w) = Some w \<and> wNamespace w = ns"
  using list_set [of k ns s ws] stored_key [of s k ns] by (auto simp: wkey_def)

lemma list_complete:
  "listWorkloads C k (Some ns) s = Inr ws \<Longrightarrow> stored s (k, ns, n) = Some w \<Longrightarrow> w \<in> set ws"
  using list_set by blast

lemma listHPAs_stored:
  "listHPAs C ns s = Inr hs \<Longrightarrow> h \<in> set hs \<Longrightarrow> storedHPA s (hkey h) = Some h \<and> hNamespace h = ns"
  using listHPAs_set [of ns s hs] storedHPA_key [of s ns] by (auto simp: hkey_def)

end

section \<open>A reference client\<close>

text \<open>
  An in-memory client with injected faults. The state is an association list from keys to objects
  (later entries of a repeated key are ignored, and an object is read under its key's names), and
  \<open>fault\<close> says which calls fail. It shows that the laws can hold together with failures; the
  witnesses of the controllers' properties run on it.
\<close>

record memState =
  mWorkloads :: "(wkey \<times> workload) list"
  mHPAs :: "((string \<times> string) \<times> hpa) list"

definition alistPut :: "'k \<Rightarrow> 'v \<Rightarrow> ('k \<times> 'v) list \<Rightarrow> ('k \<times> 'v) list" where
  "alistPut key v xs = map (\<lambda>(k, u). if k = key then (k, v) else (k, u)) xs"

fun nameWorkload :: "wkey \<Rightarrow> workload \<Rightarrow> workload" where
  "nameWorkload (k, ns, n) w = w\<lparr>wNamespace := ns, wName := n\<rparr>"

fun nameHPA :: "string \<times> string \<Rightarrow> hpa \<Rightarrow> hpa" where
  "nameHPA (ns, n) h = h\<lparr>hNamespace := ns, hName := n\<rparr>"

definition memStored :: "'a memState_scheme \<Rightarrow> wkey \<rightharpoonup> workload" where
  "memStored s key = map_option (nameWorkload key) (map_of (mWorkloads s) key)"

definition memStoredHPA :: "'a memState_scheme \<Rightarrow> string \<times> string \<rightharpoonup> hpa" where
  "memStoredHPA s key = map_option (nameHPA key) (map_of (mHPAs s) key)"

definition memListWorkloads :: "'a memState_scheme \<Rightarrow> wkind \<Rightarrow> string option \<Rightarrow> workload list" where
  "memListWorkloads s k ns = List.map_filter (memStored s)
     (filter (\<lambda>(k', ns', n). k' = k \<and> (ns = None \<or> ns = Some ns'))
       (remdups (map fst (mWorkloads s))))"

definition memListHPAs :: "'a memState_scheme \<Rightarrow> string \<Rightarrow> hpa list" where
  "memListHPAs s ns = List.map_filter (memStoredHPA s)
     (filter (\<lambda>(ns', n). ns' = ns) (remdups (map fst (mHPAs s))))"

definition memClient :: "(string \<Rightarrow> kerr option) \<Rightarrow> 'a memState_scheme client" where
  "memClient fault =
     \<lparr>listWorkloads = (\<lambda>k ns s. case fault (''list '' @ workloadKind k) of
          Some e \<Rightarrow> Inl e
        | None \<Rightarrow> Inr (memListWorkloads s k ns)),
      getWorkload = (\<lambda>k ns n s. case fault (''get '' @ workloadKind k) of
          Some e \<Rightarrow> Inl (ApiError ''fault'')
        | None \<Rightarrow> (case memStored s (k, ns, n) of None \<Rightarrow> Inl NotFound | Some w \<Rightarrow> Inr w)),
      patchWorkload = (\<lambda>k base w s. case fault (''patch '' @ workloadKind k @ ''/'' @ wName base) of
          Some e \<Rightarrow> (Some e, s)
        | None \<Rightarrow> (None, s\<lparr>mWorkloads := alistPut (wkey k base) w (mWorkloads s)\<rparr>)),
      listHPAs = (\<lambda>ns s. case fault ''list HPA'' of
          Some e \<Rightarrow> Inl e
        | None \<Rightarrow> Inr (memListHPAs s ns)),
      patchHPA = (\<lambda>base h s. case fault (''patch HPA/'' @ hName base) of
          Some e \<Rightarrow> (Some e, s)
        | None \<Rightarrow> (None, s\<lparr>mHPAs := alistPut (hkey base) h (mHPAs s)\<rparr>))\<rparr>"

section \<open>Lemmas\<close>

lemma map_of_alistPut:
  "map_of (alistPut key v xs) =
     (if key \<in> fst ` set xs then (map_of xs)(key \<mapsto> v) else map_of xs)"
  by (induction xs) (auto simp: alistPut_def fun_eq_iff)

lemma nameWorkload_wkey [simp]: "nameWorkload (wkey k w) w = w"
  by (simp add: wkey_def)

lemma nameHPA_hkey [simp]: "nameHPA (hkey h) h = h"
  by (simp add: hkey_def)

lemma set_map_filter: "set (List.map_filter f xs) = {y. \<exists>x \<in> set xs. f x = Some y}"
  by (induction xs) (auto simp: List.map_filter_def split: option.splits)

lemma memStored_put:
  assumes "memStored s (wkey k base) = Some base" "wkey k w = wkey k base"
  shows "memStored (s\<lparr>mWorkloads := alistPut (wkey k base) w (mWorkloads s)\<rparr>)
    = (memStored s)(wkey k base \<mapsto> w)"
proof
  fix key
  have "wkey k base \<in> fst ` set (mWorkloads s)"
    using assms(1) by (auto simp: memStored_def dest: map_of_SomeD intro: rev_image_eqI)
  moreover have "nameWorkload (wkey k base) w = w"
    using nameWorkload_wkey [of k w] assms(2) by (simp only:)
  ultimately show "memStored (s\<lparr>mWorkloads := alistPut (wkey k base) w (mWorkloads s)\<rparr>) key
      = ((memStored s)(wkey k base \<mapsto> w)) key"
    by (simp add: memStored_def map_of_alistPut)
qed

lemma memStoredHPA_put:
  assumes "memStoredHPA s (hkey base) = Some base" "hkey h = hkey base"
  shows "memStoredHPA (s\<lparr>mHPAs := alistPut (hkey base) h (mHPAs s)\<rparr>)
    = (memStoredHPA s)(hkey base \<mapsto> h)"
proof
  fix key
  have "hkey base \<in> fst ` set (mHPAs s)"
    using assms(1) by (auto simp: memStoredHPA_def dest: map_of_SomeD intro: rev_image_eqI)
  moreover have "nameHPA (hkey base) h = h"
    using nameHPA_hkey [of h] assms(2) by (simp only:)
  ultimately show "memStoredHPA (s\<lparr>mHPAs := alistPut (hkey base) h (mHPAs s)\<rparr>) key
      = ((memStoredHPA s)(hkey base \<mapsto> h)) key"
    by (simp add: memStoredHPA_def map_of_alistPut)
qed

lemma memStored_Some_key:
  "memStored s (k, ns, n) = Some w \<Longrightarrow> wNamespace w = ns \<and> wName w = n"
  by (auto simp: memStored_def)

lemma memStoredHPA_Some_key: "memStoredHPA s (ns, n) = Some h \<Longrightarrow> hNamespace h = ns \<and> hName h = n"
  by (auto simp: memStoredHPA_def)

lemma memStored_dom: "memStored s key = Some w \<Longrightarrow> key \<in> set (map fst (mWorkloads s))"
  by (auto simp: memStored_def dest!: map_of_SomeD intro: rev_image_eqI)

lemma memStoredHPA_dom: "memStoredHPA s key = Some h \<Longrightarrow> key \<in> set (map fst (mHPAs s))"
  by (auto simp: memStoredHPA_def dest!: map_of_SomeD intro: rev_image_eqI)

lemma map_filter_Cons:
  "List.map_filter f (x # xs) =
     (case f x of None \<Rightarrow> List.map_filter f xs | Some y \<Rightarrow> y # List.map_filter f xs)"
  by (simp add: List.map_filter_def split: option.splits)

lemma distinct_map_filter:
  assumes "distinct xs" "\<And>x y. x \<in> set xs \<Longrightarrow> f x = Some y \<Longrightarrow> g y = h x"
    and "inj_on h (set xs)"
  shows "distinct (map g (List.map_filter f xs))"
  using assms
proof (induction xs)
  case Nil
  then show ?case by (simp add: List.map_filter_def)
next
  case (Cons x xs)
  then have IH: "distinct (map g (List.map_filter f xs))" by auto
  have "g y \<notin> g ` set (List.map_filter f xs)" if "f x = Some y" for y
  proof
    assume "g y \<in> g ` set (List.map_filter f xs)"
    then obtain z v where z: "z \<in> set xs" "f z = Some v" "g y = g v" by (auto simp: set_map_filter)
    then have "h x = h z" using Cons.prems(2) [of x y] Cons.prems(2) [of z v] that by simp
    then show False using Cons.prems(1,3) z(1) by (auto simp: inj_on_def)
  qed
  with IH show ?case by (simp add: map_filter_Cons split: option.splits)
qed

lemma memListWorkloads_set:
  "set (memListWorkloads s k ns) =
     {w. \<exists>ns' n. (ns = None \<or> ns = Some ns') \<and> memStored s (k, ns', n) = Some w}" (is "?L = ?R")
proof (intro set_eqI iffI)
  fix w assume "w \<in> ?R"
  then obtain ns' n where w: "ns = None \<or> ns = Some ns'" "memStored s (k, ns', n) = Some w" by blast
  then have "(k, ns', n) \<in> set (filter (\<lambda>(k', ns', n). k' = k \<and> (ns = None \<or> ns = Some ns'))
      (remdups (map fst (mWorkloads s))))"
    using memStored_dom [OF w(2)] by (simp del: set_map)
  with w(2) show "w \<in> ?L" unfolding memListWorkloads_def set_map_filter by blast
qed (auto simp: memListWorkloads_def set_map_filter simp del: set_map)

lemma memListHPAs_set: "set (memListHPAs s ns) = {h. \<exists>n. memStoredHPA s (ns, n) = Some h}"
    (is "?L = ?R")
proof (intro set_eqI iffI)
  fix h assume "h \<in> ?R"
  then obtain n where h: "memStoredHPA s (ns, n) = Some h" by blast
  then have "(ns, n) \<in> set (filter (\<lambda>(ns', n). ns' = ns) (remdups (map fst (mHPAs s))))"
    using memStoredHPA_dom [OF h] by (simp del: set_map)
  with h show "h \<in> ?L" unfolding memListHPAs_def set_map_filter by blast
qed (auto simp: memListHPAs_def set_map_filter simp del: set_map)

lemma memListWorkloads_distinct: "distinct (map wName (memListWorkloads s k (Some ns)))"
  unfolding memListWorkloads_def
  by (rule distinct_map_filter [where h = "snd \<circ> snd"])
    (auto simp: inj_on_def dest: memStored_Some_key)

text \<open>The laws speak of the calls only, so a client with more calls inherits them.\<close>

lemma workload_api_same_calls:
  "workload_api C st sh \<Longrightarrow> listWorkloads D = listWorkloads C \<Longrightarrow> getWorkload D = getWorkload C \<Longrightarrow>
    patchWorkload D = patchWorkload C \<Longrightarrow> listHPAs D = listHPAs C \<Longrightarrow> patchHPA D = patchHPA C \<Longrightarrow>
    workload_api D st sh"
  by (simp add: workload_api_def)

interpretation mem: workload_api "memClient fault" memStored memStoredHPA for fault
proof (unfold_locales, goal_cases)
  case (1 s k ns n w)
  then show ?case by (rule memStored_Some_key)
next
  case (2 k ns s ws)
  then have "ws = memListWorkloads s k (Some ns)" by (auto simp: memClient_def split: option.splits)
  then show ?case
    using memListWorkloads_distinct by (simp add: memListWorkloads_set)
next
  case (3 k s ws)
  then have "ws = memListWorkloads s k None" by (auto simp: memClient_def split: option.splits)
  then show ?case
    by (simp add: memListWorkloads_set)
next
  case (6 k base w s s')
  then show ?case using memStored_put
    by (auto simp: memClient_def memStoredHPA_def split: option.splits)
next
  case (8 s ns n h)
  then show ?case by (rule memStoredHPA_Some_key)
next
  case (9 ns s hs)
  then have "hs = memListHPAs s ns" by (auto simp: memClient_def split: option.splits)
  then show ?case
    by (simp add: memListHPAs_set)
next
  case (10 hbase h s s')
  then show ?case using memStoredHPA_put
    by (auto simp: memClient_def memStored_def split: option.splits)
qed (auto simp: memClient_def split: option.splits)

end
