(* ===== verification/Hpa.thy ===== *)
theory Hpa
  imports Kube_Api Names
begin

text \<open>
  The HorizontalPodAutoscaler helpers of \<open>internal/controller/helpers.go\<close>: before a workload is
  scaled down its autoscaler is suspended (bounds clamped, or, for a target of zero, detached from
  the workload), and on wake-up it is restored from the values kept in its annotations. Replica
  counts are \<open>int32\<close>, here \<^typ>\<open>32 word\<close> read with \<^const>\<open>sint\<close>.

  \<open>suspendedHPA\<close> and \<open>restoredHPA\<close> are the changes the two helpers make to the object in memory
  before the patch. Tracing spans are left out.
\<close>

section \<open>Model\<close>

definition annotationOriginalHPAMin :: string where
  "annotationOriginalHPAMin = ''greencosts.hstr.nl/original-hpa-min''"

definition annotationOriginalHPAMax :: string where
  "annotationOriginalHPAMax = ''greencosts.hstr.nl/original-hpa-max''"

definition annotationOriginalHPATargetAPIVersion :: string where
  "annotationOriginalHPATargetAPIVersion = ''greencosts.hstr.nl/original-hpa-target-api-version''"

definition annotationOriginalHPATargetKind :: string where
  "annotationOriginalHPATargetKind = ''greencosts.hstr.nl/original-hpa-target-kind''"

definition annotationOriginalHPATargetName :: string where
  "annotationOriginalHPATargetName = ''greencosts.hstr.nl/original-hpa-target-name''"

definition defaultOriginalReplicas :: int where
  "defaultOriginalReplicas = 1"

record hibernateAction =
  MaxReplicas :: "32 word option"
  SleepDaemonSet :: bool

definition computeTargetReplicas :: "hibernateAction \<Rightarrow> 32 word \<Rightarrow> 32 word \<times> bool" where
  "computeTargetReplicas action current =
     (case MaxReplicas action of
        Some m \<Rightarrow> if sint m < sint current then (m, True) else (0, False)
      | None \<Rightarrow> (0, False))"

definition parseOriginalReplicas :: "string \<Rightarrow> int" where
  "parseOriginalReplicas s =
     (if s = '''' then defaultOriginalReplicas
      else case Atoi s of
             None \<Rightarrow> defaultOriginalReplicas
           | Some v \<Rightarrow> if v < 0 then defaultOriginalReplicas else v)"

definition findHPA ::
  "('s, 'm) client_scheme \<Rightarrow> string \<Rightarrow> string \<Rightarrow> string \<Rightarrow> 's \<Rightarrow> gerror + hpa option" where
  "findHPA C namespace kind name s =
     (case listHPAs C namespace s of
        Inl e \<Rightarrow> Inl (Errorf ''listing HPAs in %q'' [namespace] (Api e))
      | Inr items \<Rightarrow> Inr (find (\<lambda>h. tKind (hTarget h) = kind \<and> tName (hTarget h) = name) items))"

definition findSuspendedHPA ::
  "('s, 'm) client_scheme \<Rightarrow> string \<Rightarrow> string \<Rightarrow> string \<Rightarrow> 's \<Rightarrow> gerror + hpa option" where
  "findSuspendedHPA C namespace kind name s =
     (case listHPAs C namespace s of
        Inl e \<Rightarrow> Inl (Errorf ''listing HPAs in %q'' [namespace] (Api e))
      | Inr items \<Rightarrow> Inr (find (\<lambda>h.
            ann (hAnnotations h) annotationOriginalHPATargetKind = kind \<and>
            ann (hAnnotations h) annotationOriginalHPATargetName = name) items))"

definition suspendedHPA :: "32 word \<Rightarrow> hpa \<Rightarrow> hpa" where
  "suspendedHPA target h =
     (let origMin = (case hMinReplicas h of None \<Rightarrow> 1 | Some m \<Rightarrow> m);
          origMax = hMaxReplicas h;
          ref = hTarget h;
          annotated = (hAnnotations h)
            (annotationOriginalHPAMin \<mapsto> Itoa (sint origMin),
             annotationOriginalHPAMax \<mapsto> Itoa (sint origMax))
      in if target = 0
         then h\<lparr>hAnnotations := annotated
                  (annotationOriginalHPATargetAPIVersion \<mapsto> tAPIVersion ref,
                   annotationOriginalHPATargetKind \<mapsto> tKind ref,
                   annotationOriginalHPATargetName \<mapsto> tName ref),
                hTarget := ref\<lparr>tName := detachedHPATargetName (tKind ref) (tName ref)\<rparr>\<rparr>
         else h\<lparr>hAnnotations := annotated, hMinReplicas := Some target, hMaxReplicas := target\<rparr>)"

definition suspendHPA ::
  "('s, 'm) client_scheme \<Rightarrow> string \<Rightarrow> string \<Rightarrow> string \<Rightarrow> 32 word \<Rightarrow> 's \<Rightarrow> gerror option \<times> 's" where
  "suspendHPA C namespace kind name target s =
     (case findHPA C namespace kind name s of
        Inl e \<Rightarrow> (Some e, s)
      | Inr None \<Rightarrow> (None, s)
      | Inr (Some h) \<Rightarrow>
          if ann (hAnnotations h) annotationOriginalHPAMin \<noteq> '''' then (None, s)
          else case patchHPA C h (suspendedHPA target h) s of
                 (Some e, s') \<Rightarrow> (Some (Errorf ''suspending HPA %s/%s'' [namespace, hName h] (Api e)), s')
               | (None, s') \<Rightarrow> (None, s'))"

definition suspendHPAForAction ::
  "('s, 'm) client_scheme \<Rightarrow> string \<Rightarrow> string \<Rightarrow> string \<Rightarrow> hibernateAction \<Rightarrow> 's \<Rightarrow>
     gerror option \<times> 's" where
  "suspendHPAForAction C namespace kind name action s =
     (case MaxReplicas action of
        None \<Rightarrow> (None, s)
      | Some m \<Rightarrow> suspendHPA C namespace kind name m s)"

text \<open>\<open>int32(v)\<close> truncates: \<^const>\<open>word_of_int\<close>.\<close>

definition restoredHPA :: "hpa \<Rightarrow> hpa" where
  "restoredHPA h =
     (let a = hAnnotations h;
          origMin = word_of_int (parseOriginalReplicas (ann a annotationOriginalHPAMin));
          origMax = word_of_int (parseOriginalReplicas (ann a annotationOriginalHPAMax));
          targetName = ann a annotationOriginalHPATargetName
      in h\<lparr>hAnnotations := a
             (annotationOriginalHPAMin := None,
              annotationOriginalHPAMax := None,
              annotationOriginalHPATargetAPIVersion := None,
              annotationOriginalHPATargetKind := None,
              annotationOriginalHPATargetName := None),
           hMinReplicas := Some origMin,
           hMaxReplicas := origMax,
           hTarget := (if targetName \<noteq> ''''
             then \<lparr>tAPIVersion = ann a annotationOriginalHPATargetAPIVersion,
                   tKind = ann a annotationOriginalHPATargetKind,
                   tName = targetName\<rparr>
             else hTarget h)\<rparr>)"

definition restoreHPA ::
  "('s, 'm) client_scheme \<Rightarrow> string \<Rightarrow> string \<Rightarrow> string \<Rightarrow> 's \<Rightarrow> gerror option \<times> 's" where
  "restoreHPA C namespace kind name s =
     (let found = (case findHPA C namespace kind name s of
                     Inl e \<Rightarrow> Inl e
                   | Inr (Some h) \<Rightarrow> Inr (Some h)
                   | Inr None \<Rightarrow> findSuspendedHPA C namespace kind name s)
      in case found of
           Inl e \<Rightarrow> (Some e, s)
         | Inr None \<Rightarrow> (None, s)
         | Inr (Some h) \<Rightarrow>
             if ann (hAnnotations h) annotationOriginalHPAMin = '''' then (None, s)
             else case patchHPA C h (restoredHPA h) s of
                    (Some e, s') \<Rightarrow> (Some (Errorf ''restoring HPA %s/%s'' [namespace, hName h] (Api e)), s')
                  | (None, s') \<Rightarrow> (None, s'))"

text \<open>
  What the properties speak of: the autoscaler of a workload, an autoscaler that carries none of
  the bookkeeping annotations and has a target and non-negative bounds, and the lower bound the
  API server applies when \<open>minReplicas\<close> is nil.
\<close>

definition targets :: "string \<Rightarrow> string \<Rightarrow> hpa \<Rightarrow> bool" where
  "targets kind name h \<longleftrightarrow> tKind (hTarget h) = kind \<and> tName (hTarget h) = name"

definition effectiveMin :: "hpa \<Rightarrow> 32 word" where
  "effectiveMin h = (case hMinReplicas h of None \<Rightarrow> 1 | Some m \<Rightarrow> m)"

definition unsuspended :: "hpa \<Rightarrow> bool" where
  "unsuspended h \<longleftrightarrow>
     list_all (\<lambda>key. hAnnotations h key = None)
       [annotationOriginalHPAMin, annotationOriginalHPAMax, annotationOriginalHPATargetAPIVersion,
        annotationOriginalHPATargetKind, annotationOriginalHPATargetName] \<and>
     0 \<le> sint (effectiveMin h) \<and> 0 \<le> sint (hMaxReplicas h) \<and> tName (hTarget h) \<noteq> ''''"

text \<open>A namespace with one autoscaler, for the examples.\<close>

definition webHPA :: hpa where
  "webHPA = \<lparr>hNamespace = ''shop'', hName = ''web-hpa'', hAnnotations = Map.empty,
     hMinReplicas = None, hMaxReplicas = 9,
     hTarget = \<lparr>tAPIVersion = ''apps/v1'', tKind = ''Deployment'', tName = ''web''\<rparr>\<rparr>"

definition webCluster :: memState where
  "webCluster = \<lparr>mWorkloads = [], mHPAs = [((''shop'', ''web-hpa''), webHPA)]\<rparr>"

definition noFault :: "string \<Rightarrow> kerr option" where
  "noFault call = None"

section \<open>Lemmas\<close>

lemmas hpaAnnotations =
  annotationOriginalHPAMin_def annotationOriginalHPAMax_def
  annotationOriginalHPATargetAPIVersion_def annotationOriginalHPATargetKind_def
  annotationOriginalHPATargetName_def

lemma ann_upd [simp]: "ann (a(k \<mapsto> v)) k' = (if k' = k then v else ann a k')"
  by (simp add: ann_def)

lemma ann_del [simp]: "ann (a(k := None)) k' = (if k' = k then '''' else ann a k')"
  by (simp add: ann_def)

lemma ann_None [simp]: "a k = None \<Longrightarrow> ann a k = ''''"
  by (simp add: ann_def)

lemma hpaAnnotations_distinct [simp]:
  "annotationOriginalHPAMin \<noteq> annotationOriginalHPAMax"
  "annotationOriginalHPAMin \<noteq> annotationOriginalHPATargetAPIVersion"
  "annotationOriginalHPAMin \<noteq> annotationOriginalHPATargetKind"
  "annotationOriginalHPAMin \<noteq> annotationOriginalHPATargetName"
  "annotationOriginalHPAMax \<noteq> annotationOriginalHPATargetAPIVersion"
  "annotationOriginalHPAMax \<noteq> annotationOriginalHPATargetKind"
  "annotationOriginalHPAMax \<noteq> annotationOriginalHPATargetName"
  "annotationOriginalHPATargetAPIVersion \<noteq> annotationOriginalHPATargetKind"
  "annotationOriginalHPATargetAPIVersion \<noteq> annotationOriginalHPATargetName"
  "annotationOriginalHPATargetKind \<noteq> annotationOriginalHPATargetName"
  by (simp_all add: hpaAnnotations)

lemma hpaAnnotations_distinct' [simp]:
  "annotationOriginalHPAMax \<noteq> annotationOriginalHPAMin"
  "annotationOriginalHPATargetAPIVersion \<noteq> annotationOriginalHPAMin"
  "annotationOriginalHPATargetKind \<noteq> annotationOriginalHPAMin"
  "annotationOriginalHPATargetName \<noteq> annotationOriginalHPAMin"
  "annotationOriginalHPATargetAPIVersion \<noteq> annotationOriginalHPAMax"
  "annotationOriginalHPATargetKind \<noteq> annotationOriginalHPAMax"
  "annotationOriginalHPATargetName \<noteq> annotationOriginalHPAMax"
  "annotationOriginalHPATargetKind \<noteq> annotationOriginalHPATargetAPIVersion"
  "annotationOriginalHPATargetName \<noteq> annotationOriginalHPATargetAPIVersion"
  "annotationOriginalHPATargetName \<noteq> annotationOriginalHPATargetKind"
  by (simp_all add: hpaAnnotations)

lemma sint32_range: "minInt64 \<le> sint (w :: 32 word)" "sint (w :: 32 word) \<le> maxInt64"
  using sint_ge [of w] sint_lt [of w] by (simp_all add: go_defs)

text \<open>A non-negative \<open>int32\<close> survives its trip through an annotation.\<close>

lemma parseOriginalReplicas_Itoa:
  "0 \<le> sint (w :: 32 word) \<Longrightarrow> word_of_int (parseOriginalReplicas (Itoa (sint w))) = w"
  by (simp add: parseOriginalReplicas_def Atoi_Itoa sint32_range)

lemma parseOriginalReplicas_nonneg: "0 \<le> parseOriginalReplicas s"
  by (simp add: parseOriginalReplicas_def defaultOriginalReplicas_def split: option.splits)

lemma suspendedHPA_key [simp]: "hkey (suspendedHPA t h) = hkey h"
  by (simp add: suspendedHPA_def hkey_def Let_def)

lemma restoredHPA_key [simp]: "hkey (restoredHPA h) = hkey h"
  by (simp add: restoredHPA_def hkey_def Let_def)

lemma suspendedHPA_marked [simp]:
  "ann (hAnnotations (suspendedHPA t h)) annotationOriginalHPAMin \<noteq> ''''"
  by (simp add: suspendedHPA_def Let_def)

lemma restored_suspended:
  assumes "unsuspended h"
  shows "restoredHPA (suspendedHPA t h) = h\<lparr>hMinReplicas := Some (effectiveMin h)\<rparr>"
proof -
  from assms have none: "hAnnotations h annotationOriginalHPAMin = None"
    "hAnnotations h annotationOriginalHPAMax = None"
    "hAnnotations h annotationOriginalHPATargetAPIVersion = None"
    "hAnnotations h annotationOriginalHPATargetKind = None"
    "hAnnotations h annotationOriginalHPATargetName = None"
    and bounds: "0 \<le> sint (effectiveMin h)" "0 \<le> sint (hMaxReplicas h)"
      "tName (hTarget h) \<noteq> ''''"
    by (simp_all add: unsuspended_def)
  have cleared: "m(k1 := None, k2 := None, k3 := None, k4 := None, k5 := None) = hAnnotations h"
    if "\<And>k. k \<notin> {k1, k2, k3, k4, k5} \<Longrightarrow> m k = hAnnotations h k"
      "\<And>k. k \<in> {k1, k2, k3, k4, k5} \<Longrightarrow> hAnnotations h k = None" for m k1 k2 k3 k4 k5
    using that by (auto simp: fun_eq_iff)
  show ?thesis
  proof (cases "t = 0")
    case True
    then show ?thesis
      using bounds none
      by (simp add: restoredHPA_def suspendedHPA_def Let_def parseOriginalReplicas_Itoa
          flip: effectiveMin_def) (subst cleared, auto)
  next
    case False
    then show ?thesis
      using bounds none
      by (simp add: restoredHPA_def suspendedHPA_def Let_def parseOriginalReplicas_Itoa
          flip: effectiveMin_def) (subst cleared, auto)
  qed
qed

lemma find_unique:
  "x \<in> set xs \<Longrightarrow> P x \<Longrightarrow> (\<And>y. y \<in> set xs \<Longrightarrow> P y \<Longrightarrow> y = x) \<Longrightarrow> find P xs = Some x"
  by (metis find_None_iff find_Some_iff nth_mem option.exhaust)

lemma findHPA_targets:
  "findHPA C namespace kind name s =
     (case listHPAs C namespace s of
        Inl e \<Rightarrow> Inl (Errorf ''listing HPAs in %q'' [namespace] (Api e))
      | Inr items \<Rightarrow> Inr (find (\<lambda>h. targets kind name h) items))"
  unfolding findHPA_def targets_def by (rule refl)

context workload_api
begin

lemma findHPA_Some:
  assumes "findHPA C ns kind name s = Inr (Some h)"
  shows "storedHPA s (hkey h) = Some h" "hNamespace h = ns" "targets kind name h"
proof -
  from assms obtain hs where hs: "listHPAs C ns s = Inr hs" "find (targets kind name) hs = Some h"
    by (auto simp: findHPA_targets split: sum.splits)
  then have "h \<in> set hs" "targets kind name h" by (auto simp: find_Some_iff)
  then show "storedHPA s (hkey h) = Some h" "hNamespace h = ns" "targets kind name h"
    using listHPAs_stored [OF hs(1)] by auto
qed

lemma findHPA_None:
  "findHPA C ns kind name s = Inr None \<Longrightarrow> storedHPA s (ns, n) = Some h \<Longrightarrow> \<not> targets kind name h"
  using listHPAs_set [of ns s] by (fastforce simp: findHPA_targets find_None_iff split: sum.splits)

lemma findHPA_unique:
  assumes "findHPA C ns kind name s = Inr r" "storedHPA s (ns, n) = Some h" "targets kind name h"
    and "\<And>n' h'. storedHPA s (ns, n') = Some h' \<Longrightarrow> targets kind name h' \<Longrightarrow> h' = h"
  shows "r = Some h"
proof -
  from assms(1) obtain hs where hs: "listHPAs C ns s = Inr hs" "r = find (targets kind name) hs"
    by (auto simp: findHPA_targets split: sum.splits)
  show ?thesis unfolding hs(2)
    by (rule find_unique) (use listHPAs_set [OF hs(1)] assms in blast)+
qed

lemma findSuspendedHPA_Some:
  assumes "findSuspendedHPA C ns kind name s = Inr (Some h)"
  shows "storedHPA s (hkey h) = Some h" "hNamespace h = ns"
proof -
  from assms obtain hs where hs: "listHPAs C ns s = Inr hs" "h \<in> set hs"
    by (auto simp: findSuspendedHPA_def find_Some_iff split: sum.splits)
  then show "storedHPA s (hkey h) = Some h" "hNamespace h = ns" using listHPAs_stored by auto
qed

lemma findSuspendedHPA_unique:
  assumes "findSuspendedHPA C ns kind name s = Inr r" "storedHPA s (ns, n) = Some h"
    and "ann (hAnnotations h) annotationOriginalHPATargetKind = kind"
      "ann (hAnnotations h) annotationOriginalHPATargetName = name"
    and "\<And>n' h'. storedHPA s (ns, n') = Some h' \<Longrightarrow>
      ann (hAnnotations h') annotationOriginalHPATargetName = name \<Longrightarrow> h' = h"
  shows "r = Some h"
proof -
  from assms(1) obtain hs where hs: "listHPAs C ns s = Inr hs" "r = find (\<lambda>h.
            ann (hAnnotations h) annotationOriginalHPATargetKind = kind \<and>
            ann (hAnnotations h) annotationOriginalHPATargetName = name) hs"
    by (auto simp: findSuspendedHPA_def split: sum.splits)
  show ?thesis unfolding hs(2)
    by (rule find_unique) (use listHPAs_set [OF hs(1)] assms in blast)+
qed

text \<open>The helpers never touch a workload, and change at most the autoscaler they found.\<close>

lemma suspendHPA_stored: "suspendHPA C ns kind name t s = (r, s') \<Longrightarrow> stored s' = stored s"
  by (auto simp: suspendHPA_def split: sum.splits option.splits if_splits prod.splits
      dest!: findHPA_Some(1) patchHPA_error dest: patchHPA_ok)

lemma restoreHPA_stored: "restoreHPA C ns kind name s = (r, s') \<Longrightarrow> stored s' = stored s"
  by (auto simp: restoreHPA_def Let_def split: sum.splits option.splits if_splits prod.splits
      dest!: findHPA_Some(1) findSuspendedHPA_Some(1) patchHPA_error dest: patchHPA_ok)

lemma suspendHPAForAction_stored:
  "suspendHPAForAction C ns kind name action s = (r, s') \<Longrightarrow> stored s' = stored s"
  by (auto simp: suspendHPAForAction_def split: option.splits dest: suspendHPA_stored)

lemma suspendHPA_error: "suspendHPA C ns kind name t s = (Some e, s') \<Longrightarrow> storedHPA s' = storedHPA s"
  by (auto simp: suspendHPA_def split: sum.splits option.splits if_splits prod.splits
      dest!: patchHPA_error)

lemma suspendHPA_ok:
  assumes "suspendHPA C ns kind name t s = (None, s')"
  obtains (none) "storedHPA s' = storedHPA s" "\<And>n h. storedHPA s (ns, n) = Some h \<Longrightarrow> \<not> targets kind name h"
  | (already) h where "storedHPA s' = storedHPA s" "storedHPA s (hkey h) = Some h" "hNamespace h = ns"
      "targets kind name h" "ann (hAnnotations h) annotationOriginalHPAMin \<noteq> ''''"
  | (suspended) h where "storedHPA s (hkey h) = Some h" "hNamespace h = ns" "targets kind name h"
      "storedHPA s' = (storedHPA s)(hkey h \<mapsto> suspendedHPA t h)" "ann (hAnnotations h) annotationOriginalHPAMin = ''''"
proof -
  from assms obtain r where r: "findHPA C ns kind name s = Inr r"
    by (cases "findHPA C ns kind name s") (auto simp: suspendHPA_def)
  show thesis
  proof (cases r)
    case None
    with assms r none show thesis using findHPA_None [of ns kind name s] by (auto simp: suspendHPA_def)
  next
    case (Some h)
    note h = findHPA_Some [OF r [unfolded Some]]
    show thesis
    proof (cases "ann (hAnnotations h) annotationOriginalHPAMin = ''''")
      case True
      then have "patchHPA C h (suspendedHPA t h) s = (None, s')"
        using assms r Some by (auto simp: suspendHPA_def split: option.splits prod.splits)
      then show thesis using h patchHPA_ok suspended True by simp
    next
      case False
      then show thesis using assms r Some h already by (auto simp: suspendHPA_def)
    qed
  qed
qed

end

context workload_api
begin

lemma restoreHPA_found:
  assumes "restoreHPA C ns kind name s = (None, s')" "storedHPA s (ns, n) = Some h"
    and marked: "ann (hAnnotations h) annotationOriginalHPAMin \<noteq> ''''"
    and attached: "targets kind name h \<or>
      ann (hAnnotations h) annotationOriginalHPATargetKind = kind \<and>
      ann (hAnnotations h) annotationOriginalHPATargetName = name"
    and only: "\<And>n' h'. storedHPA s (ns, n') = Some h' \<Longrightarrow> n' \<noteq> n \<Longrightarrow>
      \<not> targets kind name h' \<and> ann (hAnnotations h') annotationOriginalHPATargetName \<noteq> name"
  shows "storedHPA s' = (storedHPA s)((ns, n) \<mapsto> restoredHPA h)" "stored s' = stored s"
proof -
  have same: "h' = h" if "storedHPA s (ns, n') = Some h'"
      "targets kind name h' \<or> ann (hAnnotations h') annotationOriginalHPATargetName = name" for n' h'
    using only [OF that(1)] that assms(2) by (cases "n' = n") auto
  have key: "hkey h = (ns, n)" using storedHPA_key [OF assms(2)] by (simp add: hkey_def)
  let ?found = "case findHPA C ns kind name s of
      Inl e \<Rightarrow> Inl e | Inr (Some h) \<Rightarrow> Inr (Some h) | Inr None \<Rightarrow> findSuspendedHPA C ns kind name s"
  obtain r where r: "?found = Inr r"
    using assms(1) by (cases ?found) (auto simp: restoreHPA_def)
  have "r = Some h"
  proof (cases "targets kind name h")
    case True
    then show ?thesis using r findHPA_unique [OF _ assms(2) True] same
      by (auto split: sum.splits option.splits)
  next
    case False
    then have "findHPA C ns kind name s \<noteq> Inr (Some h')" for h'
      using findHPA_Some [of ns kind name s h'] same [of "hName h'" h'] by (auto simp: hkey_def)
    then have "findSuspendedHPA C ns kind name s = Inr r"
      using r by (auto split: sum.splits option.splits)
    then show ?thesis
      by (rule findSuspendedHPA_unique [OF _ assms(2)]) (use attached False same in blast)+
  qed
  then have "patchHPA C h (restoredHPA h) s = (None, s')"
    using assms(1) r marked by (simp add: restoreHPA_def split: option.splits prod.splits)
  then show "storedHPA s' = (storedHPA s)((ns, n) \<mapsto> restoredHPA h)" "stored s' = stored s"
    using patchHPA_ok [of h "restoredHPA h" s s'] assms(2) key by simp_all
qed

lemma suspendHPA_unique:
  assumes "suspendHPA C ns kind name t s = (None, s')" "storedHPA s (ns, n) = Some h"
    and "targets kind name h" "ann (hAnnotations h) annotationOriginalHPAMin = ''''"
    and "\<And>n' h'. storedHPA s (ns, n') = Some h' \<Longrightarrow> n' \<noteq> n \<Longrightarrow> \<not> targets kind name h'"
  shows "storedHPA s' = (storedHPA s)((ns, n) \<mapsto> suspendedHPA t h)"
  using assms(1)
proof (cases rule: suspendHPA_ok)
  case none
  then show ?thesis using assms by blast
next
  case (already h')
  then have "hName h' = n" using assms(5) [of "hName h'" h'] by (auto simp: hkey_def)
  with already assms show ?thesis by (auto simp: hkey_def)
next
  case (suspended h')
  then have "hName h' = n" using assms(5) [of "hName h'" h'] by (auto simp: hkey_def)
  with suspended assms show ?thesis by (auto simp: hkey_def)
qed

lemma suspend_restore:
  assumes "suspendHPA C ns kind name t s = (None, s1)" "restoreHPA C ns kind name s1 = (None, s2)"
    and h: "storedHPA s (ns, n) = Some h" "targets kind name h" "unsuspended h"
    and only: "\<And>n' h'. storedHPA s (ns, n') = Some h' \<Longrightarrow> n' \<noteq> n \<Longrightarrow>
      \<not> targets kind name h' \<and> ann (hAnnotations h') annotationOriginalHPATargetName \<noteq> name"
  shows "storedHPA s2 = (storedHPA s)((ns, n) \<mapsto> h\<lparr>hMinReplicas := Some (effectiveMin h)\<rparr>)"
    "stored s2 = stored s"
proof -
  have s1: "storedHPA s1 = (storedHPA s)((ns, n) \<mapsto> suspendedHPA t h)"
    by (rule suspendHPA_unique [OF assms(1) h(1,2)]) (use h(3) only in \<open>auto simp: unsuspended_def\<close>)
  have attached: "targets kind name (suspendedHPA t h) \<or>
      ann (hAnnotations (suspendedHPA t h)) annotationOriginalHPATargetKind = kind \<and>
      ann (hAnnotations (suspendedHPA t h)) annotationOriginalHPATargetName = name"
    using h(2) by (cases "t = 0") (auto simp: suspendedHPA_def targets_def Let_def)
  note restored = restoreHPA_found [OF assms(2), of n "suspendedHPA t h", OF _ _ attached]
  show "storedHPA s2 = (storedHPA s)((ns, n) \<mapsto> h\<lparr>hMinReplicas := Some (effectiveMin h)\<rparr>)"
    using restored(1) only by (simp add: s1 restored_suspended [OF h(3)])
  show "stored s2 = stored s"
    using restored(2) only suspendHPA_stored [OF assms(1)] by (simp add: s1)
qed

lemma suspended_pinned:
  assumes "suspendHPA C ns kind name t s = (None, s1)" "storedHPA s1 (ns, m) = Some g"
    "targets kind name g"
    and only: "\<And>n h. storedHPA s (ns, n) = Some h \<Longrightarrow> targets kind name h \<Longrightarrow> n = m"
    and name: "\<not> HasPrefix name hpaDetachedTargetPrefix"
  shows "if \<exists>h. storedHPA s (ns, m) = Some h \<and> targets kind name h \<and> ann (hAnnotations h) annotationOriginalHPAMin \<noteq> ''''
    then storedHPA s (ns, m) = Some g
    else t \<noteq> 0 \<and> hMinReplicas g = Some t \<and> hMaxReplicas g = t"
  using assms(1)
proof (cases rule: suspendHPA_ok)
  case (suspended h)
  then have m: "hName h = m" using only [of "hName h" h] by (simp add: hkey_def)
  with suspended assms(2) have g: "g = suspendedHPA t h" by (simp add: hkey_def)
  have "t \<noteq> 0"
  proof
    assume "t = 0"
    then have "name = detachedHPATargetName kind (tName (hTarget h))"
      using assms(3) suspended(3) g by (auto simp: suspendedHPA_def targets_def Let_def)
    then show False using name by (simp add: detachedHPATargetName_def HasPrefix_def)
  qed
  then show ?thesis using suspended m by (simp add: g suspendedHPA_def Let_def hkey_def)
next
  case (already h)
  then show ?thesis using only [of "hName h" h] assms(2) by (auto simp: hkey_def)
next
  case none
  then show ?thesis using assms(2,3) by simp
qed

end

section \<open>Properties\<close>

text \<open>
  C8: suspending the autoscaler of a workload and restoring it later gives back the autoscaler
  as it was, with its bounds, its target and its annotations, for every suspension target, zero
  included (the detached autoscaler is found again by its annotations). The one difference is a
  nil \<open>minReplicas\<close>, which comes back as its default 1. No other autoscaler and no workload changes.
\<close>

theorem hpa_suspend_restore_roundtrip:
  assumes "workload_api C stored storedHPA"
    and "suspendHPA C ns kind name t s = (None, s1)"
    and "restoreHPA C ns kind name s1 = (None, s2)"
    and "storedHPA s (ns, n) = Some h" "targets kind name h" "unsuspended h"
    and "\<And>n' h'. storedHPA s (ns, n') = Some h' \<Longrightarrow> n' \<noteq> n \<Longrightarrow>
      \<not> targets kind name h' \<and> ann (hAnnotations h') annotationOriginalHPATargetName \<noteq> name"
  shows "storedHPA s2 = (storedHPA s)((ns, n) \<mapsto> h\<lparr>hMinReplicas := Some (effectiveMin h)\<rparr>)
    \<and> stored s2 = stored s"
  by (intro conjI; rule workload_api.suspend_restore [OF assms(1-6)]; rule assms(7))

theorem hpa_suspend_restore_roundtrip_witness:
  "let C = memClient noFault;
       s1 = snd (suspendHPA C ''shop'' ''Deployment'' ''web'' 2 webCluster);
       s2 = snd (restoreHPA C ''shop'' ''Deployment'' ''web'' s1)
   in memStoredHPA s2 (''shop'', ''web-hpa'') = Some (webHPA\<lparr>hMinReplicas := Some 1\<rparr>)"
proof -
  let ?C = "memClient noFault"
  let ?s1 = "snd (suspendHPA ?C ''shop'' ''Deployment'' ''web'' 2 webCluster)"
  let ?s2 = "snd (restoreHPA ?C ''shop'' ''Deployment'' ''web'' ?s1)"
  have h: "memStoredHPA webCluster (''shop'', n) = (if n = ''web-hpa'' then Some webHPA else None)" for n
    by (simp add: memStoredHPA_def webCluster_def webHPA_def)
  have run: "fst (suspendHPA ?C ''shop'' ''Deployment'' ''web'' 2 webCluster) = None"
    "fst (restoreHPA ?C ''shop'' ''Deployment'' ''web'' ?s1) = None"
    by code_simp+
  have "memStoredHPA ?s2 = (memStoredHPA webCluster)((''shop'', ''web-hpa'') \<mapsto>
      webHPA\<lparr>hMinReplicas := Some (effectiveMin webHPA)\<rparr>) \<and> memStored ?s2 = memStored webCluster"
    by (rule hpa_suspend_restore_roundtrip [OF mem.workload_api_axioms,
          of _ "''shop''" "''Deployment''" "''web''" 2 _ ?s1])
      (use run in \<open>auto simp: prod_eq_iff h webHPA_def targets_def unsuspended_def effectiveMin_def
        split: if_splits\<close>)
  then show ?thesis by (simp add: effectiveMin_def webHPA_def)
qed

text \<open>
  C25: after a successful suspension of an autoscaler that was not suspended before, it cannot scale
  the workload away from the target: when it still targets the workload, both its bounds equal the
  target, which is positive; with a target of zero it does not target the workload any more. An
  autoscaler that was suspended already stays as it is, with the bounds of the earlier suspension,
  whatever the target now is. This needs that one autoscaler of the namespace at most targets the
  workload and that the workload is not itself named like a placeholder.
\<close>

theorem hpa_suspension_pins_replicas:
  assumes "workload_api C stored storedHPA"
    and "suspendHPA C ns kind name t s = (None, s1)"
    and "storedHPA s1 (ns, m) = Some g" "targets kind name g"
    and "\<And>n h. storedHPA s (ns, n) = Some h \<Longrightarrow> targets kind name h \<Longrightarrow> n = m"
    and "\<not> HasPrefix name hpaDetachedTargetPrefix"
  shows "if \<exists>h. storedHPA s (ns, m) = Some h \<and> targets kind name h \<and> ann (hAnnotations h) annotationOriginalHPAMin \<noteq> ''''
    then storedHPA s (ns, m) = Some g
    else t \<noteq> 0 \<and> hMinReplicas g = Some t \<and> hMaxReplicas g = t"
  by (rule workload_api.suspended_pinned [OF assms(1-4) _ assms(6)]; rule assms(5))

theorem hpa_suspension_pins_replicas_witness:
  "let s1 = snd (suspendHPA (memClient noFault) ''shop'' ''Deployment'' ''web'' 2 webCluster);
       s2 = snd (suspendHPA (memClient noFault) ''shop'' ''Deployment'' ''web'' 1 s1)
   in map_option hMaxReplicas (memStoredHPA s1 (''shop'', ''web-hpa'')) = Some 2 \<and>
      map_option hMaxReplicas (memStoredHPA s2 (''shop'', ''web-hpa'')) = Some 2"
proof -
  let ?s1 = "snd (suspendHPA (memClient noFault) ''shop'' ''Deployment'' ''web'' 2 webCluster)"
  let ?s2 = "snd (suspendHPA (memClient noFault) ''shop'' ''Deployment'' ''web'' 1 ?s1)"
  have h: "memStoredHPA webCluster (''shop'', n) = (if n = ''web-hpa'' then Some webHPA else None)" for n
    by (simp add: memStoredHPA_def webCluster_def webHPA_def)
  have run: "fst (suspendHPA (memClient noFault) ''shop'' ''Deployment'' ''web'' 2 webCluster) = None"
    "map_option (\<lambda>g. (tKind (hTarget g), tName (hTarget g), ann (hAnnotations g) annotationOriginalHPAMin = ''''))
      (memStoredHPA ?s1 (''shop'', ''web-hpa'')) = Some (''Deployment'', ''web'', False)"
    "map fst (mHPAs ?s1) = [(''shop'', ''web-hpa'')]"
    "fst (suspendHPA (memClient noFault) ''shop'' ''Deployment'' ''web'' 1 ?s1) = None"
    "map_option (\<lambda>g. (tKind (hTarget g), tName (hTarget g))) (memStoredHPA ?s2 (''shop'', ''web-hpa'')) = Some (''Deployment'', ''web'')"
    by code_simp+
  then obtain g where g: "memStoredHPA ?s1 (''shop'', ''web-hpa'') = Some g" "targets ''Deployment'' ''web'' g"
      "ann (hAnnotations g) annotationOriginalHPAMin \<noteq> ''''"
    by (auto simp: targets_def)
  from run obtain g2 where g2: "memStoredHPA ?s2 (''shop'', ''web-hpa'') = Some g2" "targets ''Deployment'' ''web'' g2"
    by (auto simp: targets_def)
  note fact = hpa_suspension_pins_replicas [OF mem.workload_api_axioms, of _ "''shop''" "''Deployment''" "''web''"]
  have np: "\<not> HasPrefix ''web'' hpaDetachedTargetPrefix" by code_simp
  have e1: "suspendHPA (memClient noFault) ''shop'' ''Deployment'' ''web'' 2 webCluster = (None, ?s1)"
    and e2: "suspendHPA (memClient noFault) ''shop'' ''Deployment'' ''web'' 1 ?s1 = (None, ?s2)"
    using run(1,4) by (simp_all add: prod_eq_iff)
  have before: "\<not> (\<exists>h'. memStoredHPA webCluster (''shop'', ''web-hpa'') = Some h' \<and> targets ''Deployment'' ''web'' h' \<and>
      ann (hAnnotations h') annotationOriginalHPAMin \<noteq> '''')"
    by (simp add: h webHPA_def)
  have "(2 :: 32 word) \<noteq> 0 \<and> hMinReplicas g = Some 2 \<and> hMaxReplicas g = 2"
    by (rule fact [OF e1 g(1,2) _ np, unfolded if_not_P [OF before]]) (simp add: h split: if_splits)
  then have bound: "hMaxReplicas g = 2" by blast
  have only: "n = ''web-hpa''" if "memStoredHPA ?s1 (''shop'', n) = Some h'" "targets ''Deployment'' ''web'' h'" for n h'
  proof -
    have "(''shop'', n) \<in> set (map fst (mHPAs ?s1))"
      using that(1) by (force simp: memStoredHPA_def dest: map_of_SomeD)
    then show ?thesis unfolding run(3) by simp
  qed
  have "memStoredHPA ?s1 (''shop'', ''web-hpa'') = Some g2"
    using fact [OF e2 g2 only np] g by (auto split: if_splits)
  then show ?thesis using bound by (simp add: g(1) g2(1) Let_def)
qed

end
