(* ===== verification/Go_Json.thy ===== *)
theory Go_Json
  imports Kube_Api
begin

text \<open>
  The part of \<open>encoding/json\<close> the DaemonSet hibernation uses: \<open>json.Marshal\<close> and
  \<open>json.Unmarshal\<close> of a \<open>map[string]string\<close>. A Go string is its bytes. The encoder writes the
  entries in key order with HTML escaping; the decoder accepts \<open>null\<close> or an object whose values
  are strings or \<open>null\<close>, and every other text is an error (the code treats all errors alike).
\<close>

section \<open>UTF-8\<close>

definition byte :: "char \<Rightarrow> nat" where
  "byte c = of_char c"

definition inRange :: "nat \<Rightarrow> nat \<Rightarrow> char \<Rightarrow> bool" where
  "inRange lo hi c \<longleftrightarrow> lo \<le> byte c \<and> byte c \<le> hi"

text \<open>The length of the valid UTF-8 sequence of a rune above 127 at the head of a string, 0 if none.\<close>

fun utf8Width :: "string \<Rightarrow> nat" where
  "utf8Width (c0 # c1 # cs) =
     (if inRange 0xC2 0xDF c0 \<and> inRange 0x80 0xBF c1 then 2
      else case cs of
             [] \<Rightarrow> 0
           | c2 # ds \<Rightarrow>
               if inRange 0xE0 0xEF c0
                  \<and> inRange (if byte c0 = 0xE0 then 0xA0 else 0x80) (if byte c0 = 0xED then 0x9F else 0xBF) c1
                  \<and> inRange 0x80 0xBF c2 then 3
               else case ds of
                      [] \<Rightarrow> 0
                    | c3 # _ \<Rightarrow>
                        if inRange 0xF0 0xF4 c0
                           \<and> inRange (if byte c0 = 0xF0 then 0x90 else 0x80) (if byte c0 = 0xF4 then 0x8F else 0xBF) c1
                           \<and> inRange 0x80 0xBF c2 \<and> inRange 0x80 0xBF c3 then 4
                        else 0)"
| "utf8Width _ = 0"

definition encodeRune :: "nat \<Rightarrow> string" where
  "encodeRune r =
     map char_of
       (if r < 0x80 then [r]
        else if r < 0x800 then [0xC0 + r div 64, 0x80 + r mod 64]
        else if r < 0x10000 then [0xE0 + r div 4096, 0x80 + r div 64 mod 64, 0x80 + r mod 64]
        else [0xF0 + r div 262144, 0x80 + r div 4096 mod 64, 0x80 + r div 64 mod 64, 0x80 + r mod 64])"

definition runeError :: nat where "runeError = 0xFFFD"

section \<open>Encoding\<close>

definition backslash :: char where "backslash = CHR 0x5C"
definition dquote :: char where "dquote = CHR 0x22"

definition escapeU :: "nat \<Rightarrow> string" where
  "escapeU r = [backslash, CHR ''u'', hexDigit (r div 4096), hexDigit (r div 256 mod 16),
     hexDigit (r div 16 mod 16), hexDigit (r mod 16)]"

definition escapeAscii :: "char \<Rightarrow> string" where
  "escapeAscii c =
     (if c = dquote \<or> c = backslash then [backslash, c]
      else if byte c = 8 then [backslash, CHR ''b'']
      else if byte c = 12 then [backslash, CHR ''f'']
      else if byte c = 10 then [backslash, CHR ''n'']
      else if byte c = 13 then [backslash, CHR ''r'']
      else if byte c = 9 then [backslash, CHR ''t'']
      else if byte c < 32 \<or> c \<in> set ''<>&'' then escapeU (byte c)
      else [c])"

fun escapeString :: "string \<Rightarrow> string" where
  "escapeString [] = []"
| "escapeString (c # cs) =
     (if byte c < 128 then escapeAscii c @ escapeString cs
      else let n = utf8Width (c # cs)
           in if n = 0 then escapeU runeError @ escapeString cs
              else if take 3 (c # cs) = encodeRune 0x2028 then escapeU 0x2028 @ escapeString (drop 2 cs)
              else if take 3 (c # cs) = encodeRune 0x2029 then escapeU 0x2029 @ escapeString (drop 2 cs)
              else take n (c # cs) @ escapeString (drop (n - 1) cs))"

definition quoteString :: "string \<Rightarrow> string" where
  "quoteString s = dquote # escapeString s @ [dquote]"

fun marshalEntries :: "(string \<times> string) list \<Rightarrow> string" where
  "marshalEntries [] = ''}''"
| "marshalEntries [(k, v)] = quoteString k @ '':'' @ quoteString v @ ''}''"
| "marshalEntries ((k, v) # e # es) =
     quoteString k @ '':'' @ quoteString v @ '','' @ marshalEntries (e # es)"

definition jsonMarshal :: "nodeSelector \<Rightarrow> string" where
  "jsonMarshal m = (case m of None \<Rightarrow> ''null'' | Some es \<Rightarrow> ''{'' @ marshalEntries es)"

section \<open>Decoding\<close>

definition isSpace :: "char \<Rightarrow> bool" where
  "isSpace c \<longleftrightarrow> byte c \<in> {32, 9, 10, 13}"

definition skipSpace :: "string \<Rightarrow> string" where
  "skipSpace s = dropWhile isSpace s"

definition hexValue :: "char \<Rightarrow> nat option" where
  "hexValue c =
     (if inRange 48 57 c then Some (byte c - 48)
      else if inRange 97 102 c then Some (byte c - 87)
      else if inRange 65 70 c then Some (byte c - 55)
      else None)"

text \<open>\<open>getu4\<close>: the four hexadecimal digits after \<open>\u\<close>.\<close>

fun getu4 :: "string \<Rightarrow> (nat \<times> string) option" where
  "getu4 (a # b # c # d # rest) =
     (case (hexValue a, hexValue b, hexValue c, hexValue d) of
        (Some w, Some x, Some y, Some z) \<Rightarrow> Some (4096 * w + 256 * x + 16 * y + z, rest)
      | _ \<Rightarrow> None)"
| "getu4 _ = None"

text \<open>A surrogate half must be followed by its partner, else it reads as the replacement rune.\<close>

definition surrogate :: "nat \<Rightarrow> string \<Rightarrow> string \<times> string" where
  "surrogate r rest =
     (case rest of
        b # u # tail \<Rightarrow>
          (if b = backslash \<and> u = CHR ''u'' then
             case getu4 tail of
               Some (r2, tail') \<Rightarrow>
                 if r < 0xDC00 \<and> 0xDC00 \<le> r2 \<and> r2 < 0xE000
                 then (encodeRune (0x10000 + (r - 0xD800) * 1024 + (r2 - 0xDC00)), tail')
                 else (encodeRune runeError, rest)
             | None \<Rightarrow> (encodeRune runeError, rest)
           else (encodeRune runeError, rest))
      | _ \<Rightarrow> (encodeRune runeError, rest))"

definition escapeCode :: "char \<Rightarrow> char option" where
  "escapeCode e =
     (if e = dquote \<or> e = backslash \<or> e = CHR ''/'' then Some e
      else if e = CHR ''b'' then Some (char_of (8 :: nat))
      else if e = CHR ''f'' then Some (char_of (12 :: nat))
      else if e = CHR ''n'' then Some (char_of (10 :: nat))
      else if e = CHR ''r'' then Some (char_of (13 :: nat))
      else if e = CHR ''t'' then Some (char_of (9 :: nat))
      else None)"

text \<open>One element of a string literal: the bytes it stands for and the rest of the text.\<close>

fun parseElement :: "string \<Rightarrow> (string \<times> string) option" where
  "parseElement [] = None"
| "parseElement (c # cs) =
     (if c = backslash then
        case cs of
          [] \<Rightarrow> None
        | e # rest \<Rightarrow>
            if e = CHR ''u'' then
              case getu4 rest of
                None \<Rightarrow> None
              | Some (r, rest') \<Rightarrow>
                  if 0xD800 \<le> r \<and> r < 0xE000 then Some (surrogate r rest')
                  else Some (encodeRune r, rest')
            else map_option (\<lambda>b. ([b], rest)) (escapeCode e)
      else if byte c < 32 then None
      else if byte c < 128 then Some ([c], cs)
      else let n = utf8Width (c # cs)
           in if n = 0 then Some (encodeRune runeError, cs)
              else Some (take n (c # cs), drop (n - 1) cs))"

lemma getu4_length: "getu4 s = Some (r, rest) \<Longrightarrow> length rest < length s"
  by (cases s rule: getu4.cases) (auto split: option.splits)

lemma surrogate_length: "surrogate r rest = (b, rest') \<Longrightarrow> length rest' \<le> length rest"
  by (auto simp: surrogate_def split: list.splits if_splits option.splits dest!: getu4_length)

lemma parseElement_length: "parseElement s = Some (b, rest) \<Longrightarrow> length rest < length s"
  by (cases s) (auto simp: Let_def split: if_splits list.splits option.splits
      dest!: getu4_length surrogate_length)

text \<open>The text after the opening quote, up to the closing one.\<close>

function (sequential) parseString :: "string \<Rightarrow> (string \<times> string) option" where
  "parseString s =
     (case s of
        [] \<Rightarrow> None
      | c # cs \<Rightarrow>
          if c = dquote then Some ([], cs)
          else case parseElement s of
                 None \<Rightarrow> None
               | Some (b, rest) \<Rightarrow>
                   (case parseString rest of
                      None \<Rightarrow> None
                    | Some (bs, rest') \<Rightarrow> Some (b @ bs, rest')))"
  by pat_completeness auto
termination by (relation "measure length") (use parseElement_length in fastforce)+

declare parseString.simps [simp del]

definition parseValue :: "string \<Rightarrow> (string \<times> string) option" where
  "parseValue s =
     (case s of
        [] \<Rightarrow> None
      | c # cs \<Rightarrow>
          if c = dquote then parseString cs
          else if HasPrefix s ''null'' then Some ('''', drop 4 s)
          else None)"

text \<open>One entry: key, colon, value, with white space allowed between the tokens.\<close>

definition parseEntry :: "string \<Rightarrow> ((string \<times> string) \<times> string) option" where
  "parseEntry s =
     (case skipSpace s of
        [] \<Rightarrow> None
      | c # cs \<Rightarrow>
          if c \<noteq> dquote then None
          else case parseString cs of
                 None \<Rightarrow> None
               | Some (k, rest) \<Rightarrow>
                   (case skipSpace rest of
                      [] \<Rightarrow> None
                    | c2 # cs2 \<Rightarrow>
                        if c2 \<noteq> CHR '':'' then None
                        else map_option (\<lambda>(v, rest'). ((k, v), rest')) (parseValue (skipSpace cs2))))"

text \<open>A later entry of a repeated key wins; the map is kept as its entries in key order.\<close>

fun insertEntry :: "string \<Rightarrow> string \<Rightarrow> (string \<times> string) list \<Rightarrow> (string \<times> string) list" where
  "insertEntry k v [] = [(k, v)]"
| "insertEntry k v ((k', v') # es) =
     (if k = k' then (k, v) # es
      else if k < k' then (k, v) # (k', v') # es
      else (k', v') # insertEntry k v es)"

lemma skipSpace_length: "length (skipSpace s) \<le> length s"
  by (simp add: skipSpace_def length_dropWhile_le)

lemma parseString_length: "parseString s = Some (v, rest) \<Longrightarrow> length rest < length s"
proof (induction s arbitrary: v rest rule: parseString.induct)
  case (1 s)
  show ?case
  proof (cases s)
    case (Cons c cs)
    with 1 parseElement_length [of s] show ?thesis
      by (subst (asm) (2) parseString.simps) (fastforce split: if_splits option.splits)
  qed (use 1 in \<open>simp add: parseString.simps\<close>)
qed

lemma parseValue_length: "parseValue s = Some (v, rest) \<Longrightarrow> length rest < length s"
  by (auto simp: parseValue_def split: list.splits if_splits dest: parseString_length)

lemma parseEntry_length: "parseEntry s = Some (e, rest) \<Longrightarrow> length rest < length s"
proof -
  assume a: "parseEntry s = Some (e, rest)"
  then obtain c cs k r c2 cs2 v where
    "skipSpace s = c # cs" "parseString cs = Some (k, r)" "skipSpace r = c2 # cs2"
    "parseValue (skipSpace cs2) = Some (v, rest)"
    by (auto simp: parseEntry_def split: list.splits if_splits option.splits)
  then show ?thesis
    using skipSpace_length [of s] skipSpace_length [of r] skipSpace_length [of cs2]
      parseString_length [of cs k r] parseValue_length [of "skipSpace cs2" v rest] by simp
qed

lemma parseEntry_separator:
  "parseEntry s = Some (e, rest) \<Longrightarrow> skipSpace rest = c # cs \<Longrightarrow> length cs < length s"
  using parseEntry_length [of s e rest] skipSpace_length [of rest] by simp

text \<open>The entries after the opening brace, and the text after the closing one.\<close>

function (sequential) parseEntries ::
  "(string \<times> string) list \<Rightarrow> string \<Rightarrow> ((string \<times> string) list \<times> string) option" where
  "parseEntries acc s =
     (case parseEntry s of
        None \<Rightarrow> None
      | Some ((k, v), rest) \<Rightarrow>
          (case skipSpace rest of
             [] \<Rightarrow> None
           | c # cs \<Rightarrow>
               if c = CHR '','' then parseEntries (insertEntry k v acc) cs
               else if c = CHR ''}'' then Some (insertEntry k v acc, cs)
               else None))"
  by pat_completeness auto
termination by (relation "measure (length \<circ> snd)") (auto dest: parseEntry_separator)

declare parseEntries.simps [simp del]

text \<open>\<^const>\<open>None\<close> is an error, \<open>Some None\<close> the nil map.\<close>

definition jsonUnmarshal :: "string \<Rightarrow> nodeSelector option" where
  "jsonUnmarshal s =
     (let t = skipSpace s
      in if HasPrefix t ''null'' then (if skipSpace (drop 4 t) = [] then Some None else None)
         else case t of
                [] \<Rightarrow> None
              | c # cs \<Rightarrow>
                  if c \<noteq> CHR ''{'' then None
                  else (case skipSpace cs of
                          [] \<Rightarrow> None
                        | d # ds \<Rightarrow>
                            if d = CHR ''}'' then (if skipSpace ds = [] then Some (Some []) else None)
                            else (case parseEntries [] cs of
                                    None \<Rightarrow> None
                                  | Some (es, rest) \<Rightarrow>
                                      if skipSpace rest = [] then Some (Some es) else None)))"

text \<open>
  The maps of the round trip: entries strictly in key order, all of them ASCII (the API server
  admits only ASCII label keys and values in a \<open>nodeSelector\<close>).
\<close>

definition asciiString :: "string \<Rightarrow> bool" where
  "asciiString s \<longleftrightarrow> list_all (\<lambda>c. byte c < 128) s"

definition wellFormedSelector :: "nodeSelector \<Rightarrow> bool" where
  "wellFormedSelector m =
     (case m of
        None \<Rightarrow> True
      | Some es \<Rightarrow> sorted_wrt (\<lambda>(k, v) (k', v'). k < k') es \<and>
                   list_all (\<lambda>(k, v). asciiString k \<and> asciiString v) es)"

section \<open>The round trip\<close>

lemma hexValue_hexDigit: "d < 16 \<Longrightarrow> hexValue (hexDigit d) = Some d"
  by (simp add: hexValue_def hexDigit_def inRange_def byte_def)

lemma hex_digits_sum:
  "4096 * (r div 4096) + 256 * (r div 256 mod 16) + 16 * (r div 16 mod 16) + r mod 16 = (r :: nat)"
proof -
  have "r div 256 = r div 16 div 16" "r div 4096 = r div 16 div 16 div 16"
    by (simp_all add: div_mult2_eq [symmetric])
  moreover have "4096 * c + 256 * z + 16 * y + x = r"
    if "r = 16 * a + x" "a = 16 * b + y" "b = 16 * c + z" for a b c x y z :: nat
    using that by simp
  ultimately show ?thesis by (metis mult_div_mod_eq)
qed

lemma parse_escapeU: "r < 0xD800 \<Longrightarrow> parseElement (escapeU r @ rest) = Some (encodeRune r, rest)"
  by (simp add: escapeU_def hexValue_hexDigit hex_digits_sum)

lemma encodeRune_byte: "byte c < 128 \<Longrightarrow> encodeRune (byte c) = [c]"
  by (simp add: encodeRune_def byte_def)

lemma byte_char: "byte c = n \<Longrightarrow> c = char_of n"
  by (auto simp: byte_def)

lemma parse_escapeAscii:
  assumes "byte c < 128"
  shows "parseElement (escapeAscii c @ rest) = Some ([c], rest)"
proof (cases "byte c < 32 \<and> byte c \<notin> {8, 9, 10, 12, 13} \<or> c \<in> set ''<>&''")
  case True
  then have "escapeAscii c = escapeU (byte c)"
    by (auto simp: escapeAscii_def dquote_def backslash_def byte_def)
  then show ?thesis using parse_escapeU [of "byte c"] assms by (simp add: encodeRune_byte)
next
  case False
  then show ?thesis using assms
    by (auto simp: escapeAscii_def escapeCode_def dquote_def backslash_def dest: byte_char)
qed

lemma escapeAscii_hd: "\<exists>d ds. escapeAscii c = d # ds \<and> d \<noteq> dquote"
  by (simp add: escapeAscii_def escapeU_def backslash_def dquote_def)

lemma parseString_escape:
  "asciiString s \<Longrightarrow> parseString (escapeString s @ dquote # rest) = Some (s, rest)"
proof (induction s)
  case Nil
  then show ?case by (simp add: parseString.simps)
next
  case (Cons c cs)
  then have c: "byte c < 128" "parseString (escapeString cs @ dquote # rest) = Some (cs, rest)"
    by (simp_all add: asciiString_def)
  obtain d ds where d: "escapeAscii c = d # ds" "d \<noteq> dquote" using escapeAscii_hd by blast
  then show ?case
    using c parse_escapeAscii [OF c(1), of "escapeString cs @ dquote # rest"]
    by (subst parseString.simps) (simp del: parseElement.simps)
qed

lemma skipSpace_solid [simp]: "\<not> isSpace c \<Longrightarrow> skipSpace (c # cs) = c # cs"
  by (simp add: skipSpace_def)

lemma skipSpace_Nil [simp]: "skipSpace [] = []"
  by (simp add: skipSpace_def)

lemma solid [simp]: "\<not> isSpace dquote" "\<not> isSpace CHR '':''" "\<not> isSpace CHR '',''" "\<not> isSpace CHR ''}''"
    "\<not> isSpace CHR ''{''" "\<not> isSpace CHR ''n''"
    "dquote \<noteq> CHR ''}''"
  by (simp_all add: isSpace_def dquote_def byte_def)

lemma parseEntry_marshal:
  "asciiString k \<Longrightarrow> asciiString v \<Longrightarrow>
     parseEntry (quoteString k @ CHR '':'' # quoteString v @ rest) = Some ((k, v), rest)"
  by (simp add: parseEntry_def quoteString_def parseString_escape parseValue_def)

lemma insertEntry_last:
  "\<forall>(k', v') \<in> set es. k' < k \<Longrightarrow> insertEntry k v es = es @ [(k, v)]"
  by (induction es) (auto simp: order_less_imp_not_less)

lemma parseEntries_marshal:
  "es \<noteq> [] \<Longrightarrow> sorted_wrt (\<lambda>(k, v) (k', v'). k < k') (acc @ es) \<Longrightarrow>
     list_all (\<lambda>(k, v). asciiString k \<and> asciiString v) es \<Longrightarrow>
     parseEntries acc (marshalEntries es) = Some (acc @ es, [])"
proof (induction es arbitrary: acc rule: marshalEntries.induct)
  case (2 k v)
  then have "insertEntry k v acc = acc @ [(k, v)]"
    by (intro insertEntry_last) (auto simp: sorted_wrt_append)
  with 2 show ?case by (subst parseEntries.simps) (simp add: parseEntry_marshal)
next
  case (3 k v e es)
  then have "insertEntry k v acc = acc @ [(k, v)]"
    by (intro insertEntry_last) (auto simp: sorted_wrt_append)
  moreover have "parseEntries (acc @ [(k, v)]) (marshalEntries (e # es)) = Some ((acc @ [(k, v)]) @ e # es, [])"
    using 3 by (intro 3) simp_all
  ultimately show ?case using 3 by (subst parseEntries.simps) (simp add: parseEntry_marshal)
qed simp

lemma marshalEntries_hd: "es \<noteq> [] \<Longrightarrow> \<exists>cs. marshalEntries es = dquote # cs"
  by (cases es rule: marshalEntries.cases) (auto simp: quoteString_def)

lemma jsonUnmarshal_Marshal:
  assumes "wellFormedSelector m"
  shows "jsonUnmarshal (jsonMarshal m) = Some m"
proof (cases m)
  case None
  then show ?thesis by (simp add: jsonMarshal_def jsonUnmarshal_def HasPrefix_def)
next
  case (Some es)
  show ?thesis
  proof (cases "es = []")
    case True
    with Some show ?thesis by (simp add: jsonMarshal_def jsonUnmarshal_def HasPrefix_def)
  next
    case False
    obtain cs where cs: "marshalEntries es = dquote # cs" using marshalEntries_hd [OF False] by blast
    have "parseEntries [] (dquote # cs) = Some (es, [])"
      using parseEntries_marshal [OF False, of "[]"] assms Some cs by (simp add: wellFormedSelector_def)
    then show ?thesis using Some cs
      by (simp add: jsonMarshal_def jsonUnmarshal_def HasPrefix_def)
  qed
qed

end
