(* ===== verification/Status.thy ===== *)
theory Status
  imports Kube_Api
begin

text \<open>
  Status conditions (\<open>metav1.Condition\<close>), \<open>setCondition\<close> of
  \<open>internal/controller/energypricesource_controller.go\<close>, and the result of a reconciliation
  (\<open>ctrl.Result\<close> and error). All four reconcilers use them.
\<close>

record condition =
  cType :: string
  cStatus :: string
  cReason :: string
  cMessage :: string
  cLastTransitionTime :: time

definition conditionTypeReady :: string where "conditionTypeReady = ''Ready''"
definition ConditionTrue :: string where "ConditionTrue = ''True''"
definition conditionReasonError :: string where "conditionReasonError = ''FetchFailed''"
definition conditionReasonReady :: string where "conditionReasonReady = ''PricesFetched''"
definition ConditionFalse :: string where "ConditionFalse = ''False''"

text \<open>The loop replaces the first condition of the same type and returns; else it appends.\<close>

fun setCondition :: "condition list \<Rightarrow> condition \<Rightarrow> condition list" where
  "setCondition [] c = [c]"
| "setCondition (e # es) c = (if cType e = cType c then c # es else e # setCondition es c)"

definition findCondition :: "condition list \<Rightarrow> string \<Rightarrow> condition option" where
  "findCondition cs t = find (\<lambda>c. cType c = t) cs"

text \<open>\<open>ctrl.Result\<close>: a requeue after a duration, where zero means none, or at once.\<close>

record result =
  RequeueAfter :: duration
  Requeue :: bool

definition noRequeue :: result where "noRequeue = \<lparr>RequeueAfter = 0, Requeue = False\<rparr>"

definition requeueAfter :: "duration \<Rightarrow> result" where
  "requeueAfter d = \<lparr>RequeueAfter = d, Requeue = False\<rparr>"

text \<open>The three readings of the clock in a reconciliation: at the start, for the condition, and for the requeue.\<close>

record clock =
  clkNow :: time
  clkStatus :: time
  clkUntil :: time

text \<open>A clock that stands still.\<close>

definition atTime :: "time \<Rightarrow> clock" where
  "atTime t = \<lparr>clkNow = t, clkStatus = t, clkUntil = t\<rparr>"

section \<open>Lemmas\<close>

lemma findCondition_setCondition:
  "findCondition (setCondition cs c) t = (if t = cType c then Some c else findCondition cs t)"
  by (induction cs) (auto simp: findCondition_def)

lemma setCondition_types:
  "map cType (setCondition cs c) =
     (if cType c \<in> set (map cType cs) then map cType cs else map cType cs @ [cType c])"
  by (induction cs) auto

text \<open>The list stays a map keyed by type, as \<open>+listMapKey=type\<close> asks.\<close>

lemma setCondition_distinct: "distinct (map cType cs) \<Longrightarrow> distinct (map cType (setCondition cs c))"
  by (simp add: setCondition_types)

end
