(* ===== verification/Hibernation.thy ===== *)
theory Hibernation
  imports Hpa Go_Json Windows Status
begin

text \<open>
  The HibernatePolicy controller, \<open>internal/controller/hibernatepolicy_controller.go\<close>: the
  ownership annotations, the per-kind hibernate and wake loops, and \<open>Reconcile\<close>.

  Go has one copy of the loop for each of Deployments, StatefulSets and ReplicaSets; they differ in
  the type, and the ReplicaSet loop skips the ReplicaSets of Deployments first. Here the loop body
  is one definition over the kind, and the named operations are its instances. A loop is
  \<open>forEach\<close> over its body: a body returns the names it appends and an error, which ends the loop.
  Logging and tracing are left out. \<open>time.Now\<close> is a parameter wherever it is read.
\<close>

section \<open>Ownership and annotations\<close>

definition annotationOriginalReplicas :: string where
  "annotationOriginalReplicas = ''greencosts.hstr.nl/original-replicas''"

definition annotationOriginalNodeSelector :: string where
  "annotationOriginalNodeSelector = ''greencosts.hstr.nl/original-nodeselector''"

definition annotationHibernated :: string where
  "annotationHibernated = ''greencosts.hstr.nl/hibernated''"

definition annotationHibernatedByKind :: string where
  "annotationHibernatedByKind = ''greencosts.hstr.nl/hibernated-by-kind''"

definition annotationHibernatedByName :: string where
  "annotationHibernatedByName = ''greencosts.hstr.nl/hibernated-by-name''"

definition annotationHibernatedByNamespace :: string where
  "annotationHibernatedByNamespace = ''greencosts.hstr.nl/hibernated-by-namespace''"

definition annotationTrueValue :: string where "annotationTrueValue = ''true''"

definition hibernateNodeSelectorKey :: string where
  "hibernateNodeSelectorKey = ''greencosts.hstr.nl/hibernate''"

definition windowCheckInterval :: duration where
  "windowCheckInterval = 5 * minute"

record hibernationOwner =
  oKind :: string
  oNamespace :: string
  oName :: string

definition markHibernated :: "annotations \<Rightarrow> hibernationOwner \<Rightarrow> annotations" where
  "markHibernated a owner = a
     (annotationHibernated \<mapsto> annotationTrueValue,
      annotationHibernatedByKind \<mapsto> oKind owner,
      annotationHibernatedByName \<mapsto> oName owner,
      annotationHibernatedByNamespace \<mapsto> oNamespace owner)"

definition clearHibernated :: "annotations \<Rightarrow> annotations" where
  "clearHibernated a = a
     (annotationHibernated := None,
      annotationHibernatedByKind := None,
      annotationHibernatedByName := None,
      annotationHibernatedByNamespace := None)"

definition ownedBy :: "annotations \<Rightarrow> hibernationOwner \<Rightarrow> bool" where
  "ownedBy a owner =
     (let kind = ann a annotationHibernatedByKind;
          name = ann a annotationHibernatedByName;
          namespace = ann a annotationHibernatedByNamespace
      in if kind = '''' \<and> name = '''' \<and> namespace = '''' then True
         else kind = oKind owner \<and> name = oName owner \<and> namespace = oNamespace owner)"

definition isOwnedByDeployment :: "workload \<Rightarrow> bool" where
  "isOwnedByDeployment rs \<longleftrightarrow> list_ex (\<lambda>kind. kind = ''Deployment'') (wOwnerKinds rs)"

text \<open>\<open>Annotations[annotationHibernated] == annotationTrueValue\<close>\<close>

definition isHibernated :: "workload \<Rightarrow> bool" where
  "isHibernated w \<longleftrightarrow> ann (wAnnotations w) annotationHibernated = annotationTrueValue"

definition currentReplicas :: "workload \<Rightarrow> 32 word" where
  "currentReplicas w = (case wReplicas w of None \<Rightarrow> 1 | Some r \<Rightarrow> r)"

definition workloadName :: "wkind \<Rightarrow> workload \<Rightarrow> string" where
  "workloadName k w = workloadKind k @ ''/'' @ wName w"

section \<open>Changes to an object\<close>

text \<open>What the loops do to an object between \<open>DeepCopy\<close> and \<open>Patch\<close>.\<close>

definition scaledDown :: "hibernationOwner \<Rightarrow> 32 word \<Rightarrow> workload \<Rightarrow> workload" where
  "scaledDown owner target w =
     w\<lparr>wAnnotations := markHibernated
         ((wAnnotations w)(annotationOriginalReplicas \<mapsto> Itoa (sint (currentReplicas w)))) owner,
       wReplicas := Some target\<rparr>"

definition scaledUp :: "workload \<Rightarrow> workload" where
  "scaledUp w =
     w\<lparr>wReplicas := Some (word_of_int
         (parseOriginalReplicas (ann (wAnnotations w) annotationOriginalReplicas))),
       wAnnotations := (clearHibernated (wAnnotations w))(annotationOriginalReplicas := None)\<rparr>"

definition sleptDaemonSet :: "hibernationOwner \<Rightarrow> workload \<Rightarrow> workload" where
  "sleptDaemonSet owner ds =
     ds\<lparr>wAnnotations := markHibernated
          ((wAnnotations ds)(annotationOriginalNodeSelector \<mapsto> jsonMarshal (wNodeSelector ds))) owner,
        wNodeSelector := Some [(hibernateNodeSelectorKey, annotationTrueValue)]\<rparr>"

definition wokenDaemonSet :: "workload \<Rightarrow> workload" where
  "wokenDaemonSet ds =
     (let origJSON = ann (wAnnotations ds) annotationOriginalNodeSelector;
          origNS = (if origJSON \<noteq> '''' then
                      (case jsonUnmarshal origJSON of None \<Rightarrow> None | Some m \<Rightarrow> m)
                    else None)
      in ds\<lparr>wNodeSelector := origNS,
            wAnnotations := (clearHibernated (wAnnotations ds))(annotationOriginalNodeSelector := None)\<rparr>)"

section \<open>The loops\<close>

type_synonym 's step = "workload \<Rightarrow> 's \<Rightarrow> (string list \<times> gerror option) \<times> 's"

fun forEach :: "'s step \<Rightarrow> workload list \<Rightarrow> string list \<Rightarrow> 's \<Rightarrow> (string list \<times> gerror option) \<times> 's" where
  "forEach body [] hibernated s = ((hibernated, None), s)"
| "forEach body (w # ws) hibernated s =
     (case body w s of
        ((names, Some e), s') \<Rightarrow> ((hibernated, Some e), s')
      | ((names, None), s') \<Rightarrow> forEach body ws (hibernated @ names) s')"

definition hibernateBody ::
  "('s, 'm) client_scheme \<Rightarrow> wkind \<Rightarrow> string \<Rightarrow> hibernateAction \<Rightarrow> hibernationOwner \<Rightarrow> 's step" where
  "hibernateBody C k namespace action owner d s =
     (if k = ReplicaSet \<and> isOwnedByDeployment d then (([], None), s)
      else if isHibernated d then
        (if \<not> ownedBy (wAnnotations d) owner then (([], None), s)
         else case suspendHPAForAction C namespace (workloadKind k) (wName d) action s of
                (Some e, s') \<Rightarrow> (([], Some e), s')
              | (None, s') \<Rightarrow> (([workloadName k d], None), s'))
      else
        (let (target, shouldScale) = computeTargetReplicas action (currentReplicas d) in
         if \<not> shouldScale then (([], None), s)
         else case patchWorkload C k d (scaledDown owner target d) s of
                (Some e, s') \<Rightarrow>
                  (([], Some (Errorf (''scaling '' @ workloadKind k @ '' %s/%s'')
                                [namespace, wName d] (Api e))), s')
              | (None, s') \<Rightarrow>
                  (case suspendHPA C namespace (workloadKind k) (wName d) target s' of
                     (Some e, s'') \<Rightarrow> (([], Some e), s'')
                   | (None, s'') \<Rightarrow> (([workloadName k d], None), s''))))"

definition wakeBody ::
  "('s, 'm) client_scheme \<Rightarrow> wkind \<Rightarrow> string \<Rightarrow> hibernationOwner \<Rightarrow> 's step" where
  "wakeBody C k namespace owner d s =
     (if k = ReplicaSet \<and> isOwnedByDeployment d then (([], None), s)
      else if \<not> isHibernated d then (([], None), s)
      else if \<not> ownedBy (wAnnotations d) owner then (([], None), s)
      else case restoreHPA C namespace (workloadKind k) (wName d) s of
             (Some e, s') \<Rightarrow> (([], Some e), s')
           | (None, s') \<Rightarrow>
               (case patchWorkload C k d (scaledUp d) s' of
                  (Some e, s'') \<Rightarrow>
                    (([], Some (Errorf (''restoring '' @ workloadKind k @ '' %s/%s'')
                                  [namespace, wName d] (Api e))), s'')
                | (None, s'') \<Rightarrow> (([], None), s'')))"

definition sleepBody ::
  "('s, 'm) client_scheme \<Rightarrow> string \<Rightarrow> hibernationOwner \<Rightarrow> 's step" where
  "sleepBody C namespace owner ds s =
     (if isHibernated ds then
        (if \<not> ownedBy (wAnnotations ds) owner then (([], None), s)
         else (([workloadName DaemonSet ds], None), s))
      else case patchWorkload C DaemonSet ds (sleptDaemonSet owner ds) s of
             (Some e, s') \<Rightarrow> (([], Some (Errorf ''hibernating DaemonSet %s/%s'' [namespace, wName ds] (Api e))), s')
           | (None, s') \<Rightarrow> (([workloadName DaemonSet ds], None), s'))"

definition wakeDaemonSetBody ::
  "('s, 'm) client_scheme \<Rightarrow> string \<Rightarrow> hibernationOwner \<Rightarrow> 's step" where
  "wakeDaemonSetBody C namespace owner ds s =
     (if \<not> isHibernated ds then (([], None), s)
      else if \<not> ownedBy (wAnnotations ds) owner then (([], None), s)
      else case patchWorkload C DaemonSet ds (wokenDaemonSet ds) s of
             (Some e, s') \<Rightarrow> (([], Some (Errorf ''restoring DaemonSet %s/%s'' [namespace, wName ds] (Api e))), s')
           | (None, s') \<Rightarrow> (([], None), s'))"

text \<open>List the namespace, then run the body over the items.\<close>

definition overNamespace ::
  "('s, 'm) client_scheme \<Rightarrow> wkind \<Rightarrow> string \<Rightarrow> 's step \<Rightarrow> 's \<Rightarrow> (string list \<times> gerror option) \<times> 's" where
  "overNamespace C k namespace body s =
     (case listWorkloads C k (Some namespace) s of
        Inl e \<Rightarrow> (([], Some (Errorf (''listing '' @ workloadKind k @ ''s in %q'') [namespace] (Api e))), s)
      | Inr items \<Rightarrow> forEach body items [] s)"

definition hibernateDeployments ::
  "('s, 'm) client_scheme \<Rightarrow> string \<Rightarrow> hibernateAction \<Rightarrow> hibernationOwner \<Rightarrow> 's \<Rightarrow>
     (string list \<times> gerror option) \<times> 's" where
  "hibernateDeployments C namespace action owner s =
     overNamespace C Deployment namespace (hibernateBody C Deployment namespace action owner) s"

definition hibernateStatefulSets ::
  "('s, 'm) client_scheme \<Rightarrow> string \<Rightarrow> hibernateAction \<Rightarrow> hibernationOwner \<Rightarrow> 's \<Rightarrow>
     (string list \<times> gerror option) \<times> 's" where
  "hibernateStatefulSets C namespace action owner s =
     overNamespace C StatefulSet namespace (hibernateBody C StatefulSet namespace action owner) s"

definition hibernateReplicaSets ::
  "('s, 'm) client_scheme \<Rightarrow> string \<Rightarrow> hibernateAction \<Rightarrow> hibernationOwner \<Rightarrow> 's \<Rightarrow>
     (string list \<times> gerror option) \<times> 's" where
  "hibernateReplicaSets C namespace action owner s =
     overNamespace C ReplicaSet namespace (hibernateBody C ReplicaSet namespace action owner) s"

definition hibernateDaemonSets ::
  "('s, 'm) client_scheme \<Rightarrow> string \<Rightarrow> hibernationOwner \<Rightarrow> 's \<Rightarrow>
     (string list \<times> gerror option) \<times> 's" where
  "hibernateDaemonSets C namespace owner s =
     overNamespace C DaemonSet namespace (sleepBody C namespace owner) s"

definition wakeDeployments ::
  "('s, 'm) client_scheme \<Rightarrow> string \<Rightarrow> hibernationOwner \<Rightarrow> 's \<Rightarrow> gerror option \<times> 's" where
  "wakeDeployments C namespace owner s =
     apfst snd (overNamespace C Deployment namespace (wakeBody C Deployment namespace owner) s)"

definition wakeStatefulSets ::
  "('s, 'm) client_scheme \<Rightarrow> string \<Rightarrow> hibernationOwner \<Rightarrow> 's \<Rightarrow> gerror option \<times> 's" where
  "wakeStatefulSets C namespace owner s =
     apfst snd (overNamespace C StatefulSet namespace (wakeBody C StatefulSet namespace owner) s)"

definition wakeReplicaSets ::
  "('s, 'm) client_scheme \<Rightarrow> string \<Rightarrow> hibernationOwner \<Rightarrow> 's \<Rightarrow> gerror option \<times> 's" where
  "wakeReplicaSets C namespace owner s =
     apfst snd (overNamespace C ReplicaSet namespace (wakeBody C ReplicaSet namespace owner) s)"

definition wakeDaemonSets ::
  "('s, 'm) client_scheme \<Rightarrow> string \<Rightarrow> hibernationOwner \<Rightarrow> 's \<Rightarrow> gerror option \<times> 's" where
  "wakeDaemonSets C namespace owner s =
     apfst snd (overNamespace C DaemonSet namespace (wakeDaemonSetBody C namespace owner) s)"

section \<open>Per workload type\<close>

text \<open>A workload type of the spec is its string; an unknown one does nothing.\<close>

definition actionSet :: "hibernateAction \<Rightarrow> bool" where
  "actionSet action \<longleftrightarrow> SleepDaemonSet action \<or> MaxReplicas action \<noteq> None"

definition hibernateWorkloadType ::
  "('s, 'm) client_scheme \<Rightarrow> string \<Rightarrow> string \<Rightarrow> hibernateAction \<Rightarrow> hibernationOwner \<Rightarrow> 's \<Rightarrow>
     (string list \<times> gerror option) \<times> 's" where
  "hibernateWorkloadType C namespace wt action owner s =
     (if \<not> actionSet action then (([], None), s)
      else if wt = ''Deployment'' then hibernateDeployments C namespace action owner s
      else if wt = ''StatefulSet'' then hibernateStatefulSets C namespace action owner s
      else if wt = ''ReplicaSet'' then hibernateReplicaSets C namespace action owner s
      else if wt = ''DaemonSet'' then
        (if \<not> SleepDaemonSet action then (([], None), s)
         else hibernateDaemonSets C namespace owner s)
      else (([], None), s))"

definition wakeWorkloadType ::
  "('s, 'm) client_scheme \<Rightarrow> string \<Rightarrow> string \<Rightarrow> hibernationOwner \<Rightarrow> 's \<Rightarrow> gerror option \<times> 's" where
  "wakeWorkloadType C namespace wt owner s =
     (if wt = ''Deployment'' then wakeDeployments C namespace owner s
      else if wt = ''StatefulSet'' then wakeStatefulSets C namespace owner s
      else if wt = ''ReplicaSet'' then wakeReplicaSets C namespace owner s
      else if wt = ''DaemonSet'' then wakeDaemonSets C namespace owner s
      else (None, s))"

section \<open>Reconcile\<close>

record hibernatePolicy =
  hpNamespace :: string
  hpName :: string
  hpWorkloadTypes :: "string list"
  hpAvailabilityWindows :: "availabilityWindow list"
  hpAction :: hibernateAction
  hpHibernatedWorkloads :: "string list"
  hpConditions :: "condition list"

record 's hpClient = "'s client" +
  getHibernatePolicy :: "string \<Rightarrow> string \<Rightarrow> 's \<Rightarrow> kerr + hibernatePolicy"
  patchHibernatePolicyStatus :: "hibernatePolicy \<Rightarrow> hibernatePolicy \<Rightarrow> 's \<Rightarrow> kerr option \<times> 's"

fun wakeTypes ::
  "('s, 'm) client_scheme \<Rightarrow> string \<Rightarrow> hibernationOwner \<Rightarrow> string list \<Rightarrow> gerror list \<Rightarrow> 's \<Rightarrow>
     gerror list \<times> 's" where
  "wakeTypes C namespace owner [] errs s = (errs, s)"
| "wakeTypes C namespace owner (wt # wts) errs s =
     (case wakeWorkloadType C namespace wt owner s of
        (Some e, s') \<Rightarrow> wakeTypes C namespace owner wts (errs @ [Errorf ''waking %s'' [wt] e]) s'
      | (None, s') \<Rightarrow> wakeTypes C namespace owner wts errs s')"

fun hibernateTypes ::
  "('s, 'm) client_scheme \<Rightarrow> string \<Rightarrow> hibernateAction \<Rightarrow> hibernationOwner \<Rightarrow> string list \<Rightarrow>
     string list \<Rightarrow> gerror list \<Rightarrow> 's \<Rightarrow> (string list \<times> gerror list) \<times> 's" where
  "hibernateTypes C namespace action owner [] hibernated errs s = ((hibernated, errs), s)"
| "hibernateTypes C namespace action owner (wt # wts) hibernated errs s =
     (case hibernateWorkloadType C namespace wt action owner s of
        ((names, Some e), s') \<Rightarrow>
          hibernateTypes C namespace action owner wts hibernated
            (errs @ [Errorf ''hibernating %s'' [wt] e]) s'
      | ((names, None), s') \<Rightarrow>
          hibernateTypes C namespace action owner wts (hibernated @ names) errs s')"

text \<open>The requeue delay; both policy controllers compute it the same way.\<close>

definition windowRequeue ::
  "(string \<Rightarrow> location option) \<Rightarrow> availabilityWindow list \<Rightarrow> time \<Rightarrow> bool \<Rightarrow> time \<Rightarrow> time \<Rightarrow> duration" where
  "windowRequeue loadLocation windows now inWindow windowEnd untilNow =
     (if inWindow then
        (let d = time_Sub windowEnd untilNow
         in if 0 < d \<and> d < windowCheckInterval then d else windowCheckInterval)
      else
        (let nextStart = nextAvailabilityWindowStart loadLocation windows now
         in if nextStart \<noteq> zeroTime then
              (let d = time_Sub nextStart untilNow
               in if 0 < d \<and> d < windowCheckInterval then d else windowCheckInterval)
            else windowCheckInterval))"

definition hpOwner :: "hibernatePolicy \<Rightarrow> hibernationOwner" where
  "hpOwner hp = \<lparr>oKind = ''HibernatePolicy'', oNamespace = hpNamespace hp, oName = hpName hp\<rparr>"

definition reconcileHibernatePolicy ::
  "('s, 'm) hpClient_scheme \<Rightarrow> (string \<Rightarrow> location option) \<Rightarrow> clock \<Rightarrow> string \<Rightarrow> string \<Rightarrow> 's \<Rightarrow>
     (result \<times> gerror option) \<times> 's" where
  "reconcileHibernatePolicy C loadLocation clk reqNamespace reqName s =
     (case getHibernatePolicy C reqNamespace reqName s of
        Inl NotFound \<Rightarrow> ((noRequeue, None), s)
      | Inl e \<Rightarrow> ((noRequeue, Some (Errorf ''fetching HibernatePolicy %s'' [reqNamespace @ ''/'' @ reqName] (Api e))), s)
      | Inr hp \<Rightarrow>
          (let namespace = hpNamespace hp;
               owner = hpOwner hp;
               now = clkNow clk;
               (inWindow, windowEnd) = isInAvailabilityWindow loadLocation (hpAvailabilityWindows hp) now;
               ((hibernated, errs), s1) =
                 (if inWindow
                  then apfst (Pair []) (wakeTypes C namespace owner (hpWorkloadTypes hp) [] s)
                  else hibernateTypes C namespace (hpAction hp) owner (hpWorkloadTypes hp) [] [] s);
               hp' = hp\<lparr>hpHibernatedWorkloads := (if inWindow then [] else hibernated),
                        hpConditions := setCondition (hpConditions hp)
                          \<lparr>cType = conditionTypeReady, cStatus = ConditionTrue,
                           cReason = ''Reconciled'',
                           cMessage = Itoa (int (length (hpWorkloadTypes hp)))
                             @ '' workload type(s) managed in namespace '' @ namespace,
                           cLastTransitionTime = clkStatus clk\<rparr>\<rparr>
           in case patchHibernatePolicyStatus C hp hp' s1 of
                (Some e, s2) \<Rightarrow> ((noRequeue, Some (Errorf ''patching HibernatePolicy status'' [] (Api e))), s2)
              | (None, s2) \<Rightarrow>
                  ((requeueAfter (windowRequeue loadLocation (hpAvailabilityWindows hp) now inWindow
                      windowEnd (clkUntil clk)), errorsJoin errs), s2)))"

section \<open>Specification\<close>

text \<open>
  What a pass does to one stored workload. \<open>specHibernate\<close> and \<open>specWake\<close> are functions of the
  object alone: the loops are shown to apply them to every workload of the namespace.
\<close>

definition specScaleDown :: "wkind \<Rightarrow> hibernateAction \<Rightarrow> hibernationOwner \<Rightarrow> workload \<Rightarrow> workload" where
  "specScaleDown k action owner w =
     (if isHibernated w \<or> k = ReplicaSet \<and> isOwnedByDeployment w then w
      else case MaxReplicas action of
             None \<Rightarrow> w
           | Some m \<Rightarrow> if sint m < sint (currentReplicas w) then scaledDown owner m w else w)"

definition specSleep :: "hibernationOwner \<Rightarrow> workload \<Rightarrow> workload" where
  "specSleep owner w = (if isHibernated w then w else sleptDaemonSet owner w)"

definition specHibernate :: "wkind \<Rightarrow> hibernateAction \<Rightarrow> hibernationOwner \<Rightarrow> workload \<Rightarrow> workload" where
  "specHibernate k action owner w =
     (if k = DaemonSet then (if SleepDaemonSet action then specSleep owner w else w)
      else specScaleDown k action owner w)"

definition specScaleUp :: "wkind \<Rightarrow> hibernationOwner \<Rightarrow> workload \<Rightarrow> workload" where
  "specScaleUp k owner w =
     (if isHibernated w \<and> ownedBy (wAnnotations w) owner \<and> \<not> (k = ReplicaSet \<and> isOwnedByDeployment w)
      then scaledUp w else w)"

definition specWakeDaemonSet :: "hibernationOwner \<Rightarrow> workload \<Rightarrow> workload" where
  "specWakeDaemonSet owner w =
     (if isHibernated w \<and> ownedBy (wAnnotations w) owner then wokenDaemonSet w else w)"

definition specWake :: "wkind \<Rightarrow> hibernationOwner \<Rightarrow> workload \<Rightarrow> workload" where
  "specWake k owner w =
     (if k = DaemonSet then specWakeDaemonSet owner w else specScaleUp k owner w)"

text \<open>The workloads a pass lists in the status: those hibernated for this owner afterwards.\<close>

definition heldBy :: "hibernationOwner \<Rightarrow> workload \<Rightarrow> bool" where
  "heldBy owner w \<longleftrightarrow> isHibernated w \<and> ownedBy (wAnnotations w) owner"

text \<open>Apply a function to the stored workloads of one kind and namespace.\<close>

definition mapStored ::
  "wkind \<Rightarrow> string \<Rightarrow> (workload \<Rightarrow> workload) \<Rightarrow> (wkey \<rightharpoonup> workload) \<Rightarrow> (wkey \<rightharpoonup> workload)" where
  "mapStored k ns f m = (\<lambda>(k', ns', n). if k' = k \<and> ns' = ns then map_option f (m (k', ns', n)) else m (k', ns', n))"

text \<open>Apply a function of the kind to the workloads a policy governs.\<close>

definition specPolicy ::
  "string \<Rightarrow> string list \<Rightarrow> (wkind \<Rightarrow> workload \<Rightarrow> workload) \<Rightarrow> (wkey \<rightharpoonup> workload) \<Rightarrow> (wkey \<rightharpoonup> workload)" where
  "specPolicy ns wts g m =
     (\<lambda>(k, ns', n). if ns' = ns \<and> workloadKind k \<in> set wts
                   then map_option (g k) (m (k, ns', n)) else m (k, ns', n))"

text \<open>
  A workload the policy has no hold on yet and whose saved state will survive: if it is not
  hibernated, it carries none of the bookkeeping annotations, its replica count is not negative and
  its node selector is well formed.
\<close>

definition fresh :: "hibernationOwner \<Rightarrow> workload \<Rightarrow> bool" where
  "fresh owner w \<longleftrightarrow> \<not> heldBy owner w \<and>
     (\<not> isHibernated w \<longrightarrow>
        list_all (\<lambda>key. wAnnotations w key = None)
          [annotationOriginalReplicas, annotationOriginalNodeSelector, annotationHibernated,
           annotationHibernatedByKind, annotationHibernatedByName, annotationHibernatedByNamespace] \<and>
        0 \<le> sint (currentReplicas w) \<and> wellFormedSelector (wNodeSelector w))"

text \<open>The same workload, up to a nil replica count that has become its default.\<close>

definition sameWorkload :: "workload \<Rightarrow> workload \<Rightarrow> bool" where
  "sameWorkload w w' \<longleftrightarrow> w' = w \<or> wReplicas w = None \<and> w' = w\<lparr>wReplicas := Some 1\<rparr>"

text \<open>For the examples: a workload of the namespace \<open>shop\<close>.\<close>

definition plainWorkload :: "string \<Rightarrow> 32 word option \<Rightarrow> nodeSelector \<Rightarrow> workload" where
  "plainWorkload n r sel = \<lparr>wNamespace = ''shop'', wName = n, wAnnotations = Map.empty,
     wOwnerKinds = [], wReplicas = r, wNodeSelector = sel\<rparr>"

section \<open>Lemmas\<close>

lemmas hibernationAnnotations =
  annotationOriginalReplicas_def annotationOriginalNodeSelector_def annotationHibernated_def
  annotationHibernatedByKind_def annotationHibernatedByName_def annotationHibernatedByNamespace_def

text \<open>Marking is visible, keeps the saved state, and clearing undoes it.\<close>

lemma ann_markHibernated [simp]:
  "ann (markHibernated a owner) annotationHibernated = annotationTrueValue"
  "ann (markHibernated a owner) annotationHibernatedByKind = oKind owner"
  "ann (markHibernated a owner) annotationHibernatedByName = oName owner"
  "ann (markHibernated a owner) annotationHibernatedByNamespace = oNamespace owner"
  "ann (markHibernated a owner) annotationOriginalReplicas = ann a annotationOriginalReplicas"
  "ann (markHibernated a owner) annotationOriginalNodeSelector = ann a annotationOriginalNodeSelector"
  by (simp_all add: markHibernated_def hibernationAnnotations)

lemma ownedBy_markHibernated [simp]: "ownedBy (markHibernated a owner) owner"
  by (simp add: ownedBy_def)

lemma clear_markHibernated:
  "clearHibernated (markHibernated a owner) = clearHibernated a"
  by (auto simp: clearHibernated_def markHibernated_def)

lemma clearHibernated_cleared [simp]:
  "ann (clearHibernated a) annotationHibernated = ''''" "annotationTrueValue \<noteq> ''''" "'''' \<noteq> annotationTrueValue"
  by (simp_all add: clearHibernated_def annotationTrueValue_def hibernationAnnotations)

lemma isHibernated_changed [simp]:
  "isHibernated (scaledDown owner t w)" "isHibernated (sleptDaemonSet owner w)"
  "\<not> isHibernated (scaledUp w)" "\<not> isHibernated (wokenDaemonSet w)"
  by (simp_all add: isHibernated_def scaledDown_def sleptDaemonSet_def scaledUp_def wokenDaemonSet_def Let_def)

lemma ownedBy_changed [simp]:
  "ownedBy (wAnnotations (scaledDown owner t w)) owner"
  "ownedBy (wAnnotations (sleptDaemonSet owner w)) owner"
  by (simp_all add: scaledDown_def sleptDaemonSet_def)

lemma wkey_changed [simp]:
  "wkey k (scaledDown owner t w) = wkey k w" "wkey k (scaledUp w) = wkey k w"
  "wkey k (sleptDaemonSet owner w) = wkey k w" "wkey k (wokenDaemonSet w) = wkey k w"
  by (simp_all add: wkey_def scaledDown_def scaledUp_def sleptDaemonSet_def wokenDaemonSet_def Let_def)

lemma wOwnerKinds_changed [simp]:
  "wOwnerKinds (scaledDown owner t w) = wOwnerKinds w" "wOwnerKinds (scaledUp w) = wOwnerKinds w"
  by (simp_all add: scaledDown_def scaledUp_def)

lemma isOwnedByDeployment_changed [simp]:
  "isOwnedByDeployment (scaledDown owner t w) = isOwnedByDeployment w"
  by (simp add: isOwnedByDeployment_def)

lemma wkey_spec [simp]:
  "wkey k (specScaleDown k' action owner w) = wkey k w" "wkey k (specSleep owner w) = wkey k w"
  "wkey k (specScaleUp k' owner w) = wkey k w" "wkey k (specWakeDaemonSet owner w) = wkey k w"
  by (simp_all add: specScaleDown_def specSleep_def specScaleUp_def specWakeDaemonSet_def split: option.splits)

section \<open>The loops implement the specification\<close>

lemma frame_update:
  "\<forall>v \<in> set ws. m (g v) = Some v \<Longrightarrow> g w \<notin> g ` set ws \<Longrightarrow> \<forall>v \<in> set ws. (m(g w \<mapsto> x)) (g v) = Some v"
  by (metis fun_upd_other image_eqI)

text \<open>
  The contract of a loop body: on a stored workload it either succeeds, and then the workload has
  become \<open>f w\<close> and \<open>listed w\<close> says whether its name was returned, or it fails, and then the
  workload is as before or already \<open>f w\<close>. Nothing else in the store changes.
\<close>

locale item_step =
  fixes stored :: "'s \<Rightarrow> wkey \<rightharpoonup> workload"
    and k :: wkind
    and body :: "'s step"
    and f :: "workload \<Rightarrow> workload"
    and listed :: "workload \<Rightarrow> bool"
  assumes keeps_key: "wkey k (f w) = wkey k w"
    and step_ok: "body w s = ((names, None), s') \<Longrightarrow> stored s (wkey k w) = Some w \<Longrightarrow>
      stored s' = (stored s)(wkey k w \<mapsto> f w) \<and>
      names = (if listed w then [workloadName k w] else [])"
    and step_error: "body w s = ((names, Some e), s') \<Longrightarrow> stored s (wkey k w) = Some w \<Longrightarrow>
      stored s' = stored s \<or> stored s' = (stored s)(wkey k w \<mapsto> f w)"
begin

lemma forEach_ok:
  assumes "forEach body ws acc s = ((names, None), s')"
    and "\<forall>w \<in> set ws. stored s (wkey k w) = Some w" "distinct (map (wkey k) ws)"
  shows "stored s' = (\<lambda>key. if key \<in> wkey k ` set ws then map_option f (stored s key) else stored s key)
    \<and> names = acc @ map (workloadName k) (filter listed ws)"
  using assms
proof (induction ws arbitrary: acc s)
  case (Cons w ws)
  from Cons.prems(1) obtain ns s1 where s1: "body w s = ((ns, None), s1)"
      "forEach body ws (acc @ ns) s1 = ((names, None), s')"
    by (auto split: prod.splits option.splits)
  have st: "stored s1 = (stored s)(wkey k w \<mapsto> f w)"
    "ns = (if listed w then [workloadName k w] else [])" using step_ok [OF s1(1)] Cons.prems(2) by simp_all
  have new: "wkey k w \<notin> wkey k ` set ws" "distinct (map (wkey k) ws)" using Cons.prems(3) by simp_all
  have rest: "\<forall>v \<in> set ws. stored s1 (wkey k v) = Some v"
    unfolding st(1) by (rule frame_update) (use Cons.prems(2) new(1) in simp_all)
  have IH: "stored s' = (\<lambda>key. if key \<in> wkey k ` set ws then map_option f (stored s1 key) else stored s1 key)
      \<and> names = (acc @ ns) @ map (workloadName k) (filter listed ws)"
    by (rule Cons.IH [OF s1(2) rest new(2)])
  show ?case
  proof (intro conjI ext)
    fix key
    show "stored s' key = (if key \<in> wkey k ` set (w # ws) then map_option f (stored s key) else stored s key)"
      using IH Cons.prems(2) new(1) by (cases "key = wkey k w") (simp_all add: st(1))
  qed (use IH in \<open>simp add: st(2)\<close>)
qed auto

text \<open>Whatever happens, each workload is left alone or changed by \<open>f\<close>.\<close>

lemma forEach_any:
  assumes "forEach body ws acc s = (r, s')"
    and "\<forall>w \<in> set ws. stored s (wkey k w) = Some w" "distinct (map (wkey k) ws)"
  shows "stored s' key = stored s key \<or>
    key \<in> wkey k ` set ws \<and> stored s' key = map_option f (stored s key)"
  using assms
proof (induction ws arbitrary: acc s)
  case (Cons w ws)
  obtain ns e s1 where s1: "body w s = ((ns, e), s1)" by (metis prod.collapse)
  show ?case
  proof (cases e)
    case None
    then have st: "stored s1 = (stored s)(wkey k w \<mapsto> f w)" using step_ok s1 Cons.prems(2) by simp
    have rest: "\<forall>v \<in> set ws. stored s1 (wkey k v) = Some v"
      unfolding st by (rule frame_update) (use Cons.prems(2,3) in simp_all)
    have loop: "forEach body ws (acc @ ns) s1 = (r, s')" using Cons.prems(1) s1 None by simp
    have "stored s' key = stored s1 key \<or>
        key \<in> wkey k ` set ws \<and> stored s' key = map_option f (stored s1 key)"
      using Cons.prems(3) by (intro Cons.IH [OF loop rest]) simp
    then show ?thesis using Cons.prems(2,3) by (cases "key = wkey k w") (auto simp: st)
  next
    case (Some x)
    then have "stored s1 = stored s \<or> stored s1 = (stored s)(wkey k w \<mapsto> f w)" "s' = s1"
      using step_error s1 Cons.prems(1,2) by auto
    then show ?thesis using Cons.prems(2) by auto
  qed
qed simp

end

text \<open>A body run over the listing of a namespace.\<close>

locale namespace_step = workload_api C stored storedHPA + item_step stored k body f listed
  for C :: "('s, 'm) client_scheme" and stored storedHPA k body f listed
begin

lemma listing_loop:
  assumes "listWorkloads C k (Some ns) s = Inr ws"
  shows "\<forall>w \<in> set ws. stored s (wkey k w) = Some w" "distinct (map (wkey k) ws)"
    "wkey k ` set ws = {key. \<exists>n. key = (k, ns, n) \<and> stored s key \<noteq> None}"
proof -
  show "\<forall>w \<in> set ws. stored s (wkey k w) = Some w" using list_stored [OF assms] by blast
  have "map wName ws = map (snd \<circ> snd) (map (wkey k) ws)" by (simp add: wkey_def)
  then show "distinct (map (wkey k) ws)"
    using list_set [OF assms] by (metis distinct_map)
  show "wkey k ` set ws = {key. \<exists>n. key = (k, ns, n) \<and> stored s key \<noteq> None}"
  proof (intro set_eqI iffI)
    fix key assume "key \<in> {key. \<exists>n. key = (k, ns, n) \<and> stored s key \<noteq> None}"
    then obtain n w where "key = (k, ns, n)" "stored s key = Some w" by blast
    then show "key \<in> wkey k ` set ws"
      using list_complete [OF assms] stored_key by (force simp: wkey_def)
  qed (use list_stored [OF assms] in \<open>auto simp: wkey_def\<close>)
qed

lemma overNamespace_ok:
  assumes "overNamespace C k ns body s = ((names, None), s')"
  shows "stored s' = mapStored k ns f (stored s)"
    "\<exists>ws. set ws = {w. \<exists>n. stored s (k, ns, n) = Some w} \<and> distinct ws \<and>
      names = map (workloadName k) (filter listed ws)"
proof -
  from assms obtain ws where ws: "listWorkloads C k (Some ns) s = Inr ws"
      "forEach body ws [] s = ((names, None), s')"
    by (auto simp: overNamespace_def split: sum.splits)
  note loop = forEach_ok [OF ws(2) listing_loop(1,2) [OF ws(1)]] and keys = listing_loop(3) [OF ws(1)]
  show "stored s' = mapStored k ns f (stored s)"
    unfolding conjunct1 [OF loop] keys by (auto simp: mapStored_def fun_eq_iff)
  show "\<exists>ws. set ws = {w. \<exists>n. stored s (k, ns, n) = Some w} \<and> distinct ws \<and>
      names = map (workloadName k) (filter listed ws)"
    using loop list_set [OF ws(1)] by (auto intro!: exI [of _ ws] simp: distinct_map)
qed

lemma overNamespace_any:
  assumes "overNamespace C k ns body s = (r, s')"
  shows "stored s' key = stored s key \<or> stored s' key = mapStored k ns f (stored s) key"
proof (cases "listWorkloads C k (Some ns) s")
  case (Inr ws)
  then have "forEach body ws [] s = (r, s')" using assms by (simp add: overNamespace_def)
  from forEach_any [OF this listing_loop(1,2) [OF Inr], of key] show ?thesis
    unfolding listing_loop(3) [OF Inr] by (auto simp: mapStored_def)
qed (use assms in \<open>simp add: overNamespace_def\<close>)

end

lemma fun_upd_self: "m key = Some w \<Longrightarrow> m(key \<mapsto> w) = m"
  by auto

sublocale workload_api \<subseteq> hib: namespace_step C stored storedHPA k
    "hibernateBody C k ns action owner" "specScaleDown k action owner"
    "\<lambda>w. \<not> (k = ReplicaSet \<and> isOwnedByDeployment w) \<and> heldBy owner (specScaleDown k action owner w)"
  for k ns action owner
proof (unfold_locales, goal_cases)
  case (2 w s names s')
  then show ?case
    by (auto simp: hibernateBody_def specScaleDown_def computeTargetReplicas_def heldBy_def fun_upd_self
        suspendHPAForAction_stored suspendHPA_stored dest!: patch_ok
        split: if_splits prod.splits option.splits)
next
  case (3 w s names e s')
  then show ?case
    by (auto simp: hibernateBody_def specScaleDown_def computeTargetReplicas_def 
        suspendHPAForAction_stored suspendHPA_stored dest!: patch_ok patch_error
        split: if_splits prod.splits option.splits)
qed simp

sublocale workload_api \<subseteq> wake: namespace_step C stored storedHPA k
    "wakeBody C k ns owner" "specScaleUp k owner" "\<lambda>w. False"
  for k ns owner
proof (unfold_locales, goal_cases)
  case (2 w s names s')
  then show ?case
    by (auto simp: wakeBody_def specScaleUp_def fun_upd_self restoreHPA_stored dest!: patch_ok
        split: if_splits prod.splits option.splits)
next
  case (3 w s names e s')
  then show ?case
    by (auto simp: wakeBody_def restoreHPA_stored dest!: patch_error
        split: if_splits prod.splits option.splits)
qed simp

sublocale workload_api \<subseteq> sleep: namespace_step C stored storedHPA DaemonSet
    "sleepBody C ns owner" "specSleep owner" "\<lambda>w. heldBy owner (specSleep owner w)"
  for ns owner
proof (unfold_locales, goal_cases)
  case (2 w s names s')
  then show ?case
    by (auto simp: sleepBody_def specSleep_def heldBy_def fun_upd_self dest!: patch_ok
        split: if_splits prod.splits option.splits)
next
  case (3 w s names e s')
  then show ?case
    by (auto simp: sleepBody_def dest!: patch_error split: if_splits prod.splits option.splits)
qed simp

sublocale workload_api \<subseteq> wakeDs: namespace_step C stored storedHPA DaemonSet
    "wakeDaemonSetBody C ns owner" "specWakeDaemonSet owner" "\<lambda>w. False"
  for ns owner
proof (unfold_locales, goal_cases)
  case (2 w s names s')
  then show ?case
    by (auto simp: wakeDaemonSetBody_def specWakeDaemonSet_def fun_upd_self dest!: patch_ok
        split: if_splits prod.splits option.splits)
next
  case (3 w s names e s')
  then show ?case
    by (auto simp: wakeDaemonSetBody_def dest!: patch_error split: if_splits prod.splits option.splits)
qed simp

section \<open>The policy level\<close>

lemma workloadKind_inj [simp]: "workloadKind k = workloadKind k' \<longleftrightarrow> k = k'"
  by (cases k; cases k') simp_all

lemma specPolicy_Nil: "specPolicy ns [] g m = m"
  by (auto simp: specPolicy_def)

lemma specPolicy_kind: "specPolicy ns [workloadKind k] g m = mapStored k ns (g k) m"
  by (auto simp: specPolicy_def mapStored_def fun_eq_iff)

lemma specPolicy_unknown: "\<forall>k. wt \<noteq> workloadKind k \<Longrightarrow> specPolicy ns [wt] g m = m"
  by (auto simp: specPolicy_def fun_eq_iff)

lemma specPolicy_id: "(\<And>k w. workloadKind k \<in> set wts \<Longrightarrow> g k w = w) \<Longrightarrow> specPolicy ns wts g m = m"
  by (auto simp: specPolicy_def fun_eq_iff option.map_ident_strong)

lemma specPolicy_Cons:
  assumes "\<And>k w. g k (g k w) = g k w"
  shows "specPolicy ns wts g (specPolicy ns [wt] g m) = specPolicy ns (wt # wts) g m"
  using assms by (auto simp: specPolicy_def fun_eq_iff option.map_comp comp_def)

lemma specHibernate_idem [simp]:
  "specHibernate k action owner (specHibernate k action owner w) = specHibernate k action owner w"
  by (auto simp: specHibernate_def specSleep_def specScaleDown_def split: option.splits)

lemma specWake_idem [simp]: "specWake k owner (specWake k owner w) = specWake k owner w"
  by (simp add: specWake_def specScaleUp_def specWakeDaemonSet_def)

lemma apfst_snd: "apfst snd p = (e, s') \<Longrightarrow> \<exists>names. p = ((names, e), s')"
  by (cases p) auto

lemma workload_type_cases:
  obtains k where "wt = workloadKind k" | "\<forall>k. wt \<noteq> workloadKind k"
  by blast

context workload_api
begin

lemma hibernateWorkloadType_kind:
  "hibernateWorkloadType C ns (workloadKind k) action owner s =
     (if \<not> actionSet action \<or> k = DaemonSet \<and> \<not> SleepDaemonSet action then (([], None), s)
      else overNamespace C k ns
        (if k = DaemonSet then sleepBody C ns owner else hibernateBody C k ns action owner) s)"
  by (cases k) (simp_all add: hibernateWorkloadType_def hibernateDeployments_def
      hibernateStatefulSets_def hibernateReplicaSets_def hibernateDaemonSets_def)

lemma wakeWorkloadType_kind:
  "wakeWorkloadType C ns (workloadKind k) owner s =
     apfst snd (overNamespace C k ns
       (if k = DaemonSet then wakeDaemonSetBody C ns owner else wakeBody C k ns owner) s)"
  by (cases k) (simp_all add: wakeWorkloadType_def wakeDeployments_def
      wakeStatefulSets_def wakeReplicaSets_def wakeDaemonSets_def)

lemma unknown_type:
  assumes "\<forall>k. wt \<noteq> workloadKind k"
  shows "hibernateWorkloadType C ns wt action owner s = (([], None), s)"
    "wakeWorkloadType C ns wt owner s = (None, s)"
proof -
  have "wt \<noteq> ''Deployment''" "wt \<noteq> ''StatefulSet''" "wt \<noteq> ''ReplicaSet''" "wt \<noteq> ''DaemonSet''"
    using assms workloadKind.simps by metis+
  then show "hibernateWorkloadType C ns wt action owner s = (([], None), s)"
    "wakeWorkloadType C ns wt owner s = (None, s)"
    by (simp_all add: hibernateWorkloadType_def wakeWorkloadType_def)
qed

lemma specHibernate_inactive:
  "\<not> actionSet action \<or> k = DaemonSet \<and> \<not> SleepDaemonSet action \<Longrightarrow> specHibernate k action owner w = w"
  by (auto simp: specHibernate_def actionSet_def specScaleDown_def)

lemma hibernateWorkloadType_stored:
  assumes run: "hibernateWorkloadType C ns wt action owner s = ((names, e), s')"
  defines "g \<equiv> \<lambda>k. specHibernate k action owner"
  shows "(e = None \<longrightarrow> stored s' = specPolicy ns [wt] g (stored s)) \<and>
    (stored s' key = stored s key \<or> stored s' key = specPolicy ns [wt] g (stored s) key)"
proof (cases wt rule: workload_type_cases)
  case (1 k)
  note run = run [unfolded 1 hibernateWorkloadType_kind] and g = specPolicy_kind [of ns k g, folded 1]
  consider "\<not> actionSet action \<or> k = DaemonSet \<and> \<not> SleepDaemonSet action"
    | "actionSet action" "k = DaemonSet" "SleepDaemonSet action" | "actionSet action" "k \<noteq> DaemonSet" by blast
  then show ?thesis
  proof cases
    case a: 1
    then have "specPolicy ns [wt] g m = m" for m
      using 1 by (intro specPolicy_id) (simp add: specHibernate_inactive g_def)
    then show ?thesis using a run by auto
  next
    case a: 2
    then have "g k = specSleep owner" by (simp add: g_def specHibernate_def fun_eq_iff)
    moreover have run: "overNamespace C DaemonSet ns (sleepBody C ns owner) s = ((names, e), s')"
      using a run by simp
    ultimately show ?thesis
      using sleep.overNamespace_ok(1) sleep.overNamespace_any [OF run, of key] g a(2) by auto
  next
    case a: 3
    then have "g k = specScaleDown k action owner" by (simp add: g_def specHibernate_def fun_eq_iff)
    moreover have run: "overNamespace C k ns (hibernateBody C k ns action owner) s = ((names, e), s')"
      using a run by simp
    ultimately show ?thesis
      using hib.overNamespace_ok(1) hib.overNamespace_any [OF run, of key] g by auto
  qed
qed (use run in \<open>simp add: unknown_type specPolicy_unknown\<close>)

lemma wakeWorkloadType_stored:
  assumes run: "wakeWorkloadType C ns wt owner s = (e, s')"
  defines "g \<equiv> \<lambda>k. specWake k owner"
  shows "(e = None \<longrightarrow> stored s' = specPolicy ns [wt] g (stored s)) \<and>
    (stored s' key = stored s key \<or> stored s' key = specPolicy ns [wt] g (stored s) key)"
proof (cases wt rule: workload_type_cases)
  case (1 k)
  note g = specPolicy_kind [of ns k g, folded 1]
  let ?body = "if k = DaemonSet then wakeDaemonSetBody C ns owner else wakeBody C k ns owner"
  obtain names where run: "overNamespace C k ns ?body s = ((names, e), s')"
    using apfst_snd [OF run [unfolded 1 wakeWorkloadType_kind]] by blast
  show ?thesis
  proof (cases "k = DaemonSet")
    case True
    then have "g k = specWakeDaemonSet owner" by (simp add: g_def specWake_def fun_eq_iff)
    moreover have run: "overNamespace C DaemonSet ns (wakeDaemonSetBody C ns owner) s = ((names, e), s')"
      using True run by simp
    ultimately show ?thesis
      using wakeDs.overNamespace_ok(1) wakeDs.overNamespace_any [OF run, of key] g True by auto
  next
    case False
    then have "g k = specScaleUp k owner" by (simp add: g_def specWake_def fun_eq_iff)
    moreover have run: "overNamespace C k ns (wakeBody C k ns owner) s = ((names, e), s')"
      using False run by simp
    ultimately show ?thesis
      using wake.overNamespace_ok(1) wake.overNamespace_any [OF run, of key] g by auto
  qed
qed (use run in \<open>simp add: unknown_type specPolicy_unknown\<close>)

end

section \<open>Wake-up undoes hibernation\<close>

lemma errorsJoin_None [simp]: "errorsJoin errs = None \<longleftrightarrow> errs = []"
  by (simp add: errorsJoin_def)

lemma fresh_annotations:
  assumes "fresh owner w" "\<not> isHibernated w"
  shows "(clearHibernated (wAnnotations w))(annotationOriginalReplicas := None) = wAnnotations w"
    "(clearHibernated (wAnnotations w))(annotationOriginalNodeSelector := None) = wAnnotations w"
    "clearHibernated (wAnnotations w) = wAnnotations w"
  using assms by (auto simp: fresh_def clearHibernated_def fun_eq_iff)

lemma clear_mark_upd:
  "key \<notin> {annotationHibernated, annotationHibernatedByKind, annotationHibernatedByName,
      annotationHibernatedByNamespace} \<Longrightarrow>
   (clearHibernated (markHibernated (a(key \<mapsto> v)) owner))(key := None) = (clearHibernated a)(key := None)"
  by (auto simp: clearHibernated_def markHibernated_def fun_eq_iff)

lemma scaledUp_scaledDown:
  assumes "fresh owner w" "\<not> isHibernated w"
  shows "scaledUp (scaledDown owner t w) = w\<lparr>wReplicas := Some (currentReplicas w)\<rparr>"
proof -
  have "(clearHibernated (wAnnotations (scaledDown owner t w)))(annotationOriginalReplicas := None) = wAnnotations w"
    using clear_mark_upd [of annotationOriginalReplicas] fresh_annotations [OF assms]
    by (simp add: scaledDown_def hibernationAnnotations)
  moreover have "0 \<le> sint (currentReplicas w)" using assms by (simp add: fresh_def)
  ultimately show ?thesis
    by (simp add: scaledUp_def) (simp add: scaledDown_def parseOriginalReplicas_Itoa)
qed

lemma jsonMarshal_not_Nil [simp]: "jsonMarshal m \<noteq> ''''"
  by (simp add: jsonMarshal_def split: option.splits)

lemma wokenDaemonSet_slept:
  assumes "fresh owner w" "\<not> isHibernated w"
  shows "wokenDaemonSet (sleptDaemonSet owner w) = w"
proof -
  have "(clearHibernated (wAnnotations (sleptDaemonSet owner w)))(annotationOriginalNodeSelector := None) = wAnnotations w"
    using clear_mark_upd [of annotationOriginalNodeSelector] fresh_annotations [OF assms]
    by (simp add: sleptDaemonSet_def hibernationAnnotations)
  moreover have "wellFormedSelector (wNodeSelector w)" using assms by (simp add: fresh_def)
  ultimately show ?thesis
    by (simp add: wokenDaemonSet_def Let_def) (simp add: sleptDaemonSet_def jsonUnmarshal_Marshal)
qed

lemma sameWorkload_refl [simp]: "sameWorkload w w"
  by (simp add: sameWorkload_def)

lemma specWake_specHibernate:
  assumes "fresh owner w"
  shows "sameWorkload w (specWake k owner (specHibernate k action owner w))"
proof (cases "isHibernated w")
  case True
  then show ?thesis using assms
    by (simp add: fresh_def heldBy_def sameWorkload_def specHibernate_def specSleep_def specScaleDown_def
        specWake_def specScaleUp_def specWakeDaemonSet_def)
next
  case False
  have same: "sameWorkload w (w\<lparr>wReplicas := Some (currentReplicas w)\<rparr>)"
    by (cases "wReplicas w") (simp_all add: sameWorkload_def currentReplicas_def)
  show ?thesis
  proof (cases "k = DaemonSet")
    case True
    then show ?thesis
      using False same wokenDaemonSet_slept [OF assms False]
      by (simp add: specHibernate_def specSleep_def specWake_def specWakeDaemonSet_def)
  next
    case daemon: False
    have "specHibernate k action owner w = w \<or>
        (\<exists>t. specHibernate k action owner w = scaledDown owner t w \<and> \<not> (k = ReplicaSet \<and> isOwnedByDeployment w))"
      using daemon by (auto simp: specHibernate_def specScaleDown_def split: option.splits)
    moreover have "specWake k owner w = w" using False daemon by (simp add: specWake_def specScaleUp_def)
    moreover have "specWake k owner (scaledDown owner t w) = w\<lparr>wReplicas := Some (currentReplicas w)\<rparr>"
      if "\<not> (k = ReplicaSet \<and> isOwnedByDeployment w)" for t
      using that daemon scaledUp_scaledDown [OF assms False] by (simp add: specWake_def specScaleUp_def)
    ultimately show ?thesis using same by (metis sameWorkload_refl)
  qed
qed

end
