(* ===== verification/Hibernate_Policy.thy ===== *)
theory Hibernate_Policy
  imports Hibernation
begin

text \<open>
  The correctness of the HibernatePolicy controller: one reconciliation refines the specification
  of \<open>Hibernation\<close>, and from that the round trip, the ownership and cap properties. The laws the
  reconciler needs of its client are the locale \<open>hp_api\<close>; \<open>memHpClient\<close> is a client that has them.
\<close>

section \<open>The client of the reconciler\<close>

locale hp_api = workload_api C stored storedHPA
  for C :: "('s, 'm) hpClient_scheme" and stored storedHPA +
  assumes hp_status: "patchHibernatePolicyStatus C base hp s = (r, s') \<Longrightarrow>
    stored s' = stored s \<and> storedHPA s' = storedHPA s"

record hpMemState = memState +
  mHibernatePolicies :: "((string \<times> string) \<times> hibernatePolicy) list"

definition memHpClient :: "(string \<Rightarrow> kerr option) \<Rightarrow> 'a hpMemState_scheme hpClient" where
  "memHpClient fault = client.extend (memClient fault)
     (hpClient.fields
        (\<lambda>ns n s. case map_of (mHibernatePolicies s) (ns, n) of None \<Rightarrow> Inl NotFound | Some hp \<Rightarrow> Inr hp)
        (\<lambda>base hp s. case fault ''patch HibernatePolicy/status'' of
             Some e \<Rightarrow> (Some e, s)
           | None \<Rightarrow> (None, s\<lparr>mHibernatePolicies :=
               alistPut (hpNamespace base, hpName base) hp (mHibernatePolicies s)\<rparr>)))"

text \<open>A namespace with a Deployment of five replicas, another with a nil count, a DaemonSet and a policy.\<close>

definition nightPolicy :: hibernatePolicy where
  "nightPolicy = \<lparr>hpNamespace = ''shop'', hpName = ''night'',
     hpWorkloadTypes = [''Deployment'', ''DaemonSet''],
     hpAvailabilityWindows = [officeHours],
     hpAction = \<lparr>MaxReplicas = Some 2, SleepDaemonSet = True\<rparr>,
     hpHibernatedWorkloads = [], hpConditions = []\<rparr>"

definition shopCluster :: hpMemState where
  "shopCluster = \<lparr>
     mWorkloads = [((Deployment, ''shop'', ''web''), plainWorkload ''web'' (Some 5) None),
                   ((Deployment, ''shop'', ''one''), plainWorkload ''one'' None None),
                   ((DaemonSet, ''shop'', ''agent''), plainWorkload ''agent'' None (Some [(''disk'', ''ssd'')]))],
     mHPAs = [],
     mHibernatePolicies = [((''shop'', ''night''), nightPolicy)]\<rparr>"

text \<open>A namespace where a Deployment is held by another policy, and one of ours keeps a cap of four.\<close>

definition heldDeployment :: "string \<Rightarrow> string \<Rightarrow> 32 word \<Rightarrow> workload" where
  "heldDeployment n policy r = scaledDown \<lparr>oKind = ''HibernatePolicy'', oNamespace = ''shop'', oName = policy\<rparr> r
     (plainWorkload n (Some 8) None)"

definition sharedCluster :: hpMemState where
  "sharedCluster = \<lparr>
     mWorkloads = [((Deployment, ''shop'', ''web''), plainWorkload ''web'' (Some 5) None),
                   ((Deployment, ''shop'', ''batch''), heldDeployment ''batch'' ''weekend'' 6),
                   ((Deployment, ''shop'', ''api''), heldDeployment ''api'' ''night'' 4)],
     mHPAs = [],
     mHibernatePolicies = [((''shop'', ''night''), nightPolicy)]\<rparr>"

definition webPatchFails :: "string \<Rightarrow> kerr option" where
  "webPatchFails call = (if call = ''patch Deployment/web'' then Some (ApiError ''conflict'') else None)"

section \<open>Refinement\<close>

lemma specPolicy_step:
  assumes idem: "\<And>k w. g k (g k w) = g k w"
    and "ma key = m key \<or> ma key = specPolicy ns [wt] g m key"
    and "mb key = ma key \<or> mb key = specPolicy ns wts g ma key"
  shows "mb key = m key \<or> mb key = specPolicy ns (wt # wts) g m key"
proof (cases key)
  case (fields k ns' n)
  with assms show ?thesis
    by (auto simp: specPolicy_def option.map_comp comp_def split: if_splits)
qed

context workload_api
begin

lemma hibernateTypes_any:
  "hibernateTypes C ns action owner wts acc errs s = ((names, errs'), s') \<Longrightarrow>
     stored s' key = stored s key \<or>
     stored s' key = specPolicy ns wts (\<lambda>k. specHibernate k action owner) (stored s) key"
proof (induction wts arbitrary: acc errs s)
  case (Cons wt wts)
  obtain ns1 e s1 where s1: "hibernateWorkloadType C ns wt action owner s = ((ns1, e), s1)"
    by (metis prod.collapse)
  then obtain acc1 errs1 where loop:
      "hibernateTypes C ns action owner wts acc1 errs1 s1 = ((names, errs'), s')"
    using Cons.prems by (cases e) auto
  show ?case
    by (rule specPolicy_step [where ma = "stored s1" and m = "stored s" and mb = "stored s'" and key = key, OF _ hibernateWorkloadType_stored [OF s1, THEN conjunct2] Cons.IH [OF loop]]) simp
qed simp

lemma wakeTypes_any:
  "wakeTypes C ns owner wts errs s = (errs', s') \<Longrightarrow>
     stored s' key = stored s key \<or>
     stored s' key = specPolicy ns wts (\<lambda>k. specWake k owner) (stored s) key"
proof (induction wts arbitrary: errs s)
  case (Cons wt wts)
  obtain e s1 where s1: "wakeWorkloadType C ns wt owner s = (e, s1)" by (metis prod.collapse)
  then obtain errs1 where loop: "wakeTypes C ns owner wts errs1 s1 = (errs', s')"
    using Cons.prems by (cases e) auto
  show ?case
    by (rule specPolicy_step [where ma = "stored s1" and m = "stored s" and mb = "stored s'" and key = key, OF _ wakeWorkloadType_stored [OF s1, THEN conjunct2] Cons.IH [OF loop]]) simp
qed simp

lemma hibernateTypes_errs:
  "hibernateTypes C ns action owner wts acc errs s = ((names, errs'), s') \<Longrightarrow> \<exists>es. errs' = errs @ es"
  by (induction wts arbitrary: acc errs s) (force split: prod.splits option.splits)+

lemma wakeTypes_errs: "wakeTypes C ns owner wts errs s = (errs', s') \<Longrightarrow> \<exists>es. errs' = errs @ es"
  by (induction wts arbitrary: errs s) (force split: prod.splits option.splits)+

lemma hibernateTypes_ok:
  "hibernateTypes C ns action owner wts acc [] s = ((names, []), s') \<Longrightarrow>
     stored s' = specPolicy ns wts (\<lambda>k. specHibernate k action owner) (stored s)"
proof (induction wts arbitrary: acc s)
  case (Cons wt wts)
  obtain ns1 e s1 where s1: "hibernateWorkloadType C ns wt action owner s = ((ns1, e), s1)"
    by (metis prod.collapse)
  then have e: "e = None" and loop: "hibernateTypes C ns action owner wts (acc @ ns1) [] s1 = ((names, []), s')"
    using Cons.prems by (cases e; auto dest: hibernateTypes_errs)+
  show ?case
    unfolding Cons.IH [OF loop] hibernateWorkloadType_stored [OF s1, THEN conjunct1, rule_format, OF e]
    by (rule specPolicy_Cons) simp
qed (simp add: specPolicy_Nil)

lemma wakeTypes_ok:
  "wakeTypes C ns owner wts [] s = ([], s') \<Longrightarrow>
     stored s' = specPolicy ns wts (\<lambda>k. specWake k owner) (stored s)"
proof (induction wts arbitrary: s)
  case (Cons wt wts)
  obtain e s1 where s1: "wakeWorkloadType C ns wt owner s = (e, s1)" by (metis prod.collapse)
  then have e: "e = None" and loop: "wakeTypes C ns owner wts [] s1 = ([], s')"
    using Cons.prems by (cases e; auto dest: wakeTypes_errs)+
  show ?case
    unfolding Cons.IH [OF loop] wakeWorkloadType_stored [OF s1, THEN conjunct1, rule_format, OF e]
    by (rule specPolicy_Cons) simp
qed (simp add: specPolicy_Nil)

end

text \<open>One pass over the workloads, by whether the policy's window is open.\<close>

definition specPass :: "bool \<Rightarrow> hibernatePolicy \<Rightarrow> wkind \<Rightarrow> workload \<Rightarrow> workload" where
  "specPass inWindow hp k w =
     (if inWindow then specWake k (hpOwner hp) w else specHibernate k (hpAction hp) (hpOwner hp) w)"

definition windowOpen :: "(string \<Rightarrow> location option) \<Rightarrow> hibernatePolicy \<Rightarrow> time \<Rightarrow> bool" where
  "windowOpen loadLocation hp now = fst (isInAvailabilityWindow loadLocation (hpAvailabilityWindows hp) now)"

lemma specPass_idem: "specPass b hp k (specPass b hp k w) = specPass b hp k w"
  by (simp add: specPass_def)

context hp_api
begin

lemma reconcile_split:
  assumes "reconcileHibernatePolicy C ll clk ns n s = ((res, e), s')" "getHibernatePolicy C ns n s = Inr hp"
  obtains (closed) names errs s1 where "\<not> windowOpen ll hp (clkNow clk)"
      "hibernateTypes C (hpNamespace hp) (hpAction hp) (hpOwner hp) (hpWorkloadTypes hp) [] [] s = ((names, errs), s1)"
      "stored s' = stored s1" "e = None \<Longrightarrow> errs = []"
    | (opened) errs s1 where "windowOpen ll hp (clkNow clk)"
      "wakeTypes C (hpNamespace hp) (hpOwner hp) (hpWorkloadTypes hp) [] s = (errs, s1)"
      "stored s' = stored s1" "e = None \<Longrightarrow> errs = []"
proof (cases "windowOpen ll hp (clkNow clk)")
  case True
  obtain errs s1 where run: "wakeTypes C (hpNamespace hp) (hpOwner hp) (hpWorkloadTypes hp) [] s = (errs, s1)"
    by fastforce
  from True assms run have "stored s' = stored s1 \<and> (e = None \<longrightarrow> errs = [])"
    by (auto simp: reconcileHibernatePolicy_def windowOpen_def Let_def split: prod.splits option.splits
        dest!: hp_status)
  with True run opened show thesis by blast
next
  case False
  obtain names errs s1 where run: "hibernateTypes C (hpNamespace hp) (hpAction hp) (hpOwner hp)
      (hpWorkloadTypes hp) [] [] s = ((names, errs), s1)" by (metis prod.collapse)
  from False assms run have "stored s' = stored s1 \<and> (e = None \<longrightarrow> errs = [])"
    by (auto simp: reconcileHibernatePolicy_def windowOpen_def Let_def split: prod.splits option.splits
        dest!: hp_status)
  with False run closed show thesis by blast
qed

lemma reconcile_ok:
  assumes "reconcileHibernatePolicy C ll clk ns n s = ((res, None), s')" "getHibernatePolicy C ns n s = Inr hp"
  shows "stored s' = specPolicy (hpNamespace hp) (hpWorkloadTypes hp)
    (specPass (windowOpen ll hp (clkNow clk)) hp) (stored s)"
  using assms
proof (cases rule: reconcile_split)
  case closed
  then show ?thesis using hibernateTypes_ok by (simp add: specPass_def [abs_def])
next
  case opened
  then show ?thesis using wakeTypes_ok by (simp add: specPass_def [abs_def])
qed

lemma reconcile_any:
  assumes "reconcileHibernatePolicy C ll clk ns n s = ((res, e), s')" "getHibernatePolicy C ns n s = Inr hp"
  shows "stored s' key = stored s key \<or> stored s' key = specPolicy (hpNamespace hp) (hpWorkloadTypes hp)
    (specPass (windowOpen ll hp (clkNow clk)) hp) (stored s) key"
  using assms
proof (cases rule: reconcile_split)
  case closed
  then show ?thesis using hibernateTypes_any by (simp add: specPass_def [abs_def])
next
  case opened
  then show ?thesis using wakeTypes_any by (simp add: specPass_def [abs_def])
qed

end

text \<open>
  Further reconciliations, failing ones included, at any clock on the same side of the windows, while
  the spec stays the same.
\<close>

inductive hpRuns ::
  "('s, 'm) hpClient_scheme \<Rightarrow> (string \<Rightarrow> location option) \<Rightarrow> string \<Rightarrow> string \<Rightarrow> hibernatePolicy \<Rightarrow> bool \<Rightarrow> 's \<Rightarrow> 's \<Rightarrow> bool"
  for C loadLocation ns n hp inWindow where
  hpRuns_none: "hpRuns C loadLocation ns n hp inWindow s s"
| hpRuns_more: "hpRuns C loadLocation ns n hp inWindow s s1 \<Longrightarrow> getHibernatePolicy C ns n s1 = Inr hp1 \<Longrightarrow>
    hpOwner hp1 = hpOwner hp \<Longrightarrow> hpAction hp1 = hpAction hp \<Longrightarrow> hpWorkloadTypes hp1 = hpWorkloadTypes hp \<Longrightarrow>
    windowOpen loadLocation hp1 (clkNow clk) = inWindow \<Longrightarrow>
    reconcileHibernatePolicy C loadLocation clk ns n s1 = (res, s2) \<Longrightarrow>
    hpRuns C loadLocation ns n hp inWindow s s2"

lemma specPolicy_specPass_idem:
  "specPolicy ns wts (specPass b hp) (specPolicy ns wts (specPass b hp) m) = specPolicy ns wts (specPass b hp) m"
  by (auto simp: specPolicy_def option.map_comp comp_def specPass_idem fun_eq_iff)

lemma specPass_spec: "hpOwner hp1 = hpOwner hp \<Longrightarrow> hpAction hp1 = hpAction hp \<Longrightarrow> specPass b hp1 = specPass b hp"
  by (simp add: specPass_def fun_eq_iff)

context hp_api
begin

lemma hpRuns_fixpoint:
  assumes "hpRuns C ll ns n hp b s s'"
    and "specPolicy (hpNamespace hp) (hpWorkloadTypes hp) (specPass b hp) (stored s) = stored s"
  shows "stored s' = stored s"
  using assms
proof (induction rule: hpRuns.induct)
  case (hpRuns_more s s1 hp1 clk res s2)
  have same: "stored s1 = stored s" using hpRuns_more.IH hpRuns_more.prems .
  have "hpNamespace hp1 = hpNamespace hp" using hpRuns_more(3) by (simp add: hpOwner_def)
  then show ?case
    using reconcile_any [of ll clk ns n s1 "fst res" "snd res" s2 hp1] hpRuns_more
    by (auto simp: same fun_eq_iff specPass_spec [OF hpRuns_more(3,4)])
qed simp

end

text \<open>What one pass does to a single workload.\<close>

lemma specPass_foreign:
  "isHibernated w \<Longrightarrow> \<not> ownedBy (wAnnotations w) (hpOwner hp) \<Longrightarrow> specPass b hp k w = w"
  by (simp add: specPass_def specHibernate_def specSleep_def specScaleDown_def specWake_def
      specScaleUp_def specWakeDaemonSet_def)

lemma specPass_child: "isOwnedByDeployment w \<Longrightarrow> specPass b hp ReplicaSet w = w"
  by (simp add: specPass_def specHibernate_def specScaleDown_def specWake_def specScaleUp_def)

section \<open>The reference client has the laws\<close>

lemma memHpClient_calls [simp]:
  "listWorkloads (memHpClient fault) = listWorkloads (memClient fault)"
  "getWorkload (memHpClient fault) = getWorkload (memClient fault)"
  "patchWorkload (memHpClient fault) = patchWorkload (memClient fault)"
  "listHPAs (memHpClient fault) = listHPAs (memClient fault)"
  "patchHPA (memHpClient fault) = patchHPA (memClient fault)"
  by (simp_all add: memHpClient_def client.extend_def)

interpretation memHp: hp_api "memHpClient fault" memStored memStoredHPA for fault
proof (intro hp_api.intro hp_api_axioms.intro)
  show "workload_api (memHpClient fault) memStored memStoredHPA"
    by (rule workload_api_same_calls [OF mem.workload_api_axioms]) simp_all
next
  fix base hp s r s' assume "patchHibernatePolicyStatus (memHpClient fault) base hp s = (r, s')"
  then show "memStored s' = memStored s \<and> memStoredHPA s' = memStoredHPA s"
    by (auto simp: memHpClient_def client.extend_def hpClient.fields_def memStored_def memStoredHPA_def
        split: option.splits)
qed

text \<open>One night and the next morning, evaluated.\<close>

definition nightPass :: "(string \<Rightarrow> kerr option) \<Rightarrow> time \<Rightarrow> hpMemState \<Rightarrow> (result \<times> gerror option) \<times> hpMemState" where
  "nightPass fault t s = reconcileHibernatePolicy (memHpClient fault) (\<lambda>_. Some UTC) (atTime t) ''shop'' ''night'' s"

lemma memHp_policy:
  "map_of (mHibernatePolicies s) (ns, n) = Some hp \<Longrightarrow> getHibernatePolicy (memHpClient fault) ns n s = Inr hp"
  by (simp add: memHpClient_def client.extend_def hpClient.fields_def)

lemma night_policies [simp]:
  "getHibernatePolicy (memHpClient fault) ''shop'' ''night'' shopCluster = Inr nightPolicy"
  "getHibernatePolicy (memHpClient fault) ''shop'' ''night'' sharedCluster = Inr nightPolicy"
  by (simp_all add: memHp_policy shopCluster_def sharedCluster_def)

lemma night_closed: "\<not> windowOpen (\<lambda>_. Some UTC) nightPolicy (clkNow (atTime (19 * hour)))"
  by code_simp

lemma shop_night:
  "case nightPass noFault (19 * hour) shopCluster of ((res, e), s1) \<Rightarrow>
     e = None \<and>
     map_option wReplicas (memStored s1 (Deployment, ''shop'', ''web'')) = Some (Some 2) \<and>
     (case getHibernatePolicy (memHpClient noFault) ''shop'' ''night'' s1 of
        Inl _ \<Rightarrow> False
      | Inr hp1 \<Rightarrow> hpOwner hp1 = hpOwner nightPolicy \<and> hpWorkloadTypes hp1 = [''Deployment'', ''DaemonSet''] \<and>
          windowOpen (\<lambda>_. Some UTC) hp1 (33 * hour)) \<and>
     snd (fst (nightPass noFault (33 * hour) s1)) = None"
  by code_simp

lemma shared_night: "snd (fst (nightPass noFault (19 * hour) sharedCluster)) = None"
  by code_simp

lemma shared_night_fails: "snd (fst (nightPass webPatchFails (19 * hour) sharedCluster)) \<noteq> None"
  by code_simp

section \<open>Properties\<close>

text \<open>
  C5: a reconciliation that reports no error brings every workload of the policy's namespace and
  kinds into the state the specification gives for it (woken inside an availability window,
  hibernated outside), and leaves every other workload of the cluster as it was.
\<close>

theorem hp_reconcile_refines_spec:
  assumes "hp_api C stored storedHPA"
    and "getHibernatePolicy C ns n s = Inr hp"
    and "reconcileHibernatePolicy C loadLocation clk ns n s = ((res, None), s')"
  shows "stored s' = specPolicy (hpNamespace hp) (hpWorkloadTypes hp)
    (specPass (windowOpen loadLocation hp (clkNow clk)) hp) (stored s)"
  by (rule hp_api.reconcile_ok [OF assms(1,3,2)])

theorem hp_reconcile_refines_spec_witness:
  "let s' = snd (nightPass noFault (19 * hour) shopCluster)
   in memStored s' = specPolicy ''shop'' [''Deployment'', ''DaemonSet'']
        (specPass False nightPolicy) (memStored shopCluster) \<and>
      map_option wReplicas (memStored s' (Deployment, ''shop'', ''web'')) = Some (Some 2)"
proof -
  obtain res s1 where r: "nightPass noFault (19 * hour) shopCluster = ((res, None), s1)"
    and n: "map_option wReplicas (memStored s1 (Deployment, ''shop'', ''web'')) = Some (Some 2)"
    using shop_night by (auto split: prod.splits)
  show ?thesis
    using hp_reconcile_refines_spec [OF memHp.hp_api_axioms night_policies(1) r [unfolded nightPass_def]] r n night_closed
    by (simp add: nightPolicy_def Let_def)
qed

text \<open>
  C4: hibernating at night and waking in the morning restores every workload: replica counts, node
  selectors and annotations come back as they were before the policy acted, in every kind, whether
  the policy scaled the workload or not. Workloads outside the policy and workloads another policy
  holds are the same throughout. The one difference is a nil replica count, which returns as 1.
\<close>

theorem hp_hibernate_wake_roundtrip:
  assumes "hp_api C stored storedHPA"
    and "getHibernatePolicy C ns n s = Inr hp" "\<not> windowOpen loadLocation hp (clkNow clk)"
    and "reconcileHibernatePolicy C loadLocation clk ns n s = ((res, None), s1)"
    and "getHibernatePolicy C ns n s1 = Inr hp1" "windowOpen loadLocation hp1 (clkNow clk1)"
    and "reconcileHibernatePolicy C loadLocation clk1 ns n s1 = ((res1, None), s2)"
    and "hpOwner hp1 = hpOwner hp" "hpWorkloadTypes hp1 = hpWorkloadTypes hp"
    and "\<And>k m w. workloadKind k \<in> set (hpWorkloadTypes hp) \<Longrightarrow>
      stored s (k, hpNamespace hp, m) = Some w \<Longrightarrow> fresh (hpOwner hp) w"
  shows "rel_option sameWorkload (stored s key) (stored s2 key)"
proof -
  obtain k ns' m where key: "key = (k, ns', m)" by (cases key)
  have hp1: "hpNamespace hp1 = hpNamespace hp" using assms(8) by (simp add: hpOwner_def)
  have s2: "stored s2 key = (if ns' = hpNamespace hp \<and> workloadKind k \<in> set (hpWorkloadTypes hp)
      then map_option (\<lambda>w. specWake k (hpOwner hp) (specHibernate k (hpAction hp) (hpOwner hp) w)) (stored s key)
      else stored s key)"
    using assms hp1 hp_api.reconcile_ok [OF assms(1,4,2)] hp_api.reconcile_ok [OF assms(1,7,5)]
    by (simp add: specPolicy_def specPass_def key option.map_comp comp_def)
  show ?thesis
  proof (cases "stored s key")
    case (Some w)
    then have "fresh (hpOwner hp) w" if "ns' = hpNamespace hp" "workloadKind k \<in> set (hpWorkloadTypes hp)"
      using that assms(10) [of k m w] key by simp
    then show ?thesis
      unfolding s2 Some using specWake_specHibernate [of "hpOwner hp" w] by simp
  qed (use s2 in simp)
qed

theorem hp_hibernate_wake_roundtrip_witness:
  "let s1 = snd (nightPass noFault (19 * hour) shopCluster); s2 = snd (nightPass noFault (33 * hour) s1)
   in map_option wReplicas (memStored s1 (Deployment, ''shop'', ''web'')) = Some (Some 2) \<and>
      (\<forall>key. rel_option sameWorkload (memStored shopCluster key) (memStored s2 key))"
proof -
  obtain res s1 res2 s2 hp1 where r: "nightPass noFault (19 * hour) shopCluster = ((res, None), s1)"
      "nightPass noFault (33 * hour) s1 = ((res2, None), s2)"
    and hp1: "getHibernatePolicy (memHpClient noFault) ''shop'' ''night'' s1 = Inr hp1"
      "windowOpen (\<lambda>_. Some UTC) hp1 (clkNow (atTime (33 * hour)))"
      "hpOwner hp1 = hpOwner nightPolicy" "hpWorkloadTypes hp1 = hpWorkloadTypes nightPolicy"
    and n: "map_option wReplicas (memStored s1 (Deployment, ''shop'', ''web'')) = Some (Some 2)"
    using shop_night by (auto simp: nightPolicy_def atTime_def prod_eq_iff split: prod.splits sum.splits)
  have plain: "fresh (hpOwner nightPolicy) w" if "memStored shopCluster (k, hpNamespace nightPolicy, m) = Some w" for k m w
    using that by (auto simp: memStored_def shopCluster_def nightPolicy_def plainWorkload_def fresh_def heldBy_def
        isHibernated_def annotationTrueValue_def currentReplicas_def wellFormedSelector_def asciiString_def byte_def
        split: if_splits)
  have "rel_option sameWorkload (memStored shopCluster key) (memStored s2 key)" for key
    by (rule hp_hibernate_wake_roundtrip [OF memHp.hp_api_axioms night_policies(1) night_closed
          r(1) [unfolded nightPass_def] hp1(1,2) r(2) [unfolded nightPass_def] hp1(3,4) plain])
  then show ?thesis using r n by (simp add: Let_def)
qed

text \<open>
  C26: whatever happens in a reconciliation, errors of the API included, it leaves alone every
  workload of another namespace, of a kind the policy does not list, hibernated by another policy,
  or (for ReplicaSets) owned by a Deployment.
\<close>

theorem hp_reconcile_frame:
  assumes "hp_api C stored storedHPA"
    and "getHibernatePolicy C ns n s = Inr hp"
    and "reconcileHibernatePolicy C loadLocation clk ns n s = ((res, e), s')"
    and "stored s (k, ns', m) = Some w"
    and "ns' \<noteq> hpNamespace hp \<or> workloadKind k \<notin> set (hpWorkloadTypes hp) \<or>
      isHibernated w \<and> \<not> ownedBy (wAnnotations w) (hpOwner hp) \<or> k = ReplicaSet \<and> isOwnedByDeployment w"
  shows "stored s' (k, ns', m) = Some w"
  using hp_api.reconcile_any [OF assms(1,3,2), of "(k, ns', m)"] assms(4,5)
  by (auto simp: specPolicy_def specPass_foreign specPass_child)

lemma sharedCluster_stored:
  "memStored sharedCluster (Deployment, ''shop'', ''web'') = Some (plainWorkload ''web'' (Some 5) None)"
  "memStored sharedCluster (Deployment, ''shop'', ''batch'') = Some (heldDeployment ''batch'' ''weekend'' 6)"
  "memStored sharedCluster (Deployment, ''shop'', ''api'') = Some (heldDeployment ''api'' ''night'' 4)"
proof -
  have "nameWorkload (Deployment, ''shop'', n) (plainWorkload n r sel) = plainWorkload n r sel"
    "nameWorkload (Deployment, ''shop'', n) (heldDeployment n p q) = heldDeployment n p q" for n r sel p q
    by (simp_all add: plainWorkload_def heldDeployment_def scaledDown_def currentReplicas_def)
  then show
    "memStored sharedCluster (Deployment, ''shop'', ''web'') = Some (plainWorkload ''web'' (Some 5) None)"
    "memStored sharedCluster (Deployment, ''shop'', ''batch'') = Some (heldDeployment ''batch'' ''weekend'' 6)"
    "memStored sharedCluster (Deployment, ''shop'', ''api'') = Some (heldDeployment ''api'' ''night'' 4)"
    by (simp_all add: memStored_def sharedCluster_def del: nameWorkload.simps)
qed

lemma nightPolicy_simps:
  "hpNamespace nightPolicy = ''shop''" "hpWorkloadTypes nightPolicy = [''Deployment'', ''DaemonSet'']"
  "MaxReplicas (hpAction nightPolicy) = Some 2"
  by (simp_all add: nightPolicy_def)

theorem hp_reconcile_frame_witness:
  "let r = nightPass webPatchFails (19 * hour) sharedCluster
   in snd (fst r) \<noteq> None \<and>
      memStored (snd r) (Deployment, ''shop'', ''batch'') = Some (heldDeployment ''batch'' ''weekend'' 6)"
proof -
  obtain res e s1 where r: "nightPass webPatchFails (19 * hour) sharedCluster = ((res, e), s1)" by (metis prod.collapse)
  have foreign: "isHibernated (heldDeployment ''batch'' ''weekend'' 6)"
    "\<not> ownedBy (wAnnotations (heldDeployment ''batch'' ''weekend'' 6)) (hpOwner nightPolicy)"
    by code_simp+
  have "memStored s1 (Deployment, ''shop'', ''batch'') = Some (heldDeployment ''batch'' ''weekend'' 6)"
    by (rule hp_reconcile_frame [where k = Deployment and ns' = "''shop''" and m = "''batch''",
          OF memHp.hp_api_axioms night_policies(2) r [unfolded nightPass_def]])
      (use foreign in \<open>simp_all add: sharedCluster_stored\<close>)
  then show ?thesis using shared_night_fails r by (simp add: Let_def)
qed

text \<open>
  Outside the windows a successful reconciliation of a policy with a cap leaves every scalable
  workload it governs, that was not hibernated before, with the smaller of its replica count and the
  cap; it holds the workload afterwards exactly when the count was above the cap. Replica counts are
  compared as signed 32-bit integers.
\<close>

theorem hp_cap:
  assumes "hp_api C stored storedHPA"
    and "getHibernatePolicy C ns n s = Inr hp" "\<not> windowOpen loadLocation hp (clkNow clk)"
    and "reconcileHibernatePolicy C loadLocation clk ns n s = ((res, None), s')"
    and "MaxReplicas (hpAction hp) = Some m"
    and "stored s (k, hpNamespace hp, x) = Some w" "workloadKind k \<in> set (hpWorkloadTypes hp)"
    and "k \<noteq> DaemonSet" "\<not> isHibernated w" "\<not> (k = ReplicaSet \<and> isOwnedByDeployment w)"
  shows "\<exists>w'. stored s' (k, hpNamespace hp, x) = Some w' \<and>
    sint (currentReplicas w') = min (sint (currentReplicas w)) (sint m) \<and>
    (heldBy (hpOwner hp) w' \<longleftrightarrow> sint m < sint (currentReplicas w))"
proof -
  have s': "stored s' (k, hpNamespace hp, x) = Some (specHibernate k (hpAction hp) (hpOwner hp) w)"
    using hp_api.reconcile_ok [OF assms(1,4,2)] assms(3,6,7) by (simp add: specPolicy_def specPass_def)
  have "currentReplicas (scaledDown owner m w) = m" for owner
    by (simp add: scaledDown_def currentReplicas_def)
  then show ?thesis using s' assms(5,8-10) by (auto simp: specHibernate_def specScaleDown_def heldBy_def)
qed

theorem hp_cap_witness:
  "let s' = snd (nightPass noFault (19 * hour) sharedCluster)
   in \<exists>w'. memStored s' (Deployment, ''shop'', ''web'') = Some w' \<and>
        sint (currentReplicas w') = 2 \<and> heldBy (hpOwner nightPolicy) w'"
proof -
  let ?w = "plainWorkload ''web'' (Some 5) None"
  obtain res s1 where r: "nightPass noFault (19 * hour) sharedCluster = ((res, None), s1)"
    using shared_night by (metis prod.collapse)
  have "\<exists>w'. memStored s1 (Deployment, hpNamespace nightPolicy, ''web'') = Some w' \<and>
      sint (currentReplicas w') = min (sint (currentReplicas ?w)) (sint (2 :: 32 word)) \<and>
      (heldBy (hpOwner nightPolicy) w' \<longleftrightarrow> sint (2 :: 32 word) < sint (currentReplicas ?w))"
    by (rule hp_cap [where k = Deployment and x = "''web''" and m = 2,
          OF memHp.hp_api_axioms night_policies(2) night_closed r [unfolded nightPass_def]])
      (simp_all add: nightPolicy_simps sharedCluster_stored plainWorkload_def isHibernated_def annotationTrueValue_def)
  then show ?thesis by (simp add: r plainWorkload_def currentReplicas_def nightPolicy_def Let_def)
qed

text \<open>
  C27: a workload the policy already holds is not changed again outside the windows, whatever the
  action has become since: a cap that was lowered or raised in the spec takes effect only after the
  next wake-up.
\<close>

theorem hp_held_workload_unchanged:
  assumes "hp_api C stored storedHPA"
    and "getHibernatePolicy C ns n s = Inr hp" "\<not> windowOpen loadLocation hp (clkNow clk)"
    and "reconcileHibernatePolicy C loadLocation clk ns n s = ((res, e), s')"
    and "stored s (k, ns', x) = Some w" "heldBy (hpOwner hp) w"
  shows "stored s' (k, ns', x) = Some w"
  using hp_api.reconcile_any [OF assms(1,4,2), of "(k, ns', x)"] assms(3,5,6)
  by (auto simp: specPolicy_def specPass_def heldBy_def specHibernate_def specSleep_def specScaleDown_def)

theorem hp_held_workload_unchanged_witness:
  "let s' = snd (nightPass noFault (19 * hour) sharedCluster)
   in memStored s' (Deployment, ''shop'', ''api'') = Some (heldDeployment ''api'' ''night'' 4) \<and>
      MaxReplicas (hpAction nightPolicy) = Some 2 \<and> wReplicas (heldDeployment ''api'' ''night'' 4) = Some 4"
proof -
  obtain res e s1 where r: "nightPass noFault (19 * hour) sharedCluster = ((res, e), s1)" by (metis prod.collapse)
  have "heldBy (hpOwner nightPolicy) (heldDeployment ''api'' ''night'' 4)" by code_simp
  then have "memStored s1 (Deployment, ''shop'', ''api'') = Some (heldDeployment ''api'' ''night'' 4)"
    by (intro hp_held_workload_unchanged [where k = Deployment and ns' = "''shop''" and x = "''api''",
          OF memHp.hp_api_axioms night_policies(2) night_closed r [unfolded nightPass_def]] sharedCluster_stored)
  then show ?thesis by (simp add: r nightPolicy_def heldDeployment_def scaledDown_def Let_def)
qed

text \<open>
  C28: the requeue delay is positive and at most five minutes, and the controller never sleeps
  past the end of the open window or past the next window start.
\<close>

theorem hp_requeue_bounds:
  "0 < windowRequeue loadLocation windows now inWindow windowEnd t \<and>
   windowRequeue loadLocation windows now inWindow windowEnd t \<le> 5 * minute \<and>
   (inWindow \<and> t < windowEnd \<longrightarrow> t + windowRequeue loadLocation windows now inWindow windowEnd t \<le> windowEnd) \<and>
   (\<not> inWindow \<and> t < nextAvailabilityWindowStart loadLocation windows now \<and>
      nextAvailabilityWindowStart loadLocation windows now \<noteq> zeroTime \<longrightarrow>
      t + windowRequeue loadLocation windows now inWindow windowEnd t
        \<le> nextAvailabilityWindowStart loadLocation windows now)"
  by (auto simp: windowRequeue_def Let_def windowCheckInterval_def time_Sub_def go_defs)

theorem hp_requeue_bounds_witness:
  "19 * hour + windowRequeue (\<lambda>_. Some UTC) [officeHours] (19 * hour) False zeroTime (32 * hour - minute)
     \<le> 32 * hour \<and>
   windowRequeue (\<lambda>_. Some UTC) [officeHours] (19 * hour) False zeroTime (32 * hour - minute) = minute"
proof -
  have "nextAvailabilityWindowStart (\<lambda>_. Some UTC) [officeHours] (19 * hour) = 32 * hour"
    "32 * hour \<noteq> zeroTime" "32 * hour - minute < 32 * hour"
    "windowRequeue (\<lambda>_. Some UTC) [officeHours] (19 * hour) False zeroTime (32 * hour - minute) = minute"
    by code_simp+
  then show ?thesis
    using hp_requeue_bounds [of "\<lambda>_. Some UTC" "[officeHours]" "19 * hour" False zeroTime "32 * hour - minute"]
    by (simp add: go_defs)
qed

text \<open>
  C13: The controller settles after one pass. Once a reconciliation has ended without error, no later
  one changes a workload, as long as the spec is the same and the clock stays on the same side of the
  windows: not the runs every five minutes, not those its own status updates trigger, and not those
  that fail half way.
\<close>

theorem hp_settles:
  assumes "hp_api C stored storedHPA"
    and "getHibernatePolicy C ns n s = Inr hp"
    and "reconcileHibernatePolicy C loadLocation clk ns n s = ((res, None), s1)"
    and "hpRuns C loadLocation ns n hp (windowOpen loadLocation hp (clkNow clk)) s1 s2"
  shows "stored s2 = stored s1"
  using hp_api.hpRuns_fixpoint [OF assms(1,4)] hp_api.reconcile_ok [OF assms(1,3,2)]
  by (simp add: specPolicy_specPass_idem)

lemma shop_night_again:
  "case nightPass noFault (19 * hour) shopCluster of ((res, e), s1) \<Rightarrow>
     e = None \<and>
     (case getHibernatePolicy (memHpClient noFault) ''shop'' ''night'' s1 of
        Inl _ \<Rightarrow> False
      | Inr hp1 \<Rightarrow> hpOwner hp1 = hpOwner nightPolicy \<and> hpAction hp1 = hpAction nightPolicy \<and>
          hpWorkloadTypes hp1 = [''Deployment'', ''DaemonSet''] \<and> \<not> windowOpen (\<lambda>_. Some UTC) hp1 (20 * hour))"
  by code_simp

theorem hp_settles_witness:
  "let s1 = snd (nightPass noFault (19 * hour) shopCluster)
   in memStored (snd (nightPass noFault (20 * hour) s1)) = memStored s1"
proof -
  obtain res s1 hp1 where r: "nightPass noFault (19 * hour) shopCluster = ((res, None), s1)"
    and p: "getHibernatePolicy (memHpClient noFault) ''shop'' ''night'' s1 = Inr hp1" "hpOwner hp1 = hpOwner nightPolicy"
      "hpAction hp1 = hpAction nightPolicy" "hpWorkloadTypes hp1 = [''Deployment'', ''DaemonSet'']"
      "\<not> windowOpen (\<lambda>_. Some UTC) hp1 (clkNow (atTime (20 * hour)))"
    using shop_night_again by (auto split: prod.splits sum.splits simp: atTime_def)
  obtain res2 s2 where r2: "nightPass noFault (20 * hour) s1 = (res2, s2)" by fastforce
  have "hpRuns (memHpClient noFault) (\<lambda>_. Some UTC) ''shop'' ''night'' nightPolicy False s1 s2"
    by (rule hpRuns_more [OF hpRuns_none p(1-3) _ _ r2 [unfolded nightPass_def]]) (simp_all add: p(4,5) nightPolicy_def)
  then show ?thesis
    using hp_settles [OF memHp.hp_api_axioms night_policies(1) r [unfolded nightPass_def]] night_closed by (simp add: r r2)
qed

end
