(* ===== verification/Cluster_Policy.thy ===== *)
theory Cluster_Policy
  imports Hibernation
begin

text \<open>
  The ClusterHibernatePolicy controller, \<open>internal/controller/clusterhibernatepolicy_controller.go\<close>:
  which workloads a policy governs (\<open>collectWorkloads\<close>), the hibernation and wake-up of one workload,
  and \<open>Reconcile\<close>. The branches of \<open>hibernateWorkload\<close> and \<open>wakeWorkload\<close> for Deployments,
  StatefulSets and ReplicaSets are the same code on different types and are one branch here. The
  changes to an object are those of \<open>Hibernation\<close>.
\<close>

section \<open>Which kinds\<close>

record clusterHibernatePolicy =
  chpName :: string
  chpAvailabilityWindows :: "availabilityWindow list"
  chpAction :: hibernateAction
  chpIncludedResources :: "string list"
  chpExcludedResources :: "string list"
  chpHibernatedWorkloads :: "string list"
  chpConditions :: "condition list"

record workloadRef =
  rNamespace :: string
  rKind :: string
  rName :: string

text \<open>The set of kinds, as its elements.\<close>

definition workloadKindFilter :: "string list \<Rightarrow> string set" where
  "workloadKindFilter workloadTypes = fold insert workloadTypes {}"

definition kindAllowed :: "workloadRef \<Rightarrow> clusterHibernatePolicy \<Rightarrow> bool" where
  "kindAllowed ref spec =
     (if chpIncludedResources spec \<noteq> [] then rKind ref \<in> workloadKindFilter (chpIncludedResources spec)
      else if chpExcludedResources spec \<noteq> [] then rKind ref \<notin> workloadKindFilter (chpExcludedResources spec)
      else True)"

definition AnnotationClusterHibernatePolicy :: string where
  "AnnotationClusterHibernatePolicy = ''greencosts.hstr.nl/clusterhibernatepolicy''"

definition refString :: "workloadRef \<Rightarrow> string" where
  "refString r = rNamespace r @ ''/'' @ rKind r @ ''/'' @ rName r"

section \<open>Collecting workloads\<close>

record 's chpClient = "'s client" +
  listNamespaces :: "'s \<Rightarrow> kerr + (string \<times> annotations) list"
  getClusterHibernatePolicy :: "string \<Rightarrow> 's \<Rightarrow> kerr + clusterHibernatePolicy"
  patchClusterHibernatePolicyStatus ::
    "clusterHibernatePolicy \<Rightarrow> clusterHibernatePolicy \<Rightarrow> 's \<Rightarrow> kerr option \<times> 's"

definition refOf :: "wkind \<Rightarrow> string \<Rightarrow> workload \<Rightarrow> workloadRef" where
  "refOf k namespace w = \<lparr>rNamespace = namespace, rKind = workloadKind k, rName = wName w\<rparr>"

text \<open>The kinds in the order both functions list them.\<close>

definition collectOrder :: "wkind list" where
  "collectOrder = [Deployment, StatefulSet, DaemonSet, ReplicaSet]"

text \<open>One of the four blocks of \<open>allWorkloadsInNamespace\<close>: its loop over the listed items.\<close>

fun namespaceItems :: "wkind \<Rightarrow> string \<Rightarrow> string \<Rightarrow> workload list \<Rightarrow> workloadRef list \<Rightarrow> workloadRef list" where
  "namespaceItems k namespace policyName [] refs = refs"
| "namespaceItems k namespace policyName (w # ws) refs =
     (if k = ReplicaSet \<and> isOwnedByDeployment w then namespaceItems k namespace policyName ws refs
      else let annVal = ann (wAnnotations w) AnnotationClusterHibernatePolicy in
        if annVal \<noteq> '''' \<and> annVal \<noteq> policyName then namespaceItems k namespace policyName ws refs
        else namespaceItems k namespace policyName ws (refs @ [refOf k namespace w]))"

fun namespaceBlocks ::
  "('s, 'm) client_scheme \<Rightarrow> string \<Rightarrow> string \<Rightarrow> 's \<Rightarrow> wkind list \<Rightarrow> workloadRef list \<Rightarrow>
     gerror + workloadRef list" where
  "namespaceBlocks C namespace policyName s [] refs = Inr refs"
| "namespaceBlocks C namespace policyName s (k # ks) refs =
     (case listWorkloads C k (Some namespace) s of
        Inl e \<Rightarrow> Inl (Errorf (''listing '' @ workloadKind k @ ''s in %q'') [namespace] (Api e))
      | Inr ws \<Rightarrow> namespaceBlocks C namespace policyName s ks (namespaceItems k namespace policyName ws refs))"

definition allWorkloadsInNamespace ::
  "('s, 'm) client_scheme \<Rightarrow> string \<Rightarrow> string \<Rightarrow> 's \<Rightarrow> gerror + workloadRef list" where
  "allWorkloadsInNamespace C namespace policyName s =
     namespaceBlocks C namespace policyName s collectOrder []"

text \<open>The closure \<open>add\<close> over \<open>seen\<close> and \<open>refs\<close>.\<close>

definition addRef ::
  "clusterHibernatePolicy \<Rightarrow> workloadRef \<Rightarrow> string list \<times> workloadRef list \<Rightarrow> string list \<times> workloadRef list" where
  "addRef spec ref acc =
     (if \<not> kindAllowed ref spec then acc
      else let (seen, refs) = acc in
        if refString ref \<notin> set seen then (refString ref # seen, refs @ [ref]) else acc)"

fun collectNamespaces ::
  "('s, 'm) client_scheme \<Rightarrow> string \<Rightarrow> clusterHibernatePolicy \<Rightarrow> 's \<Rightarrow> (string \<times> annotations) list \<Rightarrow>
     string list \<times> workloadRef list \<Rightarrow> gerror + string list \<times> workloadRef list" where
  "collectNamespaces C policyName spec s [] acc = Inr acc"
| "collectNamespaces C policyName spec s ((name, a) # nss) acc =
     (if ann a AnnotationClusterHibernatePolicy \<noteq> policyName then collectNamespaces C policyName spec s nss acc
      else case allWorkloadsInNamespace C name policyName s of
             Inl e \<Rightarrow> Inl e
           | Inr nsRefs \<Rightarrow> collectNamespaces C policyName spec s nss (fold (addRef spec) nsRefs acc))"

text \<open>One of the blocks for individually annotated workloads.\<close>

fun annotatedItems ::
  "wkind \<Rightarrow> string \<Rightarrow> clusterHibernatePolicy \<Rightarrow> workload list \<Rightarrow> string list \<times> workloadRef list \<Rightarrow>
     string list \<times> workloadRef list" where
  "annotatedItems k policyName spec [] acc = acc"
| "annotatedItems k policyName spec (w # ws) acc =
     (if k = ReplicaSet \<and> isOwnedByDeployment w then annotatedItems k policyName spec ws acc
      else if ann (wAnnotations w) AnnotationClusterHibernatePolicy = policyName
      then annotatedItems k policyName spec ws (addRef spec (refOf k (wNamespace w) w) acc)
      else annotatedItems k policyName spec ws acc)"

fun annotatedBlocks ::
  "('s, 'm) client_scheme \<Rightarrow> string \<Rightarrow> clusterHibernatePolicy \<Rightarrow> 's \<Rightarrow> wkind list \<Rightarrow>
     string list \<times> workloadRef list \<Rightarrow> gerror + string list \<times> workloadRef list" where
  "annotatedBlocks C policyName spec s [] acc = Inr acc"
| "annotatedBlocks C policyName spec s (k # ks) acc =
     (case listWorkloads C k None s of
        Inl e \<Rightarrow> Inl (Errorf (''listing '' @ workloadKind k @ ''s'') [] (Api e))
      | Inr ws \<Rightarrow> annotatedBlocks C policyName spec s ks (annotatedItems k policyName spec ws acc))"

definition collectWorkloads ::
  "('s, 'm) chpClient_scheme \<Rightarrow> string \<Rightarrow> clusterHibernatePolicy \<Rightarrow> 's \<Rightarrow> gerror + workloadRef list" where
  "collectWorkloads C policyName spec s =
     (case listNamespaces C s of
        Inl e \<Rightarrow> Inl (Errorf ''listing namespaces'' [] (Api e))
      | Inr nss \<Rightarrow>
          (case collectNamespaces C policyName spec s nss ([], []) of
             Inl e \<Rightarrow> Inl e
           | Inr acc \<Rightarrow>
               (case annotatedBlocks C policyName spec s collectOrder acc of
                  Inl e \<Rightarrow> Inl e
                | Inr (seen, refs) \<Rightarrow> Inr refs)))"

text \<open>The watch handler: an event on an annotated object reconciles the policy it names.\<close>

definition annotationMapper :: "annotations \<Rightarrow> string list" where
  "annotationMapper a =
     (let name = ann a AnnotationClusterHibernatePolicy in if name = '''' then [] else [name])"

section \<open>One workload\<close>

definition kindOf :: "string \<Rightarrow> wkind option" where
  "kindOf kind =
     (if kind = ''Deployment'' then Some Deployment
      else if kind = ''StatefulSet'' then Some StatefulSet
      else if kind = ''DaemonSet'' then Some DaemonSet
      else if kind = ''ReplicaSet'' then Some ReplicaSet
      else None)"

definition ignoreNotFound :: "kerr \<Rightarrow> gerror option" where
  "ignoreNotFound e = (if e = NotFound then None else Some (Api e))"

definition marshalNodeSelector :: "nodeSelector \<Rightarrow> string" where
  "marshalNodeSelector ns = jsonMarshal ns"

definition unmarshalNodeSelector :: "string \<Rightarrow> nodeSelector option" where
  "unmarshalNodeSelector s = (if s = '''' then Some None else jsonUnmarshal s)"

definition hibernateScalable ::
  "('s, 'm) client_scheme \<Rightarrow> wkind \<Rightarrow> workloadRef \<Rightarrow> hibernateAction \<Rightarrow> hibernationOwner \<Rightarrow> 's \<Rightarrow>
     (bool \<times> gerror option) \<times> 's" where
  "hibernateScalable C k ref action owner s =
     (case getWorkload C k (rNamespace ref) (rName ref) s of
        Inl e \<Rightarrow> ((False, ignoreNotFound e), s)
      | Inr d \<Rightarrow>
          if isHibernated d then
            (if \<not> ownedBy (wAnnotations d) owner then ((False, None), s)
             else case suspendHPAForAction C (rNamespace ref) (workloadKind k) (rName ref) action s of
                    (Some e, s') \<Rightarrow> ((True, Some e), s')
                  | (None, s') \<Rightarrow> ((True, None), s'))
          else
            (let (target, shouldScale) = computeTargetReplicas action (currentReplicas d) in
             if \<not> shouldScale then ((False, None), s)
             else case patchWorkload C k d (scaledDown owner target d) s of
                    (Some e, s') \<Rightarrow> ((False, Some (Api e)), s')
                  | (None, s') \<Rightarrow>
                      (case suspendHPA C (rNamespace ref) (workloadKind k) (rName ref) target s' of
                         (Some e, s'') \<Rightarrow> ((True, Some e), s'')
                       | (None, s'') \<Rightarrow> ((True, None), s''))))"

definition sleptByRef :: "hibernationOwner \<Rightarrow> workload \<Rightarrow> workload" where
  "sleptByRef owner ds =
     ds\<lparr>wAnnotations := markHibernated
          ((wAnnotations ds)(annotationOriginalNodeSelector \<mapsto> marshalNodeSelector (wNodeSelector ds))) owner,
        wNodeSelector := Some [(hibernateNodeSelectorKey, annotationTrueValue)]\<rparr>"

definition hibernateWorkload ::
  "('s, 'm) client_scheme \<Rightarrow> workloadRef \<Rightarrow> hibernateAction \<Rightarrow> hibernationOwner \<Rightarrow> 's \<Rightarrow>
     (bool \<times> gerror option) \<times> 's" where
  "hibernateWorkload C ref action owner s =
     (case kindOf (rKind ref) of
        None \<Rightarrow> ((False, None), s)
      | Some DaemonSet \<Rightarrow>
          if \<not> SleepDaemonSet action then ((False, None), s)
          else (case getWorkload C DaemonSet (rNamespace ref) (rName ref) s of
                  Inl e \<Rightarrow> ((False, ignoreNotFound e), s)
                | Inr ds \<Rightarrow>
                    if isHibernated ds then
                      (if \<not> ownedBy (wAnnotations ds) owner then ((False, None), s) else ((True, None), s))
                    else (case patchWorkload C DaemonSet ds (sleptByRef owner ds) s of
                            (e, s') \<Rightarrow> ((True, map_option Api e), s')))
      | Some k \<Rightarrow> hibernateScalable C k ref action owner s)"

definition wokenByRef :: "workload \<Rightarrow> workload" where
  "wokenByRef ds =
     ds\<lparr>wNodeSelector := (case unmarshalNodeSelector (ann (wAnnotations ds) annotationOriginalNodeSelector) of
          None \<Rightarrow> None | Some m \<Rightarrow> m),
        wAnnotations := (clearHibernated (wAnnotations ds))(annotationOriginalNodeSelector := None)\<rparr>"

definition wakeWorkload ::
  "('s, 'm) client_scheme \<Rightarrow> workloadRef \<Rightarrow> hibernationOwner \<Rightarrow> 's \<Rightarrow> gerror option \<times> 's" where
  "wakeWorkload C ref owner s =
     (case kindOf (rKind ref) of
        None \<Rightarrow> (None, s)
      | Some k \<Rightarrow>
          (case getWorkload C k (rNamespace ref) (rName ref) s of
             Inl e \<Rightarrow> (ignoreNotFound e, s)
           | Inr d \<Rightarrow>
               if \<not> isHibernated d then (None, s)
               else if \<not> ownedBy (wAnnotations d) owner then (None, s)
               else if k = DaemonSet then
                 (case patchWorkload C k d (wokenByRef d) s of (e, s') \<Rightarrow> (map_option Api e, s'))
               else (case restoreHPA C (rNamespace ref) (workloadKind k) (rName ref) s of
                       (Some e, s') \<Rightarrow> (Some e, s')
                     | (None, s') \<Rightarrow>
                         (case patchWorkload C k d (scaledUp d) s' of (e, s'') \<Rightarrow> (map_option Api e, s'')))))"

section \<open>Reconcile\<close>

definition chpOwner :: "clusterHibernatePolicy \<Rightarrow> hibernationOwner" where
  "chpOwner chp = \<lparr>oKind = ''ClusterHibernatePolicy'', oNamespace = '''', oName = chpName chp\<rparr>"

fun reconcileRefs ::
  "('s, 'm) client_scheme \<Rightarrow> bool \<Rightarrow> hibernateAction \<Rightarrow> hibernationOwner \<Rightarrow> workloadRef list \<Rightarrow>
     string list \<Rightarrow> gerror list \<Rightarrow> 's \<Rightarrow> (string list \<times> gerror list) \<times> 's" where
  "reconcileRefs C inWindow action owner [] hibernated errs s = ((hibernated, errs), s)"
| "reconcileRefs C inWindow action owner (ref # refs) hibernated errs s =
     (if inWindow then
        (case wakeWorkload C ref owner s of
           (Some e, s') \<Rightarrow> reconcileRefs C inWindow action owner refs hibernated
             (errs @ [Errorf ''waking %s'' [refString ref] e]) s'
         | (None, s') \<Rightarrow> reconcileRefs C inWindow action owner refs hibernated errs s')
      else if \<not> actionSet action then reconcileRefs C inWindow action owner refs hibernated errs s
      else
        (case hibernateWorkload C ref action owner s of
           ((wasHibernated, Some e), s') \<Rightarrow> reconcileRefs C inWindow action owner refs hibernated
             (errs @ [Errorf ''hibernating %s'' [refString ref] e]) s'
         | ((wasHibernated, None), s') \<Rightarrow> reconcileRefs C inWindow action owner refs
             (if wasHibernated then hibernated @ [refString ref] else hibernated) errs s'))"

definition reconcileClusterHibernatePolicy ::
  "('s, 'm) chpClient_scheme \<Rightarrow> (string \<Rightarrow> location option) \<Rightarrow> clock \<Rightarrow> string \<Rightarrow> 's \<Rightarrow>
     (result \<times> gerror option) \<times> 's" where
  "reconcileClusterHibernatePolicy C loadLocation clk reqName s =
     (case getClusterHibernatePolicy C reqName s of
        Inl NotFound \<Rightarrow> ((noRequeue, None), s)
      | Inl e \<Rightarrow> ((noRequeue, Some (Errorf ''fetching ClusterHibernatePolicy %s'' [reqName] (Api e))), s)
      | Inr chp \<Rightarrow>
          (let owner = chpOwner chp;
               now = clkNow clk;
               (inWindow, windowEnd) = isInAvailabilityWindow loadLocation (chpAvailabilityWindows chp) now
           in case collectWorkloads C (chpName chp) chp s of
                Inl e \<Rightarrow> ((noRequeue, Some (Errorf ''collecting workloads for ClusterHibernatePolicy %s''
                            [chpName chp] e)), s)
              | Inr refs \<Rightarrow>
                  (let ((hibernated, errs), s1) = reconcileRefs C inWindow (chpAction chp) owner refs [] [] s;
                       chp' = chp\<lparr>chpHibernatedWorkloads := (if inWindow then [] else hibernated),
                                  chpConditions := setCondition (chpConditions chp)
                                    \<lparr>cType = conditionTypeReady, cStatus = ConditionTrue,
                                     cReason = ''Reconciled'',
                                     cMessage = Itoa (int (length refs)) @ '' workload(s) governed by this policy'',
                                     cLastTransitionTime = clkStatus clk\<rparr>\<rparr>
                   in case patchClusterHibernatePolicyStatus C chp chp' s1 of
                        (Some e, s2) \<Rightarrow>
                          ((noRequeue, Some (Errorf ''patching ClusterHibernatePolicy status'' [] (Api e))), s2)
                      | (None, s2) \<Rightarrow>
                          ((requeueAfter (windowRequeue loadLocation (chpAvailabilityWindows chp) now inWindow
                              windowEnd (clkUntil clk)), errorsJoin errs), s2))))"

section \<open>Specification\<close>

text \<open>The references of the stored workloads that satisfy a predicate.\<close>

definition refsWhere :: "(wkey \<rightharpoonup> workload) \<Rightarrow> (wkind \<Rightarrow> string \<Rightarrow> workload \<Rightarrow> bool) \<Rightarrow> workloadRef set" where
  "refsWhere m P = {refOf k ns w | k ns n w. m (k, ns, n) = Some w \<and> P k ns w}"

text \<open>What the blocks look for: no child of a Deployment, an allowed kind, and which policy is named.\<close>

definition candidate :: "clusterHibernatePolicy \<Rightarrow> wkind \<Rightarrow> string \<Rightarrow> workload \<Rightarrow> bool" where
  "candidate chp k ns w \<longleftrightarrow> kindAllowed (refOf k ns w) chp \<and> \<not> (k = ReplicaSet \<and> isOwnedByDeployment w)"

definition policyOf :: "workload \<Rightarrow> string" where
  "policyOf w = ann (wAnnotations w) AnnotationClusterHibernatePolicy"

text \<open>
  A policy governs a workload of an allowed kind, not a ReplicaSet of a Deployment, that names the
  policy itself, or names none in a namespace that names it.
\<close>

definition governs :: "clusterHibernatePolicy \<Rightarrow> (string \<times> annotations) set \<Rightarrow> wkind \<Rightarrow> string \<Rightarrow> workload \<Rightarrow> bool" where
  "governs chp nss k ns w \<longleftrightarrow>
     candidate chp k ns w \<and>
     (policyOf w = chpName chp \<or>
      policyOf w = '''' \<and> (\<exists>a. (ns, a) \<in> nss \<and> ann a AnnotationClusterHibernatePolicy = chpName chp))"

definition slashFree :: "workloadRef \<Rightarrow> bool" where
  "slashFree r \<longleftrightarrow> CHR ''/'' \<notin> set (rNamespace r) \<and> CHR ''/'' \<notin> set (rKind r)"

section \<open>Collection is exact\<close>

lemma slash_split: "a @ CHR ''/'' # b = a' @ CHR ''/'' # b' \<Longrightarrow> CHR ''/'' \<notin> set a \<Longrightarrow> CHR ''/'' \<notin> set a' \<Longrightarrow>
    a = a' \<and> b = b'"
  by (induction a arbitrary: a') (auto simp: Cons_eq_append_conv append_eq_Cons_conv)

lemma refString_inj: "slashFree r \<Longrightarrow> slashFree r' \<Longrightarrow> refString r = refString r' \<Longrightarrow> r = r'"
  by (auto simp: refString_def slashFree_def dest!: slash_split)

definition collected :: "string list \<times> workloadRef list \<Rightarrow> workloadRef set \<Rightarrow> bool" where
  "collected acc R \<longleftrightarrow> set (snd acc) = R \<and> set (fst acc) = refString ` R \<and> distinct (snd acc) \<and> (\<forall>r \<in> R. slashFree r)"

lemma collected_addRef:
  assumes "collected acc R" "slashFree r"
  shows "collected (addRef spec r acc) (R \<union> (if kindAllowed r spec then {r} else {}))"
proof -
  obtain seen refs where acc: "acc = (seen, refs)" by (cases acc)
  have "refString r \<in> refString ` R \<longleftrightarrow> r \<in> R"
    using assms by (auto simp: collected_def dest: refString_inj)
  then show ?thesis using assms by (auto simp: acc collected_def addRef_def)
qed

lemma collected_fold:
  "collected acc R \<Longrightarrow> \<forall>r \<in> set rs. slashFree r \<Longrightarrow>
     collected (fold (addRef spec) rs acc) (R \<union> {r \<in> set rs. kindAllowed r spec})"
proof (induction rs arbitrary: acc R)
  case (Cons r rs)
  then have "collected (fold (addRef spec) rs (addRef spec r acc))
      (R \<union> (if kindAllowed r spec then {r} else {}) \<union> {r \<in> set rs. kindAllowed r spec})"
    by (intro Cons.IH collected_addRef) simp_all
  moreover have "R \<union> (if kindAllowed r spec then {r} else {}) \<union> {r \<in> set rs. kindAllowed r spec}
      = R \<union> {r' \<in> set (r # rs). kindAllowed r' spec}" by auto
  ultimately show ?case by simp
qed simp

lemma refsWhere_cong:
  "(\<And>k ns n w. m (k, ns, n) = Some w \<Longrightarrow> P k ns w = Q k ns w) \<Longrightarrow> refsWhere m P = refsWhere m Q"
  by (auto simp: refsWhere_def) metis+

lemma refsWhere_Un: "refsWhere m P \<union> refsWhere m Q = refsWhere m (\<lambda>k ns w. P k ns w \<or> Q k ns w)"
  by (auto simp: refsWhere_def)

lemma refsWhere_empty: "refsWhere m (\<lambda>k ns w. False) = {}"
  by (simp add: refsWhere_def)

lemma set_namespaceItems:
  "set (namespaceItems k ns p ws refs) = set refs \<union> refOf k ns ` {w \<in> set ws.
     \<not> (k = ReplicaSet \<and> isOwnedByDeployment w) \<and> (policyOf w = p \<or> policyOf w = '''')}"
  by (induction ws arbitrary: refs) (auto simp: Let_def policyOf_def)

lemma collected_annotatedItems:
  "collected acc R \<Longrightarrow> \<forall>w \<in> set ws. slashFree (refOf k (wNamespace w) w) \<Longrightarrow>
     collected (annotatedItems k p spec ws acc) (R \<union> (\<lambda>w. refOf k (wNamespace w) w) `
       {w \<in> set ws. candidate spec k (wNamespace w) w \<and> policyOf w = p})"
proof (induction ws arbitrary: acc R)
  case (Cons w ws)
  let ?r = "refOf k (wNamespace w) w"
  show ?case
  proof (cases "\<not> (k = ReplicaSet \<and> isOwnedByDeployment w) \<and> policyOf w = p")
    case True
    have "collected (addRef spec ?r acc) (R \<union> (if kindAllowed ?r spec then {?r} else {}))"
      using Cons.prems by (intro collected_addRef) simp_all
    from Cons.IH [OF this] Cons.prems(2) True show ?thesis
      by (auto simp: candidate_def policyOf_def elim!: back_subst [where P = "collected _"] split: if_splits)
  next
    case False
    with Cons.IH [OF Cons.prems(1)] Cons.prems(2) show ?thesis
      by (auto simp: candidate_def policyOf_def elim!: back_subst [where P = "collected _"])
  qed
qed simp

lemma kind_no_slash [simp]: "CHR ''/'' \<notin> set (workloadKind k)"
  by (cases k) simp_all

lemma slashFree_refOf [simp]: "slashFree (refOf k ns w) \<longleftrightarrow> CHR ''/'' \<notin> set ns"
  by (simp add: slashFree_def refOf_def)

lemma set_collectOrder [simp]: "k \<in> set collectOrder"
  by (cases k) (simp_all add: collectOrder_def)

context workload_api
begin

lemma set_namespaceBlocks:
  "namespaceBlocks C ns p s ks refs = Inr out \<Longrightarrow>
     set out = set refs \<union> refsWhere (stored s) (\<lambda>k ns' w. k \<in> set ks \<and> ns' = ns \<and>
       \<not> (k = ReplicaSet \<and> isOwnedByDeployment w) \<and> (policyOf w = p \<or> policyOf w = ''''))"
proof (induction ks arbitrary: refs)
  case (Cons k ks)
  then obtain ws where ws: "listWorkloads C k (Some ns) s = Inr ws"
      "namespaceBlocks C ns p s ks (namespaceItems k ns p ws refs) = Inr out"
    by (auto split: sum.splits)
  have "set ws = {w. \<exists>n. stored s (k, ns, n) = Some w}" using list_set [OF ws(1)] by blast
  then show ?case unfolding Cons.IH [OF ws(2)] set_namespaceItems by (auto simp: refsWhere_def)
qed (simp add: refsWhere_def)

lemma collected_namespaces:
  "collectNamespaces C p spec s nss acc = Inr out \<Longrightarrow> collected acc R \<Longrightarrow>
     (\<And>k ns n w. stored s (k, ns, n) = Some w \<Longrightarrow> CHR ''/'' \<notin> set ns) \<Longrightarrow>
     collected out (R \<union> refsWhere (stored s) (\<lambda>k ns w. candidate spec k ns w \<and>
       (policyOf w = p \<or> policyOf w = '''') \<and>
       (\<exists>a. (ns, a) \<in> set nss \<and> ann a AnnotationClusterHibernatePolicy = p)))"
proof (induction nss arbitrary: acc R)
  case (Cons x nss)
  obtain ns a where x: "x = (ns, a)" by (cases x)
  show ?case
  proof (cases "ann a AnnotationClusterHibernatePolicy = p")
    case True
    then obtain nsRefs where nsRefs: "allWorkloadsInNamespace C ns p s = Inr nsRefs"
        "collectNamespaces C p spec s nss (fold (addRef spec) nsRefs acc) = Inr out"
      using Cons.prems(1) x by (auto split: sum.splits)
    have refs: "{r \<in> set nsRefs. kindAllowed r spec} = refsWhere (stored s)
        (\<lambda>k ns' w. ns' = ns \<and> candidate spec k ns w \<and> (policyOf w = p \<or> policyOf w = ''''))"
      using set_namespaceBlocks [OF nsRefs(1) [unfolded allWorkloadsInNamespace_def]]
      by (auto simp: refsWhere_def candidate_def)
    have "\<forall>r \<in> set nsRefs. slashFree r"
      using set_namespaceBlocks [OF nsRefs(1) [unfolded allWorkloadsInNamespace_def]]
      by (auto simp: refsWhere_def dest: Cons.prems(3))
    note step = collected_fold [OF Cons.prems(2) this, of spec, unfolded refs]
    show ?thesis
      by (rule back_subst [where P = "collected out", OF Cons.IH [OF nsRefs(2) step Cons.prems(3)]])
        (use True x in \<open>auto simp: Un_assoc refsWhere_Un intro!: arg_cong [where f = "\<lambda>X. R \<union> X"] refsWhere_cong\<close>)
  next
    case False
    with Cons.prems(1) x have "collectNamespaces C p spec s nss acc = Inr out" by simp
    from Cons.IH [OF this Cons.prems(2,3)] show ?thesis
      by (rule back_subst [where P = "collected out"])
        (use False x in \<open>auto intro!: arg_cong [where f = "\<lambda>X. R \<union> X"] refsWhere_cong\<close>)
  qed
qed (simp add: refsWhere_empty)

lemma collected_annotatedBlocks:
  "annotatedBlocks C p spec s ks acc = Inr out \<Longrightarrow> collected acc R \<Longrightarrow>
     (\<And>k ns n w. stored s (k, ns, n) = Some w \<Longrightarrow> CHR ''/'' \<notin> set ns) \<Longrightarrow>
     collected out (R \<union> refsWhere (stored s) (\<lambda>k ns w. k \<in> set ks \<and> candidate spec k ns w \<and> policyOf w = p))"
proof (induction ks arbitrary: acc R)
  case (Cons k ks)
  then obtain ws where ws: "listWorkloads C k None s = Inr ws"
      "annotatedBlocks C p spec s ks (annotatedItems k p spec ws acc) = Inr out"
    by (auto split: sum.splits)
  have set: "set ws = {w. \<exists>ns n. stored s (k, ns, n) = Some w}" by (rule list_all_set [OF ws(1)])
  have named: "stored s (k, ns, n) = Some w \<Longrightarrow> wNamespace w = ns" for ns n w using stored_key by blast
  have "\<forall>w \<in> set ws. slashFree (refOf k (wNamespace w) w)"
    using Cons.prems(3) named by (auto simp: set)
  note items = collected_annotatedItems [OF Cons.prems(2) this, of p spec]
  have image: "(\<lambda>w. refOf k (wNamespace w) w) ` {w \<in> set ws. candidate spec k (wNamespace w) w \<and> policyOf w = p}
      = refsWhere (stored s) (\<lambda>k' ns w. k' = k \<and> candidate spec k ns w \<and> policyOf w = p)"
    using named by (force simp: set refsWhere_def)
  show ?case
    by (rule back_subst [where P = "collected out", OF Cons.IH [OF ws(2) items [unfolded image] Cons.prems(3)]])
      (auto simp: Un_assoc refsWhere_Un intro!: arg_cong [where f = "\<lambda>X. R \<union> X"] refsWhere_cong)
qed (simp add: refsWhere_empty)

end

section \<open>Acting on references\<close>

text \<open>The client of the reconciler: a listing of the namespaces, and a status patch, which changes no workload.\<close>

locale chp_api = workload_api C stored storedHPA
  for C :: "('s, 'm) chpClient_scheme" and stored storedHPA +
  fixes namespaces :: "'s \<Rightarrow> (string \<times> annotations) set"
  assumes list_namespaces: "listNamespaces C s = Inr nss \<Longrightarrow> set nss = namespaces s"
    and patch_namespaces: "patchWorkload C k base w s = (r, s') \<Longrightarrow> namespaces s' = namespaces s"
    and patchHPA_namespaces: "patchHPA C hbase h s = (r, s') \<Longrightarrow> namespaces s' = namespaces s"
    and chp_status: "patchClusterHibernatePolicyStatus C cbase chp s = (r, s') \<Longrightarrow>
      stored s' = stored s \<and> storedHPA s' = storedHPA s \<and> namespaces s' = namespaces s"

text \<open>The scalable kinds have one branch: they hibernate and wake like a Deployment.\<close>

definition branchKind :: "wkind \<Rightarrow> wkind" where
  "branchKind k = (if k = DaemonSet then DaemonSet else Deployment)"

definition specRefPass :: "bool \<Rightarrow> hibernateAction \<Rightarrow> hibernationOwner \<Rightarrow> wkind \<Rightarrow> workload \<Rightarrow> workload" where
  "specRefPass inWindow action owner k w =
     (if inWindow then specWake (branchKind k) owner w else specHibernate (branchKind k) action owner w)"

definition specRefs ::
  "workloadRef set \<Rightarrow> (wkind \<Rightarrow> workload \<Rightarrow> workload) \<Rightarrow> (wkey \<rightharpoonup> workload) \<Rightarrow> (wkey \<rightharpoonup> workload)" where
  "specRefs R g m = (\<lambda>(k, ns, n).
     if \<lparr>rNamespace = ns, rKind = workloadKind k, rName = n\<rparr> \<in> R then map_option (g k) (m (k, ns, n)) else m (k, ns, n))"

lemma kindOf_Some: "kindOf kind = Some k \<longleftrightarrow> kind = workloadKind k"
  by (cases k) (auto simp: kindOf_def)

lemma kindOf_None: "kindOf kind = None \<Longrightarrow> kind \<noteq> workloadKind k"
  by (simp add: kindOf_Some [symmetric])

lemma byRef_same [simp]: "sleptByRef = sleptDaemonSet" "wokenByRef = wokenDaemonSet"
  by (simp_all add: fun_eq_iff sleptByRef_def sleptDaemonSet_def marshalNodeSelector_def wokenByRef_def
      wokenDaemonSet_def unmarshalNodeSelector_def Let_def)

lemma specRefPass_idem [simp]: "specRefPass b action owner k (specRefPass b action owner k w) = specRefPass b action owner k w"
  by (simp add: specRefPass_def)

lemma specRefs_empty: "specRefs {} g m = m"
  by (auto simp: specRefs_def)

lemma specRefs_insert:
  assumes "\<And>k w. g k (g k w) = g k w"
  shows "specRefs R g (specRefs {r} g m) = specRefs (insert r R) g m"
  using assms by (auto simp: specRefs_def fun_eq_iff option.map_comp comp_def)

lemma specRefs_step:
  assumes "\<And>k w. g k (g k w) = g k w"
    and "ma key = m key \<or> ma key = specRefs {r} g m key"
    and "mb key = ma key \<or> mb key = specRefs R g ma key"
  shows "mb key = m key \<or> mb key = specRefs (insert r R) g m key"
  using assms by (cases key) (auto simp: specRefs_def option.map_comp comp_def split: if_splits)

lemma specRefs_single:
  "rKind r = workloadKind k \<Longrightarrow> specRefs {r} g m =
     m((k, rNamespace r, rName r) := map_option (g k) (m (k, rNamespace r, rName r)))"
  by (cases r) (auto simp: specRefs_def fun_eq_iff)

lemma specRefs_unknown: "(\<And>k. rKind r \<noteq> workloadKind k) \<Longrightarrow> specRefs {r} g m = m"
  by (cases r) (auto simp: specRefs_def fun_eq_iff)

context workload_api
begin

lemma getWorkload_key: "getWorkload C k ns n s = Inr w \<Longrightarrow> stored s (wkey k w) = Some w \<and> wkey k w = (k, ns, n)"
  using get_Inr stored_key by (fastforce simp: wkey_def)

lemma patch_any:
  assumes "patchWorkload C k base w s = (e, s')" "stored s (wkey k base) = Some base" "wkey k w = wkey k base"
  shows "(e = None \<longrightarrow> stored s' = (stored s)(wkey k base \<mapsto> w)) \<and>
    (stored s' = stored s \<or> stored s' = (stored s)(wkey k base \<mapsto> w))"
  using assms patch_ok [of k base w s s'] patch_error [of k base w s _ s'] by (cases e) auto

lemma hibernateScalable_stored:
  assumes "hibernateScalable C k r action owner s = ((b, e), s')"
  defines "m \<equiv> (stored s)((k, rNamespace r, rName r) :=
      map_option (specScaleDown Deployment action owner) (stored s (k, rNamespace r, rName r)))"
  shows "(e = None \<longrightarrow> stored s' = m) \<and> (stored s' = stored s \<or> stored s' = m)"
proof (cases "getWorkload C k (rNamespace r) (rName r) s")
  case (Inl x)
  then show ?thesis using assms(1) get_NotFound [of k "rNamespace r" "rName r" s]
    by (auto simp: hibernateScalable_def ignoreNotFound_def m_def split: if_splits)
next
  case (Inr d)
  note key = getWorkload_key [OF Inr]
  then have m: "m = (stored s)(wkey k d \<mapsto> specScaleDown Deployment action owner d)"
    by (auto simp: m_def)
  show ?thesis using assms(1) Inr key conjunct1 [OF key]
    by (auto simp: m hibernateScalable_def specScaleDown_def computeTargetReplicas_def fun_upd_self
        suspendHPAForAction_stored suspendHPA_stored dest!: patch_ok patch_error
        split: if_splits prod.splits option.splits)
qed

lemma hibernateWorkload_stored:
  assumes "hibernateWorkload C r action owner s = ((b, e), s')"
  defines "m \<equiv> specRefs {r} (specRefPass False action owner) (stored s)"
  shows "(e = None \<longrightarrow> stored s' = m) \<and> (stored s' = stored s \<or> stored s' = m)"
proof (cases "kindOf (rKind r)")
  case None
  then have "m = stored s" unfolding m_def by (intro specRefs_unknown kindOf_None)
  with None assms(1) show ?thesis by (simp add: hibernateWorkload_def)
next
  case (Some k)
  then have k: "rKind r = workloadKind k" by (simp add: kindOf_Some)
  show ?thesis
  proof (cases "k = DaemonSet")
    case False
    then have "hibernateScalable C k r action owner s = ((b, e), s')"
      using assms(1) Some by (cases k) (simp_all add: hibernateWorkload_def)
    from hibernateScalable_stored [OF this] show ?thesis
      unfolding m_def specRefs_single [OF k] using False
      by (simp add: specRefPass_def [abs_def] specHibernate_def [abs_def] branchKind_def)
  next
    case True
    note m = m_def [unfolded specRefs_single [OF k]]
    show ?thesis
    proof (cases "SleepDaemonSet action")
      case False
      then have "m = stored s"
        by (auto simp: m True specRefPass_def branchKind_def specHibernate_def option.map_ident_strong)
      then show ?thesis using assms(1) Some True False by (simp add: hibernateWorkload_def)
    next
      case sleep: True
      show ?thesis
      proof (cases "getWorkload C DaemonSet (rNamespace r) (rName r) s")
        case (Inl x)
        then show ?thesis using assms(1) Some True sleep get_NotFound [of DaemonSet "rNamespace r" "rName r" s]
          by (auto simp: hibernateWorkload_def ignoreNotFound_def m split: if_splits)
      next
        case (Inr d)
        note key = getWorkload_key [OF Inr]
        then have "m = (stored s)(wkey DaemonSet d \<mapsto> specSleep owner d)"
          using sleep by (auto simp: m True specRefPass_def branchKind_def specHibernate_def)
        then show ?thesis using assms(1) Some True sleep Inr key conjunct1 [OF key]
          by (auto simp: hibernateWorkload_def specSleep_def fun_upd_self dest!: patch_any
              split: if_splits prod.splits option.splits)
      qed
    qed
  qed
qed

lemma wakeWorkload_stored:
  fixes action
  assumes "wakeWorkload C r owner s = (e, s')"
  defines "m \<equiv> specRefs {r} (specRefPass True action owner) (stored s)"
  shows "(e = None \<longrightarrow> stored s' = m) \<and> (stored s' = stored s \<or> stored s' = m)"
proof (cases "kindOf (rKind r)")
  case None
  then have "m = stored s" unfolding m_def by (intro specRefs_unknown kindOf_None)
  with None assms(1) show ?thesis by (simp add: wakeWorkload_def)
next
  case (Some k)
  then have k: "rKind r = workloadKind k" by (simp add: kindOf_Some)
  note m = m_def [unfolded specRefs_single [OF k]]
  show ?thesis
  proof (cases "getWorkload C k (rNamespace r) (rName r) s")
    case (Inl x)
    then show ?thesis using assms(1) Some get_NotFound [of k "rNamespace r" "rName r" s]
      by (auto simp: wakeWorkload_def ignoreNotFound_def m split: if_splits)
  next
    case (Inr d)
    note key = getWorkload_key [OF Inr]
    then have m: "m = (stored s)(wkey k d \<mapsto> specWake (branchKind k) owner d)"
      by (auto simp: m specRefPass_def)
    show ?thesis
    proof (cases "k = DaemonSet")
      case True
      then show ?thesis using assms(1) Some Inr key conjunct1 [OF key]
        by (auto simp: m wakeWorkload_def branchKind_def specWake_def specWakeDaemonSet_def fun_upd_self
            dest!: patch_any split: if_splits prod.splits)
    next
      case False
      then show ?thesis using assms(1) Some Inr key conjunct1 [OF key]
        by (auto simp: m wakeWorkload_def branchKind_def specWake_def specScaleUp_def fun_upd_self restoreHPA_stored
            dest!: patch_any split: if_splits prod.splits option.splits)
    qed
  qed
qed

end

lemma specRefPass_inactive: "\<not> actionSet action \<Longrightarrow> specRefs R (specRefPass False action owner) m = m"
  by (auto simp: specRefs_def fun_eq_iff specRefPass_def specHibernate_def specScaleDown_def actionSet_def
      option.map_ident_strong)

context workload_api
begin

lemma ref_step:
  assumes "reconcileRefs C b action owner (r # rs) acc errs s = (out, s')"
  obtains acc1 e s1 where "reconcileRefs C b action owner rs acc1 (errs @ e) s1 = (out, s')"
    "e = [] \<longrightarrow> stored s1 = specRefs {r} (specRefPass b action owner) (stored s)"
    "stored s1 = stored s \<or> stored s1 = specRefs {r} (specRefPass b action owner) (stored s)"
proof (cases b)
  case True
  obtain e s1 where w: "wakeWorkload C r owner s = (e, s1)" by fastforce
  show thesis
    by (rule that [of acc "case e of None \<Rightarrow> [] | Some x \<Rightarrow> [Errorf ''waking %s'' [refString r] x]" s1])
      (use assms w True wakeWorkload_stored [OF w, of action] in \<open>auto split: option.splits\<close>)
next
  case closed: False
  show thesis
  proof (cases "actionSet action")
    case False
    show thesis
      by (rule that [of acc "[]" s]) (use assms closed False in \<open>auto simp: specRefPass_inactive\<close>)
  next
    case True
    obtain x e s1 where h: "hibernateWorkload C r action owner s = ((x, e), s1)" by (metis prod.collapse)
    show thesis
      by (rule that [of "if e = None \<and> x then acc @ [refString r] else acc"
            "case e of None \<Rightarrow> [] | Some y \<Rightarrow> [Errorf ''hibernating %s'' [refString r] y]" s1])
        (use assms h True closed hibernateWorkload_stored [OF h] in \<open>auto split: option.splits\<close>)
  qed
qed

lemma reconcileRefs_errs:
  "reconcileRefs C b action owner rs acc errs s = ((names, errs'), s') \<Longrightarrow> \<exists>es. errs' = errs @ es"
proof (induction rs arbitrary: acc errs s)
  case (Cons r rs)
  from Cons.prems obtain acc1 e s1 where "reconcileRefs C b action owner rs acc1 (errs @ e) s1 = ((names, errs'), s')"
    by (rule ref_step)
  from Cons.IH [OF this] show ?case by auto
qed simp

lemma reconcileRefs_ok:
  "reconcileRefs C b action owner rs acc [] s = ((names, []), s') \<Longrightarrow>
     stored s' = specRefs (set rs) (specRefPass b action owner) (stored s)"
proof (induction rs arbitrary: acc s)
  case (Cons r rs)
  from Cons.prems obtain acc1 e s1 where run: "reconcileRefs C b action owner rs acc1 ([] @ e) s1 = ((names, []), s')"
    and e: "e = [] \<longrightarrow> stored s1 = specRefs {r} (specRefPass b action owner) (stored s)"
    by (rule ref_step)
  have "e = []" using reconcileRefs_errs [OF run] by simp
  then show ?case using Cons.IH [of acc1 s1] run e by (simp add: specRefs_insert)
qed (simp add: specRefs_empty)

lemma reconcileRefs_any:
  "reconcileRefs C b action owner rs acc errs s = (out, s') \<Longrightarrow>
     stored s' key = stored s key \<or> stored s' key = specRefs (set rs) (specRefPass b action owner) (stored s) key"
proof (induction rs arbitrary: acc errs s)
  case (Cons r rs)
  from Cons.prems obtain acc1 e s1 where run: "reconcileRefs C b action owner rs acc1 (errs @ e) s1 = (out, s')"
    and st: "stored s1 = stored s \<or> stored s1 = specRefs {r} (specRefPass b action owner) (stored s)"
    by (rule ref_step)
  show ?case unfolding list.set(2)
    by (rule specRefs_step [where ma = "stored s1"]) (use st Cons.IH [OF run] in auto)
qed simp

end

text \<open>What a pass does to the governed workloads of the cluster.\<close>

definition specGoverned ::
  "clusterHibernatePolicy \<Rightarrow> (string \<times> annotations) set \<Rightarrow> bool \<Rightarrow> (wkey \<rightharpoonup> workload) \<Rightarrow> (wkey \<rightharpoonup> workload)" where
  "specGoverned chp nss inWindow m = (\<lambda>(k, ns, n). map_option (\<lambda>w.
     if governs chp nss k ns w then
       (if inWindow then specWake k (chpOwner chp) w else specHibernate k (chpAction chp) (chpOwner chp) w)
     else w) (m (k, ns, n)))"

definition clusterWindowOpen :: "(string \<Rightarrow> location option) \<Rightarrow> clusterHibernatePolicy \<Rightarrow> time \<Rightarrow> bool" where
  "clusterWindowOpen loadLocation chp now =
     fst (isInAvailabilityWindow loadLocation (chpAvailabilityWindows chp) now)"

definition slashFreeStore :: "(wkey \<rightharpoonup> workload) \<Rightarrow> bool" where
  "slashFreeStore m \<longleftrightarrow> (\<forall>k ns n w. m (k, ns, n) = Some w \<longrightarrow> CHR ''/'' \<notin> set ns)"

lemma branchKind_spec:
  assumes "candidate chp k ns w"
  shows "specRefPass b action owner k w = (if b then specWake k owner w else specHibernate k action owner w)"
  using assms by (auto simp: candidate_def specRefPass_def branchKind_def specWake_def specScaleUp_def
      specHibernate_def specScaleDown_def)

context chp_api
begin

lemma collect_exact:
  assumes "collectWorkloads C (chpName chp) chp s = Inr refs" "slashFreeStore (stored s)"
  shows "distinct refs \<and> set refs = refsWhere (stored s) (governs chp (namespaces s))"
proof -
  from assms(1) obtain nss acc seen where run: "listNamespaces C s = Inr nss"
      "collectNamespaces C (chpName chp) chp s nss ([], []) = Inr acc"
      "annotatedBlocks C (chpName chp) chp s collectOrder acc = Inr (seen, refs)"
    by (auto simp: collectWorkloads_def split: sum.splits)
  have free: "\<And>k ns n w. stored s (k, ns, n) = Some w \<Longrightarrow> CHR ''/'' \<notin> set ns"
    using assms(2) by (auto simp: slashFreeStore_def)
  have start: "collected ([], []) {}" by (simp add: collected_def)
  note c = collected_annotatedBlocks [OF run(3) collected_namespaces [OF run(2) start free] free]
  have "set refs = refsWhere (stored s) (governs chp (namespaces s))"
    using c by (auto simp: collected_def refsWhere_Un governs_def list_namespaces [OF run(1)] intro!: refsWhere_cong)
  with c show ?thesis by (simp add: collected_def)
qed

lemma governed_ref:
  "stored s (k, ns, n) = Some w \<Longrightarrow>
    \<lparr>rNamespace = ns, rKind = workloadKind k, rName = n\<rparr> \<in> refsWhere (stored s) P \<longleftrightarrow> P k ns w"
  using stored_key [of s] by (fastforce simp: refsWhere_def refOf_def)

lemma specRefs_governed:
  "specRefs (refsWhere (stored s) (governs chp (namespaces s))) (specRefPass b (chpAction chp) (chpOwner chp)) (stored s)
     = specGoverned chp (namespaces s) b (stored s)"
proof
  fix key :: wkey
  obtain k ns n where key: "key = (k, ns, n)" by (cases key)
  show "specRefs (refsWhere (stored s) (governs chp (namespaces s))) (specRefPass b (chpAction chp) (chpOwner chp)) (stored s) key
     = specGoverned chp (namespaces s) b (stored s) key"
  proof (cases "stored s key")
    case (Some w)
    then show ?thesis
      using governed_ref [of s k ns n w "governs chp (namespaces s)"] branchKind_spec [of chp k ns w b]
      by (auto simp: key specRefs_def specGoverned_def governs_def)
  qed (simp add: key specRefs_def specGoverned_def)
qed

lemma reconcile_split:
  assumes "reconcileClusterHibernatePolicy C ll clk n s = ((res, e), s')" "getClusterHibernatePolicy C n s = Inr chp"
    and "slashFreeStore (stored s)"
  obtains (failed) "stored s' = stored s" "e \<noteq> None"
    | (ran) refs names errs s1 where "set refs = refsWhere (stored s) (governs chp (namespaces s))"
      "reconcileRefs C (clusterWindowOpen ll chp (clkNow clk)) (chpAction chp) (chpOwner chp) refs [] [] s = ((names, errs), s1)"
      "stored s' = stored s1" "namespaces s' = namespaces s1" "e = None \<Longrightarrow> errs = []"
proof (cases "collectWorkloads C (chpName chp) chp s")
  case (Inl x)
  then show thesis using assms(1,2) failed
    by (auto simp: reconcileClusterHibernatePolicy_def Let_def split: prod.splits)
next
  case (Inr refs)
  let ?b = "clusterWindowOpen ll chp (clkNow clk)"
  obtain names errs s1 where run:
    "reconcileRefs C ?b (chpAction chp) (chpOwner chp) refs [] [] s = ((names, errs), s1)"
    by (metis prod.collapse)
  have "stored s' = stored s1 \<and> namespaces s' = namespaces s1 \<and> (e = None \<longrightarrow> errs = [])"
    using assms(1,2) Inr run
    by (auto simp: reconcileClusterHibernatePolicy_def clusterWindowOpen_def Let_def
        split: prod.splits option.splits dest!: chp_status)
  with run collect_exact [OF Inr assms(3)] ran show thesis by blast
qed

lemma reconcile_ok:
  assumes "reconcileClusterHibernatePolicy C ll clk n s = ((res, None), s')"
    "getClusterHibernatePolicy C n s = Inr chp" "slashFreeStore (stored s)"
  shows "stored s' = specGoverned chp (namespaces s) (clusterWindowOpen ll chp (clkNow clk)) (stored s)"
  using assms by (cases rule: reconcile_split) (simp_all add: reconcileRefs_ok specRefs_governed [symmetric])

lemma reconcile_any:
  assumes "reconcileClusterHibernatePolicy C ll clk n s = ((res, e), s')"
    "getClusterHibernatePolicy C n s = Inr chp" "slashFreeStore (stored s)"
  shows "stored s' key = stored s key \<or>
    stored s' key = specGoverned chp (namespaces s) (clusterWindowOpen ll chp (clkNow clk)) (stored s) key"
  using assms
proof (cases rule: reconcile_split)
  case (ran refs names errs s1)
  then show ?thesis using reconcileRefs_any [OF ran(2), of key] by (simp add: specRefs_governed)
qed simp

end

section \<open>Governance is stable\<close>

text \<open>Hibernating or waking a workload does not change which policy governs it.\<close>

lemma policyOf_changed [simp]:
  "policyOf (scaledDown owner t w) = policyOf w" "policyOf (scaledUp w) = policyOf w"
  "policyOf (sleptDaemonSet owner w) = policyOf w" "policyOf (wokenDaemonSet w) = policyOf w"
  by (simp_all add: policyOf_def scaledDown_def scaledUp_def sleptDaemonSet_def wokenDaemonSet_def Let_def
      markHibernated_def clearHibernated_def AnnotationClusterHibernatePolicy_def hibernationAnnotations)

lemma candidate_changed [simp]:
  "candidate chp k ns (scaledDown owner t w) = candidate chp k ns w"
  "candidate chp k ns (scaledUp w) = candidate chp k ns w"
  "candidate chp k ns (sleptDaemonSet owner w) = candidate chp k ns w"
  "candidate chp k ns (wokenDaemonSet w) = candidate chp k ns w"
  by (simp_all add: candidate_def refOf_def isOwnedByDeployment_def scaledDown_def scaledUp_def sleptDaemonSet_def
      wokenDaemonSet_def Let_def)

lemma governs_hibernated: "governs chp nss k ns (specHibernate k' action owner w) = governs chp nss k ns w"
  by (auto simp: governs_def specHibernate_def specScaleDown_def specSleep_def split: option.splits)

lemma governs_same:
  "chpName chp1 = chpName chp \<Longrightarrow> chpIncludedResources chp1 = chpIncludedResources chp \<Longrightarrow>
    chpExcludedResources chp1 = chpExcludedResources chp \<Longrightarrow> governs chp1 nss k ns w = governs chp nss k ns w"
  by (simp add: governs_def candidate_def kindAllowed_def)

context chp_api
begin

lemma suspendHPA_namespaces: "suspendHPA C ns kind n t s = (r, s') \<Longrightarrow> namespaces s' = namespaces s"
  by (auto simp: suspendHPA_def split: sum.splits option.splits if_splits prod.splits dest!: patchHPA_namespaces)

lemma restoreHPA_namespaces: "restoreHPA C ns kind n s = (r, s') \<Longrightarrow> namespaces s' = namespaces s"
  by (auto simp: restoreHPA_def Let_def split: sum.splits option.splits if_splits prod.splits dest!: patchHPA_namespaces)

lemma hibernateWorkload_namespaces:
  assumes "hibernateWorkload C r action owner s = (x, s')"
  shows "namespaces s' = namespaces s"
proof -
  have scalable: "namespaces s' = namespaces s" if "hibernateScalable C k r action owner s = (x, s')" for k
    using that by (auto simp: hibernateScalable_def suspendHPAForAction_def Let_def
        split: sum.splits option.splits if_splits prod.splits dest!: patch_namespaces suspendHPA_namespaces)
  show ?thesis
  proof (cases "kindOf (rKind r)")
    case (Some k)
    then show ?thesis using assms scalable
      by (cases k) (auto simp: hibernateWorkload_def split: sum.splits if_splits prod.splits dest!: patch_namespaces)
  qed (use assms in \<open>simp add: hibernateWorkload_def\<close>)
qed

lemma wakeWorkload_namespaces: "wakeWorkload C r owner s = (x, s') \<Longrightarrow> namespaces s' = namespaces s"
  by (auto simp: wakeWorkload_def split: sum.splits option.splits if_splits prod.splits
      dest!: patch_namespaces restoreHPA_namespaces)

lemma reconcileRefs_namespaces:
  "reconcileRefs C b action owner rs acc errs s = (out, s') \<Longrightarrow> namespaces s' = namespaces s"
proof (induction rs arbitrary: acc errs s)
  case (Cons r rs)
  then show ?case
    by (auto split: if_splits prod.splits option.splits dest!: Cons.IH wakeWorkload_namespaces hibernateWorkload_namespaces)
qed simp

lemma reconcile_namespaces:
  assumes "reconcileClusterHibernatePolicy C ll clk n s = ((res, None), s')"
    "getClusterHibernatePolicy C n s = Inr chp" "slashFreeStore (stored s)"
  shows "namespaces s' = namespaces s"
  using assms by (cases rule: reconcile_split) (auto dest: reconcileRefs_namespaces)

lemma hibernate_wake:
  assumes run: "reconcileClusterHibernatePolicy C ll clk n s = ((res, None), s1)"
      "getClusterHibernatePolicy C n s = Inr chp" "slashFreeStore (stored s)"
      "\<not> clusterWindowOpen ll chp (clkNow clk)"
    and run1: "reconcileClusterHibernatePolicy C ll clk1 n s1 = ((res1, None), s2)"
      "getClusterHibernatePolicy C n s1 = Inr chp1" "clusterWindowOpen ll chp1 (clkNow clk1)"
    and same: "chpName chp1 = chpName chp" "chpIncludedResources chp1 = chpIncludedResources chp"
      "chpExcludedResources chp1 = chpExcludedResources chp"
    and fresh: "\<And>k ns m w. stored s (k, ns, m) = Some w \<Longrightarrow> governs chp (namespaces s) k ns w \<Longrightarrow>
      fresh (chpOwner chp) w"
  shows "rel_option sameWorkload (stored s key) (stored s2 key)"
proof -
  have s1: "stored s1 = specGoverned chp (namespaces s) False (stored s)"
    using reconcile_ok [OF run(1-3)] run(4) by simp
  then have "slashFreeStore (stored s1)" using run(3) by (auto simp: slashFreeStore_def specGoverned_def)
  then have s2: "stored s2 = specGoverned chp1 (namespaces s) True (stored s1)"
    using reconcile_ok [OF run1(1,2)] run1(3) reconcile_namespaces [OF run(1-3)] by simp
  obtain k ns m where key: "key = (k, ns, m)" by (cases key)
  have owner: "chpOwner chp1 = chpOwner chp" using same(1) by (simp add: chpOwner_def)
  show ?thesis
  proof (cases "stored s key")
    case (Some w)
    then show ?thesis
      using specWake_specHibernate [of "chpOwner chp" w k "chpAction chp"] fresh [of k ns m w] key
      by (auto simp: s2 s1 specGoverned_def governs_same [OF same] governs_hibernated owner)
  qed (simp add: key s1 s2 specGoverned_def)
qed

end

section \<open>The reference client\<close>

record chpMemState = memState +
  mNamespaces :: "(string \<times> annotations) list"
  mClusterPolicies :: "(string \<times> clusterHibernatePolicy) list"

definition memChpClient :: "(string \<Rightarrow> kerr option) \<Rightarrow> 'a chpMemState_scheme chpClient" where
  "memChpClient fault = client.extend (memClient fault)
     (chpClient.fields
        (\<lambda>s. case fault ''list Namespace'' of Some e \<Rightarrow> Inl e | None \<Rightarrow> Inr (mNamespaces s))
        (\<lambda>n s. case map_of (mClusterPolicies s) n of None \<Rightarrow> Inl NotFound | Some chp \<Rightarrow> Inr chp)
        (\<lambda>base chp s. case fault ''patch ClusterHibernatePolicy/status'' of
             Some e \<Rightarrow> (Some e, s)
           | None \<Rightarrow> (None, s\<lparr>mClusterPolicies := alistPut (chpName base) chp (mClusterPolicies s)\<rparr>)))"

lemma memChpClient_calls [simp]:
  "listWorkloads (memChpClient fault) = listWorkloads (memClient fault)"
  "getWorkload (memChpClient fault) = getWorkload (memClient fault)"
  "patchWorkload (memChpClient fault) = patchWorkload (memClient fault)"
  "listHPAs (memChpClient fault) = listHPAs (memClient fault)"
  "patchHPA (memChpClient fault) = patchHPA (memClient fault)"
  by (simp_all add: memChpClient_def client.extend_def)

interpretation memChp: chp_api "memChpClient fault" memStored memStoredHPA "set \<circ> mNamespaces" for fault
proof (intro chp_api.intro chp_api_axioms.intro, goal_cases)
  case 1
  show ?case by (rule workload_api_same_calls [OF mem.workload_api_axioms]) simp_all
qed (auto simp: memChpClient_def client.extend_def chpClient.fields_def memClient_def memStored_def memStoredHPA_def
    split: option.splits)

text \<open>
  A cluster for the examples: the namespace \<open>shop\<close> names the policy \<open>quiet\<close>, one of its Deployments
  names another policy, and a Deployment of \<open>lab\<close> names \<open>quiet\<close> itself.
\<close>

definition quietPolicy :: clusterHibernatePolicy where
  "quietPolicy = \<lparr>chpName = ''quiet'', chpAvailabilityWindows = [officeHours],
     chpAction = \<lparr>MaxReplicas = Some 1, SleepDaemonSet = False\<rparr>,
     chpIncludedResources = [], chpExcludedResources = [''StatefulSet''],
     chpHibernatedWorkloads = [], chpConditions = []\<rparr>"

definition namesPolicy :: "string \<Rightarrow> annotations" where
  "namesPolicy p = [AnnotationClusterHibernatePolicy \<mapsto> p]"

definition quietCluster :: chpMemState where
  "quietCluster = \<lparr>
     mWorkloads = [((Deployment, ''shop'', ''web''), plainWorkload ''web'' (Some 5) None),
                   ((Deployment, ''shop'', ''own''), (plainWorkload ''own'' (Some 3) None)\<lparr>wAnnotations := namesPolicy ''loud''\<rparr>),
                   ((StatefulSet, ''shop'', ''db''), plainWorkload ''db'' (Some 3) None),
                   ((Deployment, ''lab'', ''sim''), (plainWorkload ''sim'' (Some 4) None)\<lparr>wNamespace := ''lab'', wAnnotations := namesPolicy ''quiet''\<rparr>)],
     mHPAs = [],
     mNamespaces = [(''shop'', namesPolicy ''quiet''), (''lab'', Map.empty)],
     mClusterPolicies = [(''quiet'', quietPolicy)]\<rparr>"

lemma quietCluster_slashFree: "slashFreeStore (memStored quietCluster)"
  by (auto simp: slashFreeStore_def memStored_def quietCluster_def split: if_splits)

lemma quietCluster_policy [simp]: "getClusterHibernatePolicy (memChpClient fault) ''quiet'' quietCluster = Inr quietPolicy"
  by (simp add: memChpClient_def client.extend_def chpClient.fields_def quietCluster_def)

lemma quietCluster_fresh: "memStored quietCluster (k, ns, m) = Some w \<Longrightarrow> fresh owner w"
  by (auto simp: memStored_def quietCluster_def plainWorkload_def namesPolicy_def fresh_def heldBy_def isHibernated_def
      annotationTrueValue_def currentReplicas_def wellFormedSelector_def AnnotationClusterHibernatePolicy_def
      hibernationAnnotations split: if_splits)

text \<open>One night and the next morning, evaluated.\<close>

definition quietPass :: "time \<Rightarrow> chpMemState \<Rightarrow> (result \<times> gerror option) \<times> chpMemState" where
  "quietPass t s = reconcileClusterHibernatePolicy (memChpClient noFault) (\<lambda>_. Some UTC) (atTime t) ''quiet'' s"

lemma quiet_night:
  "case quietPass (19 * hour) quietCluster of ((res, e), s1) \<Rightarrow>
     e = None \<and>
     map_option wReplicas (memStored s1 (Deployment, ''shop'', ''web'')) = Some (Some 1) \<and>
     map_option wReplicas (memStored s1 (Deployment, ''shop'', ''own'')) = Some (Some 3) \<and>
     map_option wReplicas (memStored s1 (Deployment, ''lab'', ''sim'')) = Some (Some 1) \<and>
     (case getClusterHibernatePolicy (memChpClient noFault) ''quiet'' s1 of
        Inl _ \<Rightarrow> False
      | Inr chp1 \<Rightarrow> chpName chp1 = ''quiet'' \<and> chpIncludedResources chp1 = [] \<and>
          chpExcludedResources chp1 = [''StatefulSet''] \<and> clusterWindowOpen (\<lambda>_. Some UTC) chp1 (33 * hour)) \<and>
     snd (fst (quietPass (33 * hour) s1)) = None"
  by code_simp

lemma quiet_closed: "\<not> clusterWindowOpen (\<lambda>_. Some UTC) quietPolicy (clkNow (atTime (19 * hour)))"
  by code_simp

section \<open>Properties\<close>

text \<open>
  C6: a successful collection returns, without duplicates, exactly the workloads the policy governs:
  those of an allowed kind, not created by a Deployment, that name the policy, or that name no policy
  and live in a namespace that names it. The workload's own annotation always wins over its
  namespace's. (Namespace names have no slash, as Kubernetes requires.)
\<close>

theorem collectWorkloads_exact:
  assumes "chp_api C stored storedHPA namespaces" "slashFreeStore (stored s)"
    and "collectWorkloads C (chpName chp) chp s = Inr refs"
  shows "distinct refs \<and> set refs = refsWhere (stored s) (governs chp (namespaces s))"
  by (rule chp_api.collect_exact [OF assms(1,3,2)])

theorem collectWorkloads_exact_witness:
  "collectWorkloads (memChpClient noFault) ''quiet'' quietPolicy quietCluster =
     Inr [\<lparr>rNamespace = ''shop'', rKind = ''Deployment'', rName = ''web''\<rparr>,
          \<lparr>rNamespace = ''lab'', rKind = ''Deployment'', rName = ''sim''\<rparr>] \<and>
   set [\<lparr>rNamespace = ''shop'', rKind = ''Deployment'', rName = ''web''\<rparr>,
          \<lparr>rNamespace = ''lab'', rKind = ''Deployment'', rName = ''sim''\<rparr>]
     = refsWhere (memStored quietCluster) (governs quietPolicy ((set \<circ> mNamespaces) quietCluster))"
proof -
  let ?refs = "[\<lparr>rNamespace = ''shop'', rKind = ''Deployment'', rName = ''web''\<rparr>,
          \<lparr>rNamespace = ''lab'', rKind = ''Deployment'', rName = ''sim''\<rparr>]"
  have run: "collectWorkloads (memChpClient noFault) (chpName quietPolicy) quietPolicy quietCluster = Inr ?refs"
    by code_simp
  with collectWorkloads_exact [OF memChp.chp_api_axioms quietCluster_slashFree run] show ?thesis
    by (simp add: quietPolicy_def)
qed

text \<open>
  C16: an error-free reconciliation of a cluster policy brings exactly the governed workloads into
  their specified state, woken inside a window and hibernated outside, and changes nothing else.
\<close>

theorem chp_reconcile_refines_spec:
  assumes "chp_api C stored storedHPA namespaces" "slashFreeStore (stored s)"
    and "getClusterHibernatePolicy C n s = Inr chp"
    and "reconcileClusterHibernatePolicy C loadLocation clk n s = ((res, None), s')"
  shows "stored s' = specGoverned chp (namespaces s) (clusterWindowOpen loadLocation chp (clkNow clk)) (stored s)"
  by (rule chp_api.reconcile_ok [OF assms(1,4,3,2)])

theorem chp_reconcile_refines_spec_witness:
  "let s' = snd (quietPass (19 * hour) quietCluster)
   in memStored s' = specGoverned quietPolicy ((set \<circ> mNamespaces) quietCluster) False (memStored quietCluster) \<and>
      map_option wReplicas (memStored s' (Deployment, ''shop'', ''web'')) = Some (Some 1) \<and>
      map_option wReplicas (memStored s' (Deployment, ''shop'', ''own'')) = Some (Some 3)"
proof -
  obtain res s1 where r: "quietPass (19 * hour) quietCluster = ((res, None), s1)"
    and n: "map_option wReplicas (memStored s1 (Deployment, ''shop'', ''web'')) = Some (Some 1)"
      "map_option wReplicas (memStored s1 (Deployment, ''shop'', ''own'')) = Some (Some 3)"
    using quiet_night by (auto split: prod.splits)
  show ?thesis
    using chp_reconcile_refines_spec [OF memChp.chp_api_axioms quietCluster_slashFree quietCluster_policy
        r [unfolded quietPass_def]] r n quiet_closed
    by (simp add: Let_def)
qed

text \<open>
  Hibernation by a cluster policy followed by its wake-up restores every workload of the
  cluster, up to a nil replica count that returns as 1, as long as the policy keeps its name and its
  kind filters. Governance is decided anew in each pass; the passes themselves do not disturb it.
\<close>

theorem chp_hibernate_wake_roundtrip:
  assumes "chp_api C stored storedHPA namespaces" "slashFreeStore (stored s)"
    and "getClusterHibernatePolicy C n s = Inr chp" "\<not> clusterWindowOpen loadLocation chp (clkNow clk)"
    and "reconcileClusterHibernatePolicy C loadLocation clk n s = ((res, None), s1)"
    and "getClusterHibernatePolicy C n s1 = Inr chp1" "clusterWindowOpen loadLocation chp1 (clkNow clk1)"
    and "reconcileClusterHibernatePolicy C loadLocation clk1 n s1 = ((res1, None), s2)"
    and "chpName chp1 = chpName chp" "chpIncludedResources chp1 = chpIncludedResources chp"
      "chpExcludedResources chp1 = chpExcludedResources chp"
    and "\<And>k ns m w. stored s (k, ns, m) = Some w \<Longrightarrow> governs chp (namespaces s) k ns w \<Longrightarrow> fresh (chpOwner chp) w"
  shows "rel_option sameWorkload (stored s key) (stored s2 key)"
  by (rule chp_api.hibernate_wake [OF assms(1,5,3,2,4,8,6,7,9-11)]; rule assms(12))

theorem chp_hibernate_wake_roundtrip_witness:
  "let s1 = snd (quietPass (19 * hour) quietCluster); s2 = snd (quietPass (33 * hour) s1)
   in map_option wReplicas (memStored s1 (Deployment, ''lab'', ''sim'')) = Some (Some 1) \<and>
      (\<forall>key. rel_option sameWorkload (memStored quietCluster key) (memStored s2 key))"
proof -
  obtain res s1 res2 s2 chp1 where r: "quietPass (19 * hour) quietCluster = ((res, None), s1)"
      "quietPass (33 * hour) s1 = ((res2, None), s2)"
    and chp1: "getClusterHibernatePolicy (memChpClient noFault) ''quiet'' s1 = Inr chp1"
      "clusterWindowOpen (\<lambda>_. Some UTC) chp1 (clkNow (atTime (33 * hour)))"
      "chpName chp1 = chpName quietPolicy" "chpIncludedResources chp1 = chpIncludedResources quietPolicy"
      "chpExcludedResources chp1 = chpExcludedResources quietPolicy"
    and n: "map_option wReplicas (memStored s1 (Deployment, ''lab'', ''sim'')) = Some (Some 1)"
    using quiet_night by (auto simp: quietPolicy_def atTime_def prod_eq_iff split: prod.splits sum.splits)
  have "rel_option sameWorkload (memStored quietCluster key) (memStored s2 key)" for key
    by (rule chp_hibernate_wake_roundtrip [OF memChp.chp_api_axioms quietCluster_slashFree quietCluster_policy
          quiet_closed r(1) [unfolded quietPass_def] chp1(1,2) r(2) [unfolded quietPass_def] chp1(3-5) quietCluster_fresh])
  then show ?thesis using r n by (simp add: Let_def)
qed

text \<open>
  C29: on every outcome, failures included, a cluster policy leaves alone the workloads it does not
  govern and those that any other policy, cluster-wide or namespaced, has hibernated.
\<close>

theorem chp_reconcile_frame:
  assumes "chp_api C stored storedHPA namespaces" "slashFreeStore (stored s)"
    and "getClusterHibernatePolicy C n s = Inr chp"
    and "reconcileClusterHibernatePolicy C loadLocation clk n s = ((res, e), s')"
    and "stored s (k, ns, m) = Some w"
    and "\<not> governs chp (namespaces s) k ns w \<or> isHibernated w \<and> \<not> ownedBy (wAnnotations w) (chpOwner chp)"
  shows "stored s' (k, ns, m) = Some w"
  using chp_api.reconcile_any [OF assms(1,4,3,2), of "(k, ns, m)"] assms(5,6)
  by (auto simp: specGoverned_def specHibernate_def specSleep_def specScaleDown_def specWake_def
      specScaleUp_def specWakeDaemonSet_def)

theorem chp_reconcile_frame_witness:
  "memStored (snd (quietPass (19 * hour) quietCluster)) (StatefulSet, ''shop'', ''db'')
     = Some (plainWorkload ''db'' (Some 3) None)"
proof -
  obtain res e s1 where r: "quietPass (19 * hour) quietCluster = ((res, e), s1)" by (metis prod.collapse)
  have db: "memStored quietCluster (StatefulSet, ''shop'', ''db'') = Some (plainWorkload ''db'' (Some 3) None)"
    by (simp add: memStored_def quietCluster_def plainWorkload_def)
  have "\<not> governs quietPolicy ((set \<circ> mNamespaces) quietCluster) StatefulSet ''shop'' (plainWorkload ''db'' (Some 3) None)"
    by (simp add: governs_def candidate_def kindAllowed_def quietPolicy_def refOf_def workloadKindFilter_def)
  then have "memStored s1 (StatefulSet, ''shop'', ''db'') = Some (plainWorkload ''db'' (Some 3) None)"
    by (intro chp_reconcile_frame [where k = StatefulSet and ns = "''shop''" and m = "''db''",
          OF memChp.chp_api_axioms quietCluster_slashFree quietCluster_policy r [unfolded quietPass_def]] db disjI1)
  then show ?thesis by (simp add: r)
qed

end
