(* ===== verification/Policies.thy ===== *)
theory Policies
  imports Hibernate_Policy Cluster_Policy
begin

text \<open>
  All hibernation policies of a cluster together. The two controllers of \<open>internal/controller\<close> reconcile
  any number of HibernatePolicies and ClusterHibernatePolicies in any order, at any time and with any
  failures, while users change workloads that are awake, edit policies and namespaces, and delete objects.
  The invariant: a workload is its original, or asleep with exactly one owner, whose wake-up gives the
  original back. No interleaving loses a replica count or a node selector.
\<close>

section \<open>One workload\<close>

text \<open>A workload that no policy has touched, with a state that can be saved.\<close>

definition untouched :: "workload \<Rightarrow> bool" where
  "untouched w \<longleftrightarrow> \<not> isHibernated w \<and>
     list_all (\<lambda>key. wAnnotations w key = None)
       [annotationOriginalReplicas, annotationOriginalNodeSelector, annotationHibernated,
        annotationHibernatedByKind, annotationHibernatedByName, annotationHibernatedByNamespace] \<and>
     0 \<le> sint (currentReplicas w) \<and> wellFormedSelector (wNodeSelector w)"

definition recoverable :: "wkind \<Rightarrow> workload \<Rightarrow> workload \<Rightarrow> bool" where
  "recoverable k w0 w \<longleftrightarrow>
     untouched w \<and> sameWorkload w0 w \<or>
     isHibernated w \<and> (\<exists>owner. (\<forall>x. ownedBy (wAnnotations w) x \<longleftrightarrow> x = owner) \<and>
       untouched (specWake k owner w) \<and> sameWorkload w0 (specWake k owner w))"

lemma untouched_fresh: "untouched w \<Longrightarrow> fresh owner w \<and> \<not> isHibernated w"
  by (simp add: untouched_def fresh_def heldBy_def)

lemma sameWorkload_trans: "sameWorkload w0 w \<Longrightarrow> sameWorkload w w' \<Longrightarrow> sameWorkload w0 w'"
  by (auto simp: sameWorkload_def)

lemma ownedBy_mark: "oKind owner \<noteq> '''' \<Longrightarrow> ownedBy (markHibernated a owner) x \<longleftrightarrow> x = owner"
  by (auto simp: ownedBy_def markHibernated_def ann_def hibernationAnnotations Let_def)

lemma untouched_same: "untouched w \<Longrightarrow> sameWorkload w w' \<Longrightarrow> untouched w'"
  by (auto simp: untouched_def sameWorkload_def isHibernated_def currentReplicas_def)

text \<open>Hibernation leaves a workload awake or marks it for its owner.\<close>

lemma specHibernate_marks:
  assumes "oKind owner \<noteq> ''''"
  shows "specHibernate k action owner w = w \<or>
    isHibernated (specHibernate k action owner w) \<and>
    (\<forall>x. ownedBy (wAnnotations (specHibernate k action owner w)) x \<longleftrightarrow> x = owner)"
proof -
  have "specHibernate k action owner w = w \<or> (\<exists>t. specHibernate k action owner w = scaledDown owner t w) \<or>
      specHibernate k action owner w = sleptDaemonSet owner w"
    by (auto simp: specHibernate_def specSleep_def specScaleDown_def split: option.splits)
  moreover have "ownedBy (wAnnotations (scaledDown owner t w)) x \<longleftrightarrow> x = owner"
    "ownedBy (wAnnotations (sleptDaemonSet owner w)) x \<longleftrightarrow> x = owner" for t x
    using assms by (simp_all add: scaledDown_def sleptDaemonSet_def ownedBy_mark)
  ultimately show ?thesis by auto
qed

lemma recoverable_hibernate:
  assumes "recoverable k w0 w" "oKind owner \<noteq> ''''"
  shows "recoverable k w0 (specHibernate k action owner w)"
proof (cases "isHibernated w")
  case True
  then have "specHibernate k action owner w = w" by (simp add: specHibernate_def specSleep_def specScaleDown_def)
  then show ?thesis using assms(1) by simp
next
  case False
  then have w: "untouched w" "sameWorkload w0 w" using assms(1) by (auto simp: recoverable_def)
  have again: "sameWorkload w (specWake k owner (specHibernate k action owner w))"
    using specWake_specHibernate untouched_fresh [OF w(1)] by blast
  then have "untouched (specWake k owner (specHibernate k action owner w))"
    "sameWorkload w0 (specWake k owner (specHibernate k action owner w))"
    using untouched_same [OF w(1)] sameWorkload_trans [OF w(2)] by blast+
  then show ?thesis using specHibernate_marks [OF assms(2), of k action w] w by (auto simp: recoverable_def)
qed

lemma recoverable_wake:
  assumes "recoverable k w0 w"
  shows "recoverable k w0 (specWake k owner w)"
proof (cases "isHibernated w \<and> ownedBy (wAnnotations w) owner")
  case True
  then show ?thesis using assms untouched_fresh by (auto simp: recoverable_def)
next
  case False
  then have "specWake k owner w = w" by (auto simp: specWake_def specWakeDaemonSet_def specScaleUp_def)
  then show ?thesis using assms by simp
qed

lemma recoverable_refl: "untouched w \<Longrightarrow> recoverable k w w"
  by (simp add: recoverable_def)

section \<open>Every interleaving\<close>

text \<open>
  The workloads as users last set them, and as they are stored. Policies, namespaces and autoscalers are
  arbitrary in each step: a step takes any state of the client whose workloads are the stored ones.
\<close>

inductive policyReach ::
  "('s, 'm) hpClient_scheme \<Rightarrow> ('s \<Rightarrow> wkey \<rightharpoonup> workload) \<Rightarrow> ('t, 'n) chpClient_scheme \<Rightarrow> ('t \<Rightarrow> wkey \<rightharpoonup> workload) \<Rightarrow>
     (wkey \<rightharpoonup> workload) \<Rightarrow> (wkey \<rightharpoonup> workload) \<Rightarrow> bool"
  for C stored D dstored where
  reach_start: "(\<And>key w. m key = Some w \<Longrightarrow> untouched w) \<Longrightarrow> policyReach C stored D dstored m m"
| reach_hp: "policyReach C stored D dstored orig (stored s) \<Longrightarrow>
    reconcileHibernatePolicy C loadLocation clk ns n s = (res, s') \<Longrightarrow>
    policyReach C stored D dstored orig (stored s')"
| reach_chp: "policyReach C stored D dstored orig (dstored t) \<Longrightarrow> slashFreeStore (dstored t) \<Longrightarrow>
    reconcileClusterHibernatePolicy D loadLocation clk n t = (res, t') \<Longrightarrow>
    policyReach C stored D dstored orig (dstored t')"
| reach_user: "policyReach C stored D dstored orig m \<Longrightarrow> (\<And>w. m key = Some w \<Longrightarrow> \<not> isHibernated w) \<Longrightarrow> untouched w' \<Longrightarrow>
    policyReach C stored D dstored (orig(key \<mapsto> w')) (m(key \<mapsto> w'))"
| reach_delete: "policyReach C stored D dstored orig m \<Longrightarrow>
    policyReach C stored D dstored (orig(key := None)) (m(key := None))"

text \<open>A reconciliation leaves each workload alone, hibernates it or wakes it.\<close>

lemma hp_step_workload:
  assumes "hp_api C stored storedHPA" "reconcileHibernatePolicy C loadLocation clk ns n s = (res, s')"
  shows "\<exists>action owner. oKind owner \<noteq> '''' \<and> stored s' (k, x) \<in> {stored s (k, x),
    map_option (specWake k owner) (stored s (k, x)), map_option (specHibernate k action owner) (stored s (k, x))}"
proof (cases "getHibernatePolicy C ns n s")
  case (Inl e)
  then have "s' = s" using assms(2) by (auto simp: reconcileHibernatePolicy_def split: kerr.splits)
  then show ?thesis by (auto intro!: exI [of _ "hpOwner undefined"] simp: hpOwner_def)
next
  case (Inr hp)
  obtain r e where res: "res = (r, e)" by (cases res)
  obtain ns' m where x: "x = (ns', m)" by (cases x)
  have "oKind (hpOwner hp) \<noteq> ''''" by (simp add: hpOwner_def)
  then show ?thesis
    using hp_api.reconcile_any [OF assms(1) assms(2) [unfolded res] Inr, of "(k, x)"]
    by (intro exI [of _ "hpAction hp"] exI [of _ "hpOwner hp"])
      (cases "stored s (k, x)"; auto simp: x specPolicy_def specPass_def split: if_splits)
qed

lemma chp_step_workload:
  assumes "chp_api D dstored storedHPA namespaces" "slashFreeStore (dstored t)"
    and "reconcileClusterHibernatePolicy D loadLocation clk n t = (res, t')"
  shows "\<exists>action owner. oKind owner \<noteq> '''' \<and> dstored t' (k, x) \<in> {dstored t (k, x),
    map_option (specWake k owner) (dstored t (k, x)), map_option (specHibernate k action owner) (dstored t (k, x))}"
proof (cases "getClusterHibernatePolicy D n t")
  case (Inl e)
  then have "t' = t" using assms(3) by (auto simp: reconcileClusterHibernatePolicy_def split: kerr.splits)
  then show ?thesis by (auto intro!: exI [of _ "chpOwner undefined"] simp: chpOwner_def)
next
  case (Inr chp)
  obtain r e where res: "res = (r, e)" by (cases res)
  obtain ns' m where x: "x = (ns', m)" by (cases x)
  have "oKind (chpOwner chp) \<noteq> ''''" by (simp add: chpOwner_def)
  then show ?thesis
    using chp_api.reconcile_any [OF assms(1) assms(3) [unfolded res] Inr assms(2), of "(k, x)"]
    by (intro exI [of _ "chpAction chp"] exI [of _ "chpOwner chp"])
      (cases "dstored t (k, x)"; auto simp: x specGoverned_def split: if_splits)
qed

lemma recoverable_step:
  assumes "rel_option (recoverable k) a b" "oKind owner \<noteq> ''''"
    and "c \<in> {b, map_option (specWake k owner) b, map_option (specHibernate k action owner) b}"
  shows "rel_option (recoverable k) a c"
  using assms by (cases a; cases b) (auto simp: recoverable_wake recoverable_hibernate)

section \<open>Properties\<close>

text \<open>
  C3: In every state that any interleaving of reconciliations of HibernatePolicies and
  ClusterHibernatePolicies reaches, failed ones included, with changes by users to workloads that are
  awake, edits of policies and namespaces and deletions in between: each workload is as its user last set
  it (up to a nil replica count that has become 1), or it is hibernated, exactly one policy owns it, and
  the wake-up by that policy gives back what the user set.
\<close>

theorem workloads_recoverable:
  assumes "hp_api C stored storedHPA" "chp_api D dstored dstoredHPA namespaces"
    and "policyReach C stored D dstored orig m"
  shows "rel_option (recoverable k) (orig (k, ns, n)) (m (k, ns, n))"
  using assms(3)
proof (induction arbitrary: k ns n rule: policyReach.induct)
  case (reach_start m)
  then show ?case by (cases "m (k, ns, n)") (auto simp: recoverable_refl)
next
  case (reach_hp orig s loadLocation clk ns' n' res s')
  from hp_step_workload [OF assms(1) reach_hp.hyps(2), of k "(ns, n)"] show ?case
    using recoverable_step [OF reach_hp.IH [of k ns n]] by blast
next
  case (reach_chp orig t loadLocation clk n' res t')
  from chp_step_workload [OF assms(2) reach_chp.hyps(2,3), of k "(ns, n)"] show ?case
    using recoverable_step [OF reach_chp.IH [of k ns n]] by blast
qed (auto simp: recoverable_refl)

text \<open>The night policy puts the shop to sleep; in the morning a cluster policy that governs it finds it asleep.\<close>

definition shopNight :: hpMemState where
  "shopNight = snd (nightPass noFault (19 * hour) shopCluster)"

definition shopMorning :: chpMemState where
  "shopMorning = \<lparr>mWorkloads = mWorkloads shopNight, mHPAs = mHPAs shopNight,
     mNamespaces = [(''shop'', namesPolicy ''quiet'')], mClusterPolicies = [(''quiet'', quietPolicy)]\<rparr>"

lemma shopCluster_untouched: "memStored shopCluster key = Some w \<Longrightarrow> untouched w"
  by (cases key) (auto simp: memStored_def shopCluster_def plainWorkload_def untouched_def isHibernated_def ann_def
      annotationTrueValue_def currentReplicas_def wellFormedSelector_def asciiString_def byte_def split: if_splits)

abbreviation shopReach :: "(wkey \<rightharpoonup> workload) \<Rightarrow> bool" where
  "shopReach \<equiv> policyReach (memHpClient noFault :: hpMemState hpClient) memStored
     (memChpClient noFault :: chpMemState chpClient) memStored (memStored shopCluster)"

lemma shop_reached:
  "shopReach (memStored (snd (quietPass (33 * hour) shopMorning)))"
proof -
  have start: "shopReach (memStored shopCluster)"
    by (rule reach_start) (rule shopCluster_untouched)
  have night: "shopReach (memStored shopNight)"
    unfolding shopNight_def nightPass_def
    by (rule reach_hp [OF start]) (rule prod.collapse [symmetric])
  have same: "memStored shopMorning = memStored shopNight" by (simp add: fun_eq_iff memStored_def shopMorning_def)
  have "slashFreeStore (memStored shopMorning)"
  proof -
    have "list_all (\<lambda>((k, ns, n), w). CHR ''/'' \<notin> set ns) (mWorkloads shopNight)" by code_simp
    then show ?thesis
      by (auto simp: slashFreeStore_def memStored_def shopMorning_def list_all_iff dest!: map_of_SomeD)
  qed
  then show ?thesis
    unfolding quietPass_def by (rule reach_chp [OF night [folded same]]) (rule prod.collapse [symmetric])
qed

theorem workloads_recoverable_witness:
  "rel_option (recoverable Deployment) (memStored shopCluster (Deployment, ''shop'', ''web''))
     (memStored (snd (quietPass (33 * hour) shopMorning)) (Deployment, ''shop'', ''web'')) \<and>
   map_option wReplicas (memStored (snd (quietPass (33 * hour) shopMorning)) (Deployment, ''shop'', ''web'')) = Some (Some 2)"
proof
  show "rel_option (recoverable Deployment) (memStored shopCluster (Deployment, ''shop'', ''web''))
     (memStored (snd (quietPass (33 * hour) shopMorning)) (Deployment, ''shop'', ''web''))"
    by (rule workloads_recoverable [OF memHp.hp_api_axioms memChp.chp_api_axioms shop_reached])
  show "map_option wReplicas (memStored (snd (quietPass (33 * hour) shopMorning)) (Deployment, ''shop'', ''web'')) = Some (Some 2)"
    by code_simp
qed

end
