(* ===== verification/Cron_Job.thy ===== *)
theory Cron_Job
  imports Pricing Names Status
begin

text \<open>
  The EnergyAwareCronJob controller, \<open>internal/controller/energyawarecronjob_controller.go\<close>:
  synchronisation of the Job list, the next cron occurrence, the price-optimal start, dispatch.

  Not in the repository, and so parameters: the API client (the record \<open>cjClient\<close>), the cron
  library (\<open>cronParse\<close>; a schedule is its \<open>Next\<close> function), the rounding of \<open>float64\<close>
  arithmetic (\<open>rnd\<close>). \<open>sort.Slice\<close> leaves the order of equal keys open, so it is the parameter
  \<open>sortJobs\<close>. The texts of conditions and log lines are the parameter \<open>txt\<close>; nothing reads them.
  \<open>metav1.Time\<close> values keep their nanoseconds in memory and lose them in the stored object.
\<close>

section \<open>Data\<close>

record objectRef =
  orNamespace :: string
  orName :: string
  orUID :: string

text \<open>A Job: the fields the controller reads or writes. \<open>jSpec\<close> is the job template, opaque here.\<close>

record job =
  jNamespace :: string
  jName :: string
  jUID :: string
  jLabels :: annotations
  jAnnotations :: annotations
  jController :: "string option"
  jSpec :: string
  jConditions :: "(string \<times> string) list"
  jStartTime :: "time option"
  jCreationTimestamp :: time
  jCompletionTime :: "time option"

record eacj =
  eNamespace :: string
  eName :: string
  eCreationTimestamp :: time
  ePriceSource :: string
  eStrategy :: string
  eEstimatedDuration :: duration
  eScheduleWindow :: duration
  eSchedule :: string
  eTimeZone :: "string option"
  eStartingDeadlineSeconds :: "int option"
  eConcurrencyPolicy :: string
  eSuspend :: "bool option"
  eSuccessfulJobsHistoryLimit :: "32 word option"
  eFailedJobsHistoryLimit :: "32 word option"
  eTemplateLabels :: annotations
  eTemplateAnnotations :: annotations
  eTemplateSpec :: string
  eActive :: "objectRef list"
  eLastScheduleTime :: "time option"
  eNextCronWindow :: "time option"
  eNextScheduledTime :: "time option"
  eLastSuccessfulTime :: "time option"
  eConditions :: "condition list"

definition JobComplete :: string where "JobComplete = ''Complete''"
definition JobFailed :: string where "JobFailed = ''Failed''"
definition ForbidConcurrent :: string where "ForbidConcurrent = ''Forbid''"
definition ReplaceConcurrent :: string where "ReplaceConcurrent = ''Replace''"
definition ownerLabel :: string where "ownerLabel = ''greencosts.hstr.nl/owner''"

definition retryShort :: duration where "retryShort = 15 * minute"

text \<open>The errors that end in \<open>failWith\<close>.\<close>

datatype cj_error =
    InvalidSchedule string string
  | TooManyMissed
  | SourceNotFound string
  | PriceError price_error

text \<open>The errors \<open>Reconcile\<close> returns. A Go panic is an error too: the manager recovers it.\<close>

datatype cj_failure =
    CallFailed string kerr
  | ConditionNotSaved cj_error kerr
  | Panic string

record 's cjClient =
  getEACJ :: "string \<Rightarrow> string \<Rightarrow> 's \<Rightarrow> kerr + eacj"
  listJobs :: "string \<Rightarrow> string \<Rightarrow> string \<Rightarrow> 's \<Rightarrow> kerr + job list"
  deleteJob :: "string \<Rightarrow> string \<Rightarrow> 's \<Rightarrow> kerr option \<times> 's"
  setControllerReference :: "eacj \<Rightarrow> job \<Rightarrow> kerr + job"
  createJob :: "job \<Rightarrow> 's \<Rightarrow> (kerr + job) \<times> 's"
  getPrices :: "string \<Rightarrow> string \<Rightarrow> 's \<Rightarrow> kerr + pricePoint list"
  patchEACJStatus :: "eacj \<Rightarrow> eacj \<Rightarrow> 's \<Rightarrow> kerr option \<times> 's"
  listEACJs :: "string \<Rightarrow> 's \<Rightarrow> kerr + eacj list"

record texts =
  failText :: "cj_error \<Rightarrow> string"
  scheduledText :: "time \<Rightarrow> rat \<Rightarrow> string"
  dispatchedText :: "string \<Rightarrow> time \<Rightarrow> string"

section \<open>Jobs\<close>

fun jobFinishedLoop :: "(string \<times> string) list \<Rightarrow> bool \<times> string" where
  "jobFinishedLoop [] = (False, '''')"
| "jobFinishedLoop ((t, st) # cs) =
     (if (t = JobComplete \<or> t = JobFailed) \<and> st = ConditionTrue then (True, t) else jobFinishedLoop cs)"

definition jobFinished :: "job \<Rightarrow> bool \<times> string" where
  "jobFinished j = jobFinishedLoop (jConditions j)"

definition jobStartTime :: "job \<Rightarrow> time" where
  "jobStartTime j = (case jStartTime j of Some t \<Rightarrow> t | None \<Rightarrow> jCreationTimestamp j)"

text \<open>A copy of a map is the map.\<close>

definition copyStringMap :: "annotations \<Rightarrow> annotations" where
  "copyStringMap m = m"

definition buildJob :: "eacj \<Rightarrow> time \<Rightarrow> job" where
  "buildJob e scheduledAt =
     \<lparr>jNamespace = eNamespace e, jName = energyAwareCronJobName (eName e) scheduledAt, jUID = '''',
      jLabels = (copyStringMap (eTemplateLabels e))(ownerLabel \<mapsto> energyAwareCronJobOwnerLabelValue (eName e)),
      jAnnotations = copyStringMap (eTemplateAnnotations e),
      jController = None, jSpec = eTemplateSpec e,
      jConditions = [], jStartTime = None, jCreationTimestamp = zeroTime, jCompletionTime = None\<rparr>"

definition jobRef :: "job \<Rightarrow> objectRef" where
  "jobRef j = \<lparr>orNamespace = jNamespace j, orName = jName j, orUID = jUID j\<rparr>"

section \<open>syncActiveJobs\<close>

text \<open>The loop over the listed Jobs: active references, successful and failed Jobs, last success.\<close>

record classified =
  cActive :: "objectRef list"
  cSuccessful :: "job list"
  cFailed :: "job list"
  cLastSuccess :: "time option"

definition classifyJob :: "job \<Rightarrow> classified \<Rightarrow> classified" where
  "classifyJob j c =
     (case jobFinished j of
        (False, _) \<Rightarrow> c\<lparr>cActive := cActive c @ [jobRef j]\<rparr>
      | (True, t) \<Rightarrow>
          if t = JobComplete then
            c\<lparr>cSuccessful := cSuccessful c @ [j],
              cLastSuccess := (case jCompletionTime j of
                 None \<Rightarrow> cLastSuccess c
               | Some ct \<Rightarrow>
                   (case cLastSuccess c of
                      None \<Rightarrow> Some ct
                    | Some l \<Rightarrow> if l < ct then Some ct else Some l))\<rparr>
          else c\<lparr>cFailed := cFailed c @ [j]\<rparr>)"

fun deleteJobs ::
  "('s, 'm) cjClient_scheme \<Rightarrow> string \<Rightarrow> job list \<Rightarrow> 's \<Rightarrow> cj_failure option \<times> 's" where
  "deleteJobs C what [] s = (None, s)"
| "deleteJobs C what (j # js) s =
     (case deleteJob C (jNamespace j) (jName j) s of
        (Some e, s') \<Rightarrow> if e \<noteq> NotFound then (Some (CallFailed what e), s') else deleteJobs C what js s'
      | (None, s') \<Rightarrow> deleteJobs C what js s')"

text \<open>
  Deleting the excess. A negative limit makes the slice end exceed its length; Go panics there
  (or at the nil element that follows).
\<close>

definition trimHistory ::
  "('s, 'm) cjClient_scheme \<Rightarrow> (job list \<Rightarrow> job list) \<Rightarrow> string \<Rightarrow> 32 word option \<Rightarrow> 32 word \<Rightarrow> job list \<Rightarrow> 's \<Rightarrow>
     cj_failure option \<times> 's" where
  "trimHistory C sortJobs what limit deflt js s =
     (let lim = sint (case limit of None \<Rightarrow> deflt | Some l \<Rightarrow> l);
          excess = int (length js) - lim
      in if excess \<le> 0 then (None, s)
         else if int (length js) < excess then (Some (Panic what), s)
         else deleteJobs C what (take (nat excess) (sortJobs js)) s)"

definition syncActiveJobs ::
  "('s, 'm) cjClient_scheme \<Rightarrow> (job list \<Rightarrow> job list) \<Rightarrow> eacj \<Rightarrow> 's \<Rightarrow> (cj_failure + eacj) \<times> 's" where
  "syncActiveJobs C sortJobs e s =
     (case listJobs C (eNamespace e) ownerLabel (energyAwareCronJobOwnerLabelValue (eName e)) s of
        Inl err \<Rightarrow> (Inl (CallFailed ''listing Jobs'' err), s)
      | Inr items \<Rightarrow>
          (let c = fold classifyJob items
                 \<lparr>cActive = [], cSuccessful = [], cFailed = [], cLastSuccess = eLastSuccessfulTime e\<rparr>;
               e' = e\<lparr>eActive := cActive c, eLastSuccessfulTime := cLastSuccess c\<rparr>
           in case trimHistory C sortJobs ''deleting old successful job''
                     (eSuccessfulJobsHistoryLimit e) 3 (cSuccessful c) s of
                (Some f, s1) \<Rightarrow> (Inl f, s1)
              | (None, s1) \<Rightarrow>
                  (case trimHistory C sortJobs ''deleting old failed job''
                          (eFailedJobsHistoryLimit e) 1 (cFailed c) s1 of
                     (Some f, s2) \<Rightarrow> (Inl f, s2)
                   | (None, s2) \<Rightarrow> (Inr e', s2))))"

section \<open>Next cron occurrence\<close>

text \<open>The loop: \<open>n\<close> is the number of advances left of the 100 allowed.\<close>

fun skipMissed :: "(time \<Rightarrow> time) \<Rightarrow> time \<Rightarrow> nat \<Rightarrow> time \<Rightarrow> cj_error + time" where
  "skipMissed Next deadline n next =
     (if next < deadline then
        (case n of 0 \<Rightarrow> Inl TooManyMissed | Suc m \<Rightarrow> skipMissed Next deadline m (Next next))
      else Inr next)"

declare skipMissed.simps [simp del]

text \<open>\<open>now.Add(-time.Duration(secs) * time.Second)\<close>, in \<open>int64\<close>.\<close>

definition scheduleDeadline :: "time \<Rightarrow> int \<Rightarrow> time" where
  "scheduleDeadline now secs = now + int64 (int64 (- secs) * second)"

definition nextScheduleTime :: "(time \<Rightarrow> time) \<Rightarrow> time \<Rightarrow> time \<Rightarrow> int option \<Rightarrow> cj_error + time" where
  "nextScheduleTime Next lastRun now startingDeadlineSeconds =
     (case startingDeadlineSeconds of
        None \<Rightarrow> Inr (Next lastRun)
      | Some secs \<Rightarrow> skipMissed Next (scheduleDeadline now secs) 100 (Next lastRun))"

definition scheduleString :: "eacj \<Rightarrow> string" where
  "scheduleString e =
     (let scheduleStr = eSchedule e
      in if \<not> HasPrefix scheduleStr ''TZ='' \<and> \<not> HasPrefix scheduleStr ''CRON_TZ=''
         then ''TZ='' @ (case eTimeZone e of Some tz \<Rightarrow> if tz \<noteq> '''' then tz else ''UTC'' | None \<Rightarrow> ''UTC'')
                @ '' '' @ scheduleStr
         else scheduleStr)"

section \<open>Dispatch\<close>

definition failWith ::
  "('s, 'm) cjClient_scheme \<Rightarrow> texts \<Rightarrow> clock \<Rightarrow> eacj \<Rightarrow> eacj \<Rightarrow> cj_error \<Rightarrow> 's \<Rightarrow>
     (result \<times> cj_failure option) \<times> 's" where
  "failWith C txt clk base e err s =
     (let e' = e\<lparr>eConditions := setCondition (eConditions e)
            \<lparr>cType = conditionTypeReady, cStatus = ConditionFalse, cReason = conditionReasonError,
             cMessage = failText txt err, cLastTransitionTime = clkStatus clk\<rparr>\<rparr>
      in case patchEACJStatus C base e' s of
           (Some x, s') \<Rightarrow> ((noRequeue, Some (ConditionNotSaved err x)), s')
         | (None, s') \<Rightarrow> ((requeueAfter retryShort, None), s'))"

fun deleteRefs :: "('s, 'm) cjClient_scheme \<Rightarrow> objectRef list \<Rightarrow> 's \<Rightarrow> cj_failure option \<times> 's" where
  "deleteRefs C [] s = (None, s)"
| "deleteRefs C (r # rs) s =
     (case deleteJob C (orNamespace r) (orName r) s of
        (Some e, s') \<Rightarrow> if e \<noteq> NotFound then (Some (CallFailed ''deleting active job'' e), s') else deleteRefs C rs s'
      | (None, s') \<Rightarrow> deleteRefs C rs s')"

text \<open>After the Job exists: record it and clear the plan.\<close>

definition dispatchedStatus :: "texts \<Rightarrow> clock \<Rightarrow> eacj \<Rightarrow> job \<Rightarrow> time \<Rightarrow> eacj" where
  "dispatchedStatus txt clk e j now =
     e\<lparr>eLastScheduleTime := Some now,
       eNextCronWindow := None,
       eNextScheduledTime := None,
       eActive := eActive e @ [jobRef j],
       eConditions := setCondition (eConditions e)
         \<lparr>cType = conditionTypeReady, cStatus = ConditionTrue, cReason = ''JobDispatched'',
          cMessage = dispatchedText txt (jName j) now, cLastTransitionTime = clkStatus clk\<rparr>\<rparr>"

definition dispatchJob ::
  "('s, 'm) cjClient_scheme \<Rightarrow> texts \<Rightarrow> clock \<Rightarrow> eacj \<Rightarrow> eacj \<Rightarrow> time \<Rightarrow> 's \<Rightarrow>
     (result \<times> cj_failure option) \<times> 's" where
  "dispatchJob C txt clk base e now s =
     (case (if eConcurrencyPolicy e = ReplaceConcurrent then deleteRefs C (eActive e) s else (None, s)) of
        (Some f, s1) \<Rightarrow> ((noRequeue, Some f), s1)
      | (None, s1) \<Rightarrow>
          (case setControllerReference C e (buildJob e now) of
             Inl x \<Rightarrow> ((noRequeue, Some (CallFailed ''setting owner reference'' x)), s1)
           | Inr j \<Rightarrow>
               (case createJob C j s1 of
                  (Inl x, s2) \<Rightarrow>
                    if x \<noteq> AlreadyExists then ((noRequeue, Some (CallFailed ''creating Job'' x)), s2)
                    else (case patchEACJStatus C base (dispatchedStatus txt clk e j now) s2 of
                            (Some y, s3) \<Rightarrow> ((noRequeue, Some (CallFailed ''updating status after dispatch'' y)), s3)
                          | (None, s3) \<Rightarrow> ((noRequeue\<lparr>Requeue := True\<rparr>, None), s3))
                | (Inr j', s2) \<Rightarrow>
                    (case patchEACJStatus C base (dispatchedStatus txt clk e j' now) s2 of
                       (Some y, s3) \<Rightarrow> ((noRequeue, Some (CallFailed ''updating status after dispatch'' y)), s3)
                     | (None, s3) \<Rightarrow> ((noRequeue\<lparr>Requeue := True\<rparr>, None), s3)))))"

section \<open>Reconcile\<close>

text \<open>Patch the status, and on success return the given result.\<close>

definition persist ::
  "('s, 'm) cjClient_scheme \<Rightarrow> string \<Rightarrow> eacj \<Rightarrow> eacj \<Rightarrow> result \<Rightarrow> 's \<Rightarrow> (result \<times> cj_failure option) \<times> 's" where
  "persist C what base e res s =
     (case patchEACJStatus C base e s of
        (Some x, s') \<Rightarrow> ((noRequeue, Some (CallFailed what x)), s')
      | (None, s') \<Rightarrow> ((res, None), s'))"

text \<open>Steps 9 to 11: prices, the optimal slot, and waiting for it.\<close>

definition scheduleInWindow ::
  "('s, 'm) cjClient_scheme \<Rightarrow> texts \<Rightarrow> (rat \<Rightarrow> rat) \<Rightarrow> clock \<Rightarrow> eacj \<Rightarrow> eacj \<Rightarrow> time \<Rightarrow> 's \<Rightarrow>
     (result \<times> cj_failure option) \<times> 's" where
  "scheduleInWindow C txt rnd clk base e nextCronTime s =
     (case getPrices C (eNamespace e) (ePriceSource e) s of
        Inl NotFound \<Rightarrow> failWith C txt clk base e (SourceNotFound (ePriceSource e)) s
      | Inl x \<Rightarrow> ((noRequeue, Some (CallFailed ''fetching EnergyPriceSource'' x)), s)
      | Inr prices \<Rightarrow>
          (let windowEnd = nextCronTime + eScheduleWindow e;
               window = filterPricesInWindow prices nextCronTime windowEnd
           in if window = [] then persist C ''updating status'' base e (requeueAfter retryShort) s
              else case selectPricePoint rnd window (eStrategy e) (eEstimatedDuration e) windowEnd of
                     Inl err \<Rightarrow> failWith C txt clk base e (PriceError err) s
                   | Inr selected \<Rightarrow>
                       (let optimalTime = At selected
                        in if \<not> optimalTime > clkNow clk then dispatchJob C txt clk base e (clkNow clk) s
                           else persist C ''updating NextScheduledTime'' base
                                  (e\<lparr>eNextCronWindow := Some nextCronTime,
                                     eNextScheduledTime := Some optimalTime,
                                     eConditions := setCondition (eConditions e)
                                       \<lparr>cType = conditionTypeReady, cStatus = ConditionTrue, cReason = ''Scheduled'',
                                        cMessage = scheduledText txt optimalTime (EurPerMWh selected),
                                        cLastTransitionTime = clkStatus clk\<rparr>\<rparr>)
                                  (requeueAfter (time_Sub optimalTime (clkUntil clk))) s)))"

text \<open>Steps 4 to 8: the cron occurrence, waiting for it, the concurrency policy, the empty window.\<close>

definition planNext ::
  "('s, 'm) cjClient_scheme \<Rightarrow> texts \<Rightarrow> (rat \<Rightarrow> rat) \<Rightarrow> (string \<Rightarrow> string + (time \<Rightarrow> time)) \<Rightarrow> clock \<Rightarrow> eacj \<Rightarrow> eacj \<Rightarrow> 's \<Rightarrow>
     (result \<times> cj_failure option) \<times> 's" where
  "planNext C txt rnd cronParse clk base e s =
     (case cronParse (scheduleString e) of
        Inl err \<Rightarrow> failWith C txt clk base e (InvalidSchedule (eSchedule e) err) s
      | Inr Next \<Rightarrow>
          (let lastRun = (case eLastScheduleTime e of Some t \<Rightarrow> t | None \<Rightarrow> eCreationTimestamp e)
           in case nextScheduleTime Next lastRun (clkNow clk) (eStartingDeadlineSeconds e) of
                Inl err \<Rightarrow> failWith C txt clk base e err s
              | Inr nextCronTime \<Rightarrow>
                  if nextCronTime > clkNow clk then
                    persist C ''updating status'' base (e\<lparr>eNextCronWindow := Some nextCronTime\<rparr>)
                      (requeueAfter (time_Sub nextCronTime (clkUntil clk))) s
                  else if eConcurrencyPolicy e = ForbidConcurrent \<and> eActive e \<noteq> [] then
                    persist C ''updating status'' base (e\<lparr>eLastScheduleTime := Some (clkNow clk)\<rparr>) noRequeue s
                  else if eScheduleWindow e = 0 then dispatchJob C txt clk base e (clkNow clk) s
                  else scheduleInWindow C txt rnd clk base e nextCronTime s))"

text \<open>The whole of \<open>Reconcile\<close>.\<close>

definition reconcileEACJ ::
  "('s, 'm) cjClient_scheme \<Rightarrow> texts \<Rightarrow> (rat \<Rightarrow> rat) \<Rightarrow> (string \<Rightarrow> string + (time \<Rightarrow> time)) \<Rightarrow> (job list \<Rightarrow> job list) \<Rightarrow>
     clock \<Rightarrow> string \<Rightarrow> string \<Rightarrow> 's \<Rightarrow> (result \<times> cj_failure option) \<times> 's" where
  "reconcileEACJ C txt rnd cronParse sortJobs clk reqNamespace reqName s =
     (case getEACJ C reqNamespace reqName s of
        Inl x \<Rightarrow> ((noRequeue, if x = NotFound then None else Some (CallFailed ''get'' x)), s)
      | Inr base \<Rightarrow>
          (case syncActiveJobs C sortJobs base s of
             (Inl f, s1) \<Rightarrow> ((noRequeue, Some f), s1)
           | (Inr e, s1) \<Rightarrow>
               if eSuspend e = Some True then
                 persist C ''status'' base (e\<lparr>eNextScheduledTime := None\<rparr>) noRequeue s1
               else (case eNextScheduledTime e of
                       Some t \<Rightarrow>
                         if \<not> clkNow clk < t then dispatchJob C txt clk base e t s1
                         else persist C ''updating status'' base e (requeueAfter (time_Sub t (clkUntil clk))) s1
                     | None \<Rightarrow> planNext C txt rnd cronParse clk base e s1)))"

text \<open>The watch handler: a price source event reconciles the cron jobs of its namespace that use it.\<close>

definition energyPriceSourceToEACJs ::
  "('s, 'm) cjClient_scheme \<Rightarrow> string \<Rightarrow> string \<Rightarrow> 's \<Rightarrow> (string \<times> string) list" where
  "energyPriceSourceToEACJs C objNamespace objName s =
     (case listEACJs C objNamespace s of
        Inl _ \<Rightarrow> []
      | Inr items \<Rightarrow> map (\<lambda>e. (eNamespace e, eName e)) (filter (\<lambda>e. ePriceSource e = objName) items))"

end
