(* ===== verification/Cron_Safety.thy ===== *)
theory Cron_Safety
  imports Cron_Job "HOL-Library.Multiset"
begin

text \<open>
  Safety of the EnergyAwareCronJob controller: how many Jobs a reconciliation can create, that
  \<open>Forbid\<close> never has two Jobs running, and what the history limits delete. The laws of the API
  client are the locale \<open>job_api\<close>.
\<close>

section \<open>The client\<close>

definition jkey :: "job \<Rightarrow> string \<times> string" where
  "jkey j = (jNamespace j, jName j)"

definition ckey :: "eacj \<Rightarrow> string \<times> string" where
  "ckey e = (eNamespace e, eName e)"

definition savedStatus :: "eacj \<Rightarrow> eacj" where
  "savedStatus e =
     e\<lparr>eLastScheduleTime := map_option wholeSeconds (eLastScheduleTime e),
       eNextCronWindow := map_option wholeSeconds (eNextCronWindow e),
       eNextScheduledTime := map_option wholeSeconds (eNextScheduledTime e),
       eLastSuccessfulTime := map_option wholeSeconds (eLastSuccessfulTime e)\<rparr>"

locale job_api =
  fixes C :: "('s, 'm) cjClient_scheme"
    and jobs :: "'s \<Rightarrow> string \<times> string \<rightharpoonup> job"
    and crons :: "'s \<Rightarrow> string \<times> string \<rightharpoonup> eacj"
  assumes jobs_key: "jobs s key = Some j \<Longrightarrow> jkey j = key"
    and crons_key: "crons s key = Some e \<Longrightarrow> ckey e = key"
    and get_cron: "getEACJ C ns n s = Inr e \<Longrightarrow> crons s (ns, n) = Some e"
    and list_jobs: "listJobs C ns l v s = Inr js \<Longrightarrow>
      set js = {j. \<exists>n. jobs s (ns, n) = Some j \<and> jLabels j l = Some v} \<and> distinct js"
    and delete_ok: "deleteJob C ns n s = (None, s') \<Longrightarrow>
      jobs s' = (jobs s)((ns, n) := None) \<and> crons s' = crons s"
    and delete_error: "deleteJob C ns n s = (Some x, s') \<Longrightarrow> jobs s' = jobs s \<and> crons s' = crons s"
    and delete_missing: "deleteJob C ns n s = (Some NotFound, s') \<Longrightarrow> jobs s (ns, n) = None"
    and delete_prices: "deleteJob C ns n s = (xo, s') \<Longrightarrow> getPrices C a b s' = getPrices C a b s"
    and set_owner: "setControllerReference C e j = Inr j' \<Longrightarrow> j' = j\<lparr>jController := jController j'\<rparr>"
    and create_ok: "createJob C j s = (Inr j', s') \<Longrightarrow>
      jobs s (jkey j) = None \<and> jobs s' = (jobs s)(jkey j \<mapsto> j') \<and> crons s' = crons s \<and>
      j' = j\<lparr>jUID := jUID j', jCreationTimestamp := jCreationTimestamp j'\<rparr>"
    and create_error: "createJob C j s = (Inl x, s') \<Longrightarrow> jobs s' = jobs s \<and> crons s' = crons s"
    and create_exists: "createJob C j s = (Inl AlreadyExists, s') \<Longrightarrow> jobs s (jkey j) \<noteq> None"
    and status_ok: "patchEACJStatus C base e s = (None, s') \<Longrightarrow> crons s (ckey base) = Some base \<Longrightarrow>
      ckey e = ckey base \<Longrightarrow> crons s' = (crons s)(ckey base \<mapsto> savedStatus e) \<and> jobs s' = jobs s"
    and status_error: "patchEACJStatus C base e s = (Some x, s') \<Longrightarrow> crons s' = crons s \<and> jobs s' = jobs s"

text \<open>\<open>sort.Slice\<close> by start time: a permutation in order, nothing more.\<close>

definition sortsJobs :: "(job list \<Rightarrow> job list) \<Rightarrow> bool" where
  "sortsJobs f \<longleftrightarrow> (\<forall>js. mset (f js) = mset js \<and> sorted (map jobStartTime (f js)))"

section \<open>A reference client\<close>

record cjMemState =
  mJobs :: "((string \<times> string) \<times> job) list"
  mCrons :: "((string \<times> string) \<times> eacj) list"
  mPrices :: "((string \<times> string) \<times> pricePoint list) list"

definition nameJob :: "string \<times> string \<Rightarrow> job \<Rightarrow> job" where
  "nameJob key j = j\<lparr>jNamespace := fst key, jName := snd key\<rparr>"

definition nameCron :: "string \<times> string \<Rightarrow> eacj \<Rightarrow> eacj" where
  "nameCron key e = e\<lparr>eNamespace := fst key, eName := snd key\<rparr>"

definition memJobs :: "cjMemState \<Rightarrow> string \<times> string \<rightharpoonup> job" where
  "memJobs s key = map_option (nameJob key) (map_of (mJobs s) key)"

definition memCrons :: "cjMemState \<Rightarrow> string \<times> string \<rightharpoonup> eacj" where
  "memCrons s key = map_option (nameCron key) (map_of (mCrons s) key)"

definition memListJobs :: "cjMemState \<Rightarrow> string \<Rightarrow> string \<Rightarrow> string \<Rightarrow> job list" where
  "memListJobs s ns l v = filter (\<lambda>j. jNamespace j = ns \<and> jLabels j l = Some v)
     (List.map_filter (memJobs s) (remdups (map fst (mJobs s))))"

definition memCjClient :: "(string \<Rightarrow> kerr option) \<Rightarrow> cjMemState cjClient" where
  "memCjClient fault =
     \<lparr>getEACJ = (\<lambda>ns n s. case memCrons s (ns, n) of None \<Rightarrow> Inl NotFound | Some e \<Rightarrow> Inr e),
      listJobs = (\<lambda>ns l v s. case fault ''list'' of Some x \<Rightarrow> Inl x | None \<Rightarrow> Inr (memListJobs s ns l v)),
      deleteJob = (\<lambda>ns n s. case fault ''delete'' of
          Some x \<Rightarrow> (Some (ApiError ''fault''), s)
        | None \<Rightarrow> if memJobs s (ns, n) = None then (Some NotFound, s)
                  else (None, s\<lparr>mJobs := filter (\<lambda>(key, j). key \<noteq> (ns, n)) (mJobs s)\<rparr>)),
      setControllerReference = (\<lambda>e j. Inr (j\<lparr>jController := Some (eName e)\<rparr>)),
      createJob = (\<lambda>j s. case fault ''create'' of
          Some x \<Rightarrow> (Inl (ApiError ''fault''), s)
        | None \<Rightarrow> if memJobs s (jkey j) \<noteq> None then (Inl AlreadyExists, s)
                  else (Inr (j\<lparr>jUID := ''uid''\<rparr>), s\<lparr>mJobs := (jkey j, j\<lparr>jUID := ''uid''\<rparr>) # mJobs s\<rparr>)),
      getPrices = (\<lambda>ns n s. case map_of (mPrices s) (ns, n) of None \<Rightarrow> Inl NotFound | Some ps \<Rightarrow> Inr ps),
      patchEACJStatus = (\<lambda>base e s. case fault ''status'' of
          Some x \<Rightarrow> (Some x, s)
        | None \<Rightarrow> (None, s\<lparr>mCrons := alistPut (ckey base) (savedStatus e) (mCrons s)\<rparr>)),
      listEACJs = (\<lambda>ns s. Inr (map snd (filter (\<lambda>(key, e). fst key = ns) (mCrons s))))\<rparr>"

lemma memJobs_set:
  "set (memListJobs s ns l v) = {j. \<exists>n. memJobs s (ns, n) = Some j \<and> jLabels j l = Some v}" (is "?L = ?R")
proof (intro set_eqI iffI)
  fix j assume "j \<in> ?R"
  then obtain n where n: "memJobs s (ns, n) = Some j" "jLabels j l = Some v" by blast
  then have "(ns, n) \<in> set (remdups (map fst (mJobs s)))"
    by (auto simp: memJobs_def dest!: map_of_SomeD intro: rev_image_eqI)
  with n(1) have "j \<in> set (List.map_filter (memJobs s) (remdups (map fst (mJobs s))))"
    unfolding set_map_filter by blast
  moreover have "jNamespace j = ns" using n(1) by (auto simp: memJobs_def nameJob_def)
  ultimately show "j \<in> ?L" using n(2) by (simp add: memListJobs_def)
next
  fix j assume "j \<in> ?L"
  then obtain key where "memJobs s key = Some j" "jNamespace j = ns" "jLabels j l = Some v"
    by (auto simp: memListJobs_def set_map_filter)
  moreover from this have "key = (ns, snd key)" by (cases key) (auto simp: memJobs_def nameJob_def)
  ultimately show "j \<in> ?R" by (metis (mono_tags, lifting) mem_Collect_eq)
qed

lemma memJobs_distinct: "distinct (memListJobs s ns l v)"
proof -
  have "distinct (map jkey (List.map_filter (memJobs s) (remdups (map fst (mJobs s)))))"
    by (rule distinct_map_filter [where h = id]) (auto simp: memJobs_def nameJob_def jkey_def)
  then show ?thesis by (simp add: memListJobs_def distinct_map)
qed

lemma map_of_filter_key: "map_of (filter (\<lambda>(k, v). k \<noteq> key) xs) = (map_of xs)(key := None)"
  by (induction xs) (auto simp: fun_eq_iff)

lemma nameJob_jkey [simp]: "nameJob (jkey j) j = j"
  by (simp add: nameJob_def jkey_def)

lemma nameCron_ckey [simp]: "nameCron (ckey e) e = e"
  by (simp add: nameCron_def ckey_def)

lemma ckey_savedStatus [simp]: "ckey (savedStatus e) = ckey e"
  by (simp add: savedStatus_def ckey_def)

lemma memCrons_put:
  assumes "memCrons s (ckey base) = Some base" "ckey e = ckey base"
  shows "memCrons (s\<lparr>mCrons := alistPut (ckey base) (savedStatus e) (mCrons s)\<rparr>)
    = (memCrons s)(ckey base \<mapsto> savedStatus e)"
proof
  fix key
  have "ckey base \<in> fst ` set (mCrons s)"
    using assms(1) by (auto simp: memCrons_def dest: map_of_SomeD intro: rev_image_eqI)
  moreover have "nameCron (ckey base) (savedStatus e) = savedStatus e"
    using nameCron_ckey [of "savedStatus e"] assms(2) by (simp only: ckey_savedStatus)
  ultimately show "memCrons (s\<lparr>mCrons := alistPut (ckey base) (savedStatus e) (mCrons s)\<rparr>) key
      = ((memCrons s)(ckey base \<mapsto> savedStatus e)) key"
    by (simp add: memCrons_def map_of_alistPut)
qed

interpretation memCj: job_api "memCjClient fault" memJobs memCrons for fault
proof (unfold_locales, goal_cases)
  case (4 ns l v s js)
  then show ?case using memJobs_set memJobs_distinct by (auto simp: memCjClient_def split: option.splits)
next
  case (5 ns n s s')
  then show ?case
    by (auto simp: memCjClient_def memJobs_def memCrons_def fun_eq_iff map_of_filter_key split: option.splits if_splits)
next
  case (10 j s j' s')
  have "nameJob (jkey j) (j\<lparr>jUID := u\<rparr>) = j\<lparr>jUID := u\<rparr>" for u by (simp add: nameJob_def jkey_def)
  with 10 show ?case
    by (auto simp: memCjClient_def memJobs_def memCrons_def fun_eq_iff split: option.splits if_splits)
next
  case (13 base e s s')
  then show ?case using memCrons_put
    by (auto simp: memCjClient_def memJobs_def split: option.splits)
qed (auto simp: memCjClient_def memJobs_def memCrons_def nameJob_def nameCron_def jkey_def ckey_def
    split: option.splits if_splits)

section \<open>Listing and history\<close>

definition unfinished :: "job \<Rightarrow> bool" where
  "unfinished j \<longleftrightarrow> \<not> fst (jobFinished j)"

definition succeeded :: "job \<Rightarrow> bool" where
  "succeeded j \<longleftrightarrow> jobFinished j = (True, JobComplete)"

definition failed :: "job \<Rightarrow> bool" where
  "failed j \<longleftrightarrow> fst (jobFinished j) \<and> snd (jobFinished j) \<noteq> JobComplete"

lemma job_classes: "unfinished j \<or> succeeded j \<or> failed j"
    "\<not> (unfinished j \<and> succeeded j)" "\<not> (unfinished j \<and> failed j)" "\<not> (succeeded j \<and> failed j)"
  by (auto simp: unfinished_def succeeded_def failed_def prod_eq_iff)

lemma fold_classifyJob:
  "cActive (fold classifyJob js c) = cActive c @ map jobRef (filter unfinished js)"
  "cSuccessful (fold classifyJob js c) = cSuccessful c @ filter succeeded js"
  "cFailed (fold classifyJob js c) = cFailed c @ filter failed js"
  by (induction js arbitrary: c)
    (auto simp: classifyJob_def unfinished_def succeeded_def failed_def split: prod.splits bool.splits)

text \<open>A store with some Jobs removed.\<close>

definition without :: "(string \<times> string) set \<Rightarrow> (string \<times> string \<rightharpoonup> job) \<Rightarrow> (string \<times> string \<rightharpoonup> job)" where
  "without D m = m |` (- D)"

lemma without_simps [simp]:
  "without {} m = m" "without D (without E m) = without (D \<union> E) m"
  "(m(key := None)) = without {key} m"
  by (auto simp: without_def fun_eq_iff restrict_map_def)

lemma without_None: "m key = None \<Longrightarrow> without (insert key D) m = without D m"
  by (auto simp: without_def fun_eq_iff restrict_map_def)

lemma without_apply: "without D m key = (if key \<in> D then None else m key)"
  by (simp add: without_def)

text \<open>The Jobs the controller lists for a cron job: those of its namespace with its owner label.\<close>

definition owned :: "(string \<times> string \<rightharpoonup> job) \<Rightarrow> eacj \<Rightarrow> job set" where
  "owned m e = {j. \<exists>n. m (eNamespace e, n) = Some j \<and>
     jLabels j ownerLabel = Some (energyAwareCronJobOwnerLabelValue (eName e))}"

context job_api
begin

lemma delete_gone:
  assumes "deleteJob C ns n s = (e, s1)" "e = None \<or> e = Some NotFound"
  shows "jobs s1 = without {(ns, n)} (jobs s) \<and> crons s1 = crons s"
  using assms delete_ok delete_error delete_missing without_None [of "jobs s" "(ns, n)" "{}"] by (cases e) auto

lemma delete_any:
  assumes "deleteJob C ns n s = (e, s1)"
  shows "\<exists>D \<subseteq> {(ns, n)}. jobs s1 = without D (jobs s) \<and> crons s1 = crons s"
proof (cases e)
  case None
  then show ?thesis using assms delete_ok by (intro exI [of _ "{(ns, n)}"]) auto
next
  case (Some x)
  then show ?thesis using assms delete_error by (intro exI [of _ "{}"]) auto
qed

lemma deleteJobs_ok:
  "deleteJobs C what js s = (None, s') \<Longrightarrow> jobs s' = without (jkey ` set js) (jobs s) \<and> crons s' = crons s"
proof (induction js arbitrary: s)
  case (Cons j js)
  obtain e s1 where d: "deleteJob C (jNamespace j) (jName j) s = (e, s1)" by fastforce
  have "e = None \<or> e = Some NotFound" "deleteJobs C what js s1 = (None, s')"
    using d Cons.prems by (auto split: option.splits if_splits)
  with delete_gone [OF d] Cons.IH [of s1] show ?case
    by (simp add: jkey_def Un_commute insert_is_Un [symmetric])
qed simp

lemma deleteJobs_any:
  "deleteJobs C what js s = (r, s') \<Longrightarrow> \<exists>D \<subseteq> jkey ` set js. jobs s' = without D (jobs s) \<and> crons s' = crons s"
proof (induction js arbitrary: s)
  case (Cons j js)
  obtain e s1 where d: "deleteJob C (jNamespace j) (jName j) s = (e, s1)" by fastforce
  obtain D where D: "D \<subseteq> {jkey j}" "jobs s1 = without D (jobs s)" "crons s1 = crons s"
    using delete_any [OF d] by (auto simp: jkey_def)
  have "s' = s1 \<or> deleteJobs C what js s1 = (r, s')" using Cons.prems d by (auto split: option.splits if_splits)
  then show ?case
  proof
    assume "deleteJobs C what js s1 = (r, s')"
    from Cons.IH [OF this] obtain E where "E \<subseteq> jkey ` set js" "jobs s' = without E (jobs s1)" "crons s' = crons s1" by blast
    with D show ?thesis by (intro exI [of _ "E \<union> D"]) auto
  qed (use D in auto)
qed (auto intro: exI [of _ "{}"])

lemma trimHistory_any:
  assumes "trimHistory C f what limit d js s = (r, s')" "sortsJobs f"
  shows "\<exists>D \<subseteq> jkey ` set js. jobs s' = without D (jobs s) \<and> crons s' = crons s"
proof (cases "\<exists>n. deleteJobs C what (take n (f js)) s = (r, s')")
  case True
  then obtain n where "deleteJobs C what (take n (f js)) s = (r, s')" by blast
  from deleteJobs_any [OF this] obtain D where "D \<subseteq> jkey ` set (take n (f js))"
      "jobs s' = without D (jobs s)" "crons s' = crons s" by blast
  moreover have "set (take n (f js)) \<subseteq> set js"
    using assms(2) set_take_subset by (fastforce simp: sortsJobs_def dest: mset_eq_setD)
  ultimately show ?thesis by (intro exI [of _ D]) auto
next
  case False
  then have "s' = s" using assms(1) by (auto simp: trimHistory_def Let_def split: if_splits)
  then show ?thesis by (intro exI [of _ "{}"]) simp
qed

lemma deleteJobs_prices: "deleteJobs C what js s = (r, s') \<Longrightarrow> getPrices C a b s' = getPrices C a b s"
proof (induction js arbitrary: s)
  case (Cons j js)
  obtain e s1 where d: "deleteJob C (jNamespace j) (jName j) s = (e, s1)" by fastforce
  have "s' = s1 \<or> deleteJobs C what js s1 = (r, s')"
    using Cons.prems d by (auto split: option.splits if_splits)
  then show ?case using Cons.IH [of s1] delete_prices [OF d] by auto
qed simp

lemma trimHistory_prices:
  "trimHistory C f what limit d js s = (r, s') \<Longrightarrow> getPrices C a b s' = getPrices C a b s"
  using deleteJobs_prices by (auto simp: trimHistory_def Let_def split: if_splits)

lemma sync_prices:
  assumes "syncActiveJobs C f e s = (r, s')"
  shows "getPrices C a b s' = getPrices C a b s"
proof (cases "listJobs C (eNamespace e) ownerLabel (energyAwareCronJobOwnerLabelValue (eName e)) s")
  case (Inl x)
  then show ?thesis using assms by (simp add: syncActiveJobs_def)
next
  case (Inr js)
  obtain r1 s1 where t1: "trimHistory C f ''deleting old successful job'' (eSuccessfulJobsHistoryLimit e) 3
      (filter succeeded js) s = (r1, s1)" by fastforce
  obtain r2 s2 where t2: "trimHistory C f ''deleting old failed job'' (eFailedJobsHistoryLimit e) 1
      (filter failed js) s1 = (r2, s2)" by fastforce
  have "s' = s1 \<or> s' = s2"
    using assms Inr t1 t2 by (auto simp: syncActiveJobs_def fold_classifyJob Let_def split: option.splits)
  then show ?thesis using trimHistory_prices [OF t1] trimHistory_prices [OF t2] by auto
qed

lemma sync_any:
  assumes "syncActiveJobs C f e s = (r, s')" "sortsJobs f"
  shows "\<exists>D \<subseteq> jkey ` {j \<in> owned (jobs s) e. \<not> unfinished j}. jobs s' = without D (jobs s) \<and> crons s' = crons s"
    and "r = Inr e' \<Longrightarrow> \<exists>js. set js = owned (jobs s) e \<and> distinct js \<and> eActive e' = map jobRef (filter unfinished js) \<and>
      (\<exists>t. e' = e\<lparr>eActive := eActive e', eLastSuccessfulTime := t\<rparr>)"
proof -
  show "\<exists>D \<subseteq> jkey ` {j \<in> owned (jobs s) e. \<not> unfinished j}. jobs s' = without D (jobs s) \<and> crons s' = crons s"
  proof (cases "listJobs C (eNamespace e) ownerLabel (energyAwareCronJobOwnerLabelValue (eName e)) s")
    case (Inl x)
    then show ?thesis using assms(1) by (intro exI [of _ "{}"]) (simp add: syncActiveJobs_def)
  next
    case (Inr js)
    have js: "set js = owned (jobs s) e" using list_jobs [OF Inr] by (simp add: owned_def)
    obtain r1 s1 where t1: "trimHistory C f ''deleting old successful job'' (eSuccessfulJobsHistoryLimit e) 3
        (filter succeeded js) s = (r1, s1)" by fastforce
    from trimHistory_any [OF t1 assms(2)] obtain D where D: "D \<subseteq> jkey ` set (filter succeeded js)"
      "jobs s1 = without D (jobs s)" "crons s1 = crons s" by blast
    obtain r2 s2 where t2: "trimHistory C f ''deleting old failed job'' (eFailedJobsHistoryLimit e) 1
        (filter failed js) s1 = (r2, s2)" by fastforce
    from trimHistory_any [OF t2 assms(2)] obtain E where E: "E \<subseteq> jkey ` set (filter failed js)"
      "jobs s2 = without E (jobs s1)" "crons s2 = crons s1" by blast
    have fin: "jkey ` set (filter succeeded js) \<subseteq> jkey ` {j \<in> owned (jobs s) e. \<not> unfinished j}"
      "jkey ` set (filter failed js) \<subseteq> jkey ` {j \<in> owned (jobs s) e. \<not> unfinished j}"
      using job_classes js by auto
    have "s' = s1 \<or> s' = s2"
      using assms(1) Inr t1 t2 by (auto simp: syncActiveJobs_def fold_classifyJob Let_def split: option.splits)
    then show ?thesis
    proof
      assume "s' = s1"
      with D fin show ?thesis by (intro exI [of _ D]) auto
    next
      assume "s' = s2"
      with D E fin show ?thesis by (intro exI [of _ "E \<union> D"]) auto
    qed
  qed
next
  assume "r = Inr e'"
  then obtain js where js: "listJobs C (eNamespace e) ownerLabel (energyAwareCronJobOwnerLabelValue (eName e)) s = Inr js"
    using assms(1) by (auto simp: syncActiveJobs_def split: sum.splits)
  show "\<exists>js. set js = owned (jobs s) e \<and> distinct js \<and> eActive e' = map jobRef (filter unfinished js) \<and>
      (\<exists>t. e' = e\<lparr>eActive := eActive e', eLastSuccessfulTime := t\<rparr>)"
    using list_jobs [OF js] assms(1) js \<open>r = Inr e'\<close>
    by (intro exI [of _ js])
      (auto simp: owned_def syncActiveJobs_def fold_classifyJob Let_def split: option.splits prod.splits)
qed

end

section \<open>What a dispatch does\<close>

text \<open>
  The Job of a scheduled time. Dispatch deletes Jobs only under \<open>Replace\<close>, and only the active
  ones; what it adds is this one key, and only if it was free.
\<close>

definition slotKey :: "eacj \<Rightarrow> time \<Rightarrow> string \<times> string" where
  "slotKey e t = (eNamespace e, energyAwareCronJobName (eName e) t)"

definition refKey :: "objectRef \<Rightarrow> string \<times> string" where
  "refKey r = (orNamespace r, orName r)"

definition replaced :: "eacj \<Rightarrow> (string \<times> string) set" where
  "replaced e = (if eConcurrencyPolicy e = ReplaceConcurrent then refKey ` set (eActive e) else {})"

text \<open>The Job found at a slot's key by the controller that just made it.\<close>

definition builtFrom :: "eacj \<Rightarrow> time \<Rightarrow> job \<Rightarrow> bool" where
  "builtFrom e t j \<longleftrightarrow>
     j = (buildJob e t)\<lparr>jUID := jUID j, jController := jController j, jCreationTimestamp := jCreationTimestamp j\<rparr>"

lemma jkey_buildJob [simp]: "jkey (buildJob e t) = slotKey e t"
  by (simp add: jkey_def buildJob_def slotKey_def)

lemma builtFrom_facts:
  assumes "builtFrom e t j"
  shows "jkey j = slotKey e t" "unfinished j" "jLabels j ownerLabel = Some (energyAwareCronJobOwnerLabelValue (eName e))"
proof -
  obtain u c ts where j: "j = (buildJob e t)\<lparr>jUID := u, jController := c, jCreationTimestamp := ts\<rparr>"
    using assms unfolding builtFrom_def by blast
  show "jkey j = slotKey e t" "unfinished j" "jLabels j ownerLabel = Some (energyAwareCronJobOwnerLabelValue (eName e))"
    by (simp_all add: j jkey_def buildJob_def slotKey_def unfinished_def jobFinished_def)
qed

context job_api
begin

lemma deleteRefs_any:
  "deleteRefs C rs s = (r, s') \<Longrightarrow> \<exists>D \<subseteq> refKey ` set rs. (r = None \<longrightarrow> D = refKey ` set rs) \<and>
    jobs s' = without D (jobs s) \<and> crons s' = crons s"
proof (induction rs arbitrary: s)
  case (Cons x rs)
  obtain e s1 where d: "deleteJob C (orNamespace x) (orName x) s = (e, s1)" by fastforce
  consider "e = None \<or> e = Some NotFound" "deleteRefs C rs s1 = (r, s')" | "r \<noteq> None" "s' = s1"
    using Cons.prems d by (auto split: option.splits if_splits)
  then show ?case
  proof cases
    case 1
    from Cons.IH [OF 1(2)] obtain E where E: "E \<subseteq> refKey ` set rs" "r = None \<longrightarrow> E = refKey ` set rs"
      "jobs s' = without E (jobs s1)" "crons s' = crons s1" by blast
    have "jobs s' = without (insert (refKey x) E) (jobs s)" "crons s' = crons s"
      using delete_gone [OF d 1(1)] E(3,4) by (simp_all add: refKey_def)
    moreover have "insert (refKey x) E \<subseteq> refKey ` set (x # rs)" using E(1) by auto
    moreover have "r = None \<longrightarrow> insert (refKey x) E = refKey ` set (x # rs)" using E(2) by simp
    ultimately show ?thesis by (intro exI [of _ "insert (refKey x) E"] conjI)
  next
    case 2
    obtain D where "D \<subseteq> {refKey x}" "jobs s1 = without D (jobs s)" "crons s1 = crons s"
      using delete_any [OF d] by (auto simp: refKey_def)
    with 2 show ?thesis by (intro exI [of _ D] conjI) auto
  qed
qed (auto intro: exI [of _ "{}"])

text \<open>The status patch after the Job exists: saved, or nothing changes.\<close>

lemma patch_any:
  assumes "patchEACJStatus C base e s = (x, s')" "crons s (ckey base) = Some base" "ckey e = ckey base"
  shows "jobs s' = jobs s \<and> (if x = None then crons s' = (crons s)(ckey base \<mapsto> savedStatus e) else crons s' = crons s)"
  using assms status_ok status_error by (cases x) auto

lemma owner_job:
  assumes "setControllerReference C e (buildJob e t) = Inr j"
  shows "builtFrom e t j" "jkey j = slotKey e t"
proof -
  obtain c where "j = (buildJob e t)\<lparr>jController := c\<rparr>" using set_owner [OF assms] by blast
  then show "builtFrom e t j" by (simp add: builtFrom_def buildJob_def)
  then show "jkey j = slotKey e t" by (rule builtFrom_facts)
qed

lemma create_any:
  assumes "createJob C j s = (c, s')" "builtFrom e t j"
  shows "jobs s' = jobs s \<or> (\<exists>j'. builtFrom e t j' \<and> jobs s (slotKey e t) = None \<and> jobs s' = (jobs s)(slotKey e t \<mapsto> j'))"
    and "crons s' = crons s"
    and "c = Inr j' \<or> (c = Inl AlreadyExists \<and> j' = j) \<Longrightarrow> jobs s' (slotKey e t) \<noteq> None \<and> jkey j' = slotKey e t"
proof -
  note key = builtFrom_facts(1) [OF assms(2)]
  have built: "builtFrom e t (j\<lparr>jUID := u, jCreationTimestamp := w\<rparr>)" for u w
  proof -
    obtain u' c w' where "j = (buildJob e t)\<lparr>jUID := u', jController := c, jCreationTimestamp := w'\<rparr>"
      using assms(2) unfolding builtFrom_def by blast
    then show ?thesis by (simp add: builtFrom_def buildJob_def)
  qed
  show "jobs s' = jobs s \<or> (\<exists>j'. builtFrom e t j' \<and> jobs s (slotKey e t) = None \<and> jobs s' = (jobs s)(slotKey e t \<mapsto> j'))"
    and "crons s' = crons s"
    using assms(1) create_ok create_error built key by (cases c; metis)+
  assume "c = Inr j' \<or> (c = Inl AlreadyExists \<and> j' = j)"
  then show "jobs s' (slotKey e t) \<noteq> None \<and> jkey j' = slotKey e t"
  proof
    assume "c = Inr j'"
    then show ?thesis using create_ok [of j s j' s'] assms(1) built builtFrom_facts(1) key by (metis fun_upd_same option.distinct(1))
  next
    assume "c = Inl AlreadyExists \<and> j' = j"
    then show ?thesis using create_exists [of j s s'] create_error [of j s AlreadyExists s'] assms(1) key by auto
  qed
qed

lemma ckey_dispatchedStatus [simp]: "ckey (dispatchedStatus txt clk e j t) = ckey e"
  by (simp add: dispatchedStatus_def ckey_def)

lemma dispatch_any:
  assumes "dispatchJob C txt clk base e t s = ((r, f), s')" "crons s (ckey base) = Some base" "ckey e = ckey base"
  shows "\<exists>D \<subseteq> replaced e.
    (jobs s' = without D (jobs s) \<or>
      (\<exists>j. builtFrom e t j \<and> without D (jobs s) (slotKey e t) = None \<and> jobs s' = (without D (jobs s))(slotKey e t \<mapsto> j))) \<and>
    (f = None \<longrightarrow> D = replaced e \<and> jobs s' (slotKey e t) \<noteq> None \<and> r = noRequeue\<lparr>Requeue := True\<rparr> \<and>
        (\<exists>j. jkey j = slotKey e t \<and> crons s' = (crons s)(ckey base \<mapsto> savedStatus (dispatchedStatus txt clk e j t)))) \<and>
    (f \<noteq> None \<longrightarrow> crons s' = crons s \<and> r = noRequeue)"
proof -
  obtain d s1 where d: "(if eConcurrencyPolicy e = ReplaceConcurrent then deleteRefs C (eActive e) s else (None, s)) = (d, s1)"
    by fastforce
  then obtain D where D: "D \<subseteq> replaced e" "d = None \<Longrightarrow> D = replaced e" "jobs s1 = without D (jobs s)" "crons s1 = crons s"
    using deleteRefs_any [of "eActive e" s d s1] by (auto simp: replaced_def split: if_splits)
  note run = assms(1) [unfolded dispatchJob_def d]
  show ?thesis
  proof (cases "d \<noteq> None \<or> (\<exists>x. setControllerReference C e (buildJob e t) = Inl x)")
    case True
    then have "s' = s1" "f \<noteq> None" "r = noRequeue" using run by (auto split: option.splits)
    then show ?thesis using D by (intro exI [of _ D]) auto
  next
    case False
    then obtain j where dN: "d = None" and j: "setControllerReference C e (buildJob e t) = Inr j"
      by (metis obj_sumE)
    obtain c s2 where c: "createJob C j s1 = (c, s2)" by fastforce
    note made = create_any [OF c owner_job(1) [OF j]]
    show ?thesis
    proof (cases "\<exists>j'. c = Inr j' \<or> (c = Inl AlreadyExists \<and> j' = j)")
      case True
      then obtain j' where j': "c = Inr j' \<or> (c = Inl AlreadyExists \<and> j' = j)" by blast
      obtain x s3 where x: "patchEACJStatus C base (dispatchedStatus txt clk e j' t) s2 = (x, s3)" by fastforce
      then have s': "s' = s3" "r = (if x = None then noRequeue\<lparr>Requeue := True\<rparr> else noRequeue)" "f = None \<longleftrightarrow> x = None"
        using run c j' by (auto simp: dN j split: option.splits)
      note patched = patch_any [OF x]
      show ?thesis
        using D(1,3,4) D(2) [OF dN] made made(3) [OF j'] patched s' assms(2,3) by (intro exI [of _ D]) auto
    next
      case False
      then have "s' = s2" "f \<noteq> None" "r = noRequeue" using run c by (auto simp: dN j split: sum.splits if_splits)
      then show ?thesis using D made(1,2) by (intro exI [of _ D]) auto
    qed
  qed
qed

end

section \<open>What a reconciliation does\<close>

text \<open>A status patch that may have been saved: no Job is touched.\<close>

definition quiet ::
  "('s \<Rightarrow> string \<times> string \<rightharpoonup> job) \<Rightarrow> ('s \<Rightarrow> string \<times> string \<rightharpoonup> eacj) \<Rightarrow> eacj \<Rightarrow> eacj \<Rightarrow> 's \<Rightarrow> 's \<Rightarrow> bool" where
  "quiet jobs crons base e s s' \<longleftrightarrow>
     jobs s' = jobs s \<and> (crons s' = crons s \<or> crons s' = (crons s)(ckey base \<mapsto> savedStatus e))"

text \<open>What a reconciliation that does not plan leaves of the fields the next one reads.\<close>

definition samePlan :: "eacj \<Rightarrow> eacj \<Rightarrow> bool" where
  "samePlan e e' \<longleftrightarrow> ckey e' = ckey e \<and> eConcurrencyPolicy e' = eConcurrencyPolicy e \<and>
     eNextScheduledTime e' = eNextScheduledTime e"

text \<open>Step 11: the slot is selected from the window of a past occurrence and still ahead.\<close>

definition plans ::
  "('s, 'm) cjClient_scheme \<Rightarrow> (rat \<Rightarrow> rat) \<Rightarrow> clock \<Rightarrow> eacj \<Rightarrow> 's \<Rightarrow> time \<Rightarrow> pricePoint \<Rightarrow> bool" where
  "plans C rnd clk e s W p \<longleftrightarrow> W \<le> clkNow clk \<and> clkNow clk < At p \<and>
     (\<exists>prices. getPrices C (eNamespace e) (ePriceSource e) s = Inr prices \<and>
       selectPricePoint rnd (filterPricesInWindow prices W (W + eScheduleWindow e)) (eStrategy e)
         (eEstimatedDuration e) (W + eScheduleWindow e) = Inr p)"

text \<open>The occurrence a reconciliation serves.\<close>

definition serves :: "(string \<Rightarrow> string + (time \<Rightarrow> time)) \<Rightarrow> clock \<Rightarrow> eacj \<Rightarrow> time \<Rightarrow> bool" where
  "serves cronParse clk e W \<longleftrightarrow> (\<exists>Next. cronParse (scheduleString e) = Inr Next \<and>
     nextScheduleTime Next (case eLastScheduleTime e of Some t \<Rightarrow> t | None \<Rightarrow> eCreationTimestamp e)
       (clkNow clk) (eStartingDeadlineSeconds e) = Inr W)"

context job_api
begin

lemma persist_quiet:
  assumes "persist C what base e res s = ((r, f), s')" "crons s (ckey base) = Some base" "ckey e = ckey base"
  shows "quiet jobs crons base e s s'" "f = None \<Longrightarrow> r = res \<and> crons s' = (crons s)(ckey base \<mapsto> savedStatus e)"
proof -
  obtain x t where x: "patchEACJStatus C base e s = (x, t)" by fastforce
  show "quiet jobs crons base e s s'" "f = None \<Longrightarrow> r = res \<and> crons s' = (crons s)(ckey base \<mapsto> savedStatus e)"
    using patch_any [OF x assms(2,3)] assms(1) x
    by (auto simp: persist_def quiet_def split: option.splits if_splits)
qed

lemma failWith_quiet:
  assumes "failWith C txt clk base e err s = ((r, f), s')" "crons s (ckey base) = Some base" "ckey e = ckey base"
  shows "\<exists>e'. samePlan e e' \<and> quiet jobs crons base e' s s' \<and> r \<in> {noRequeue, requeueAfter retryShort}"
proof -
  define e' where "e' = e\<lparr>eConditions := setCondition (eConditions e)
    \<lparr>cType = conditionTypeReady, cStatus = ConditionFalse, cReason = conditionReasonError,
     cMessage = failText txt err, cLastTransitionTime = clkStatus clk\<rparr>\<rparr>"
  obtain x t where x: "patchEACJStatus C base e' s = (x, t)" by fastforce
  have "ckey e' = ckey base" using assms(3) by (simp add: e'_def ckey_def)
  from patch_any [OF x assms(2) this] have "quiet jobs crons base e' s s'" "r \<in> {noRequeue, requeueAfter retryShort}"
    using assms(1) x by (auto simp: failWith_def e'_def [symmetric] quiet_def Let_def split: option.splits if_splits)
  moreover have "samePlan e e'" by (simp add: samePlan_def e'_def ckey_def)
  ultimately show ?thesis by blast
qed

lemma scheduleInWindow_cases:
  assumes "scheduleInWindow C txt rnd clk base e W s = ((r, f), s')" "crons s (ckey base) = Some base"
    "ckey e = ckey base" "W \<le> clkNow clk"
  shows "dispatchJob C txt clk base e (clkNow clk) s = ((r, f), s') \<or> s' = s \<or>
    (\<exists>e'. samePlan e e' \<and> quiet jobs crons base e' s s') \<or>
    (\<exists>p cs. plans C rnd clk e s W p \<and>
      persist C ''updating NextScheduledTime'' base
        (e\<lparr>eNextCronWindow := Some W, eNextScheduledTime := Some (At p), eConditions := cs\<rparr>)
        (requeueAfter (time_Sub (At p) (clkUntil clk))) s = ((r, f), s'))"
proof (cases "getPrices C (eNamespace e) (ePriceSource e) s")
  case (Inl x)
  then show ?thesis
    using assms failWith_quiet by (cases x) (fastforce simp: scheduleInWindow_def)+
next
  case (Inr prices)
  define window where "window = filterPricesInWindow prices W (W + eScheduleWindow e)"
  note run = assms(1) [unfolded scheduleInWindow_def Inr Let_def, simplified, folded window_def]
  show ?thesis
  proof (cases "window = []")
    case True
    then show ?thesis
      using run persist_quiet(1) [of "''updating status''" base e] assms(2,3) by (auto simp: samePlan_def)
  next
    case False
    show ?thesis
    proof (cases "selectPricePoint rnd window (eStrategy e) (eEstimatedDuration e) (W + eScheduleWindow e)")
      case (Inl x)
      then show ?thesis using run False failWith_quiet assms(2,3) by fastforce
    next
      case sel: (Inr p)
      show ?thesis
      proof (cases "At p > clkNow clk")
        case True
        then have "plans C rnd clk e s W p"
          using sel Inr assms(4) by (auto simp: plans_def window_def)
        then show ?thesis using run False sel True by auto
      next
        case F: False
        then show ?thesis using run False sel by simp
      qed
    qed
  qed
qed

lemma planNext_cases:
  assumes "planNext C txt rnd cronParse clk base e s = ((r, f), s')" "crons s (ckey base) = Some base"
    "ckey e = ckey base"
  shows "(dispatchJob C txt clk base e (clkNow clk) s = ((r, f), s') \<and>
      (eConcurrencyPolicy e = ForbidConcurrent \<longrightarrow> eActive e = [])) \<or> s' = s \<or>
    (\<exists>e'. samePlan e e' \<and> quiet jobs crons base e' s s') \<or>
    (\<exists>W p cs. serves cronParse clk e W \<and> plans C rnd clk e s W p \<and> (eConcurrencyPolicy e = ForbidConcurrent \<longrightarrow> eActive e = []) \<and>
      persist C ''updating NextScheduledTime'' base
        (e\<lparr>eNextCronWindow := Some W, eNextScheduledTime := Some (At p), eConditions := cs\<rparr>)
        (requeueAfter (time_Sub (At p) (clkUntil clk))) s = ((r, f), s'))"
proof (cases "cronParse (scheduleString e)")
  case (Inl x)
  then show ?thesis using assms failWith_quiet by (fastforce simp: planNext_def)
next
  case (Inr Next)
  define lastRun where "lastRun = (case eLastScheduleTime e of Some t \<Rightarrow> t | None \<Rightarrow> eCreationTimestamp e)"
  note run = assms(1) [unfolded planNext_def Inr Let_def, simplified, folded lastRun_def]
  show ?thesis
  proof (cases "nextScheduleTime Next lastRun (clkNow clk) (eStartingDeadlineSeconds e)")
    case (Inl x)
    then show ?thesis using run assms failWith_quiet by fastforce
  next
    case W: (Inr W)
    have q: "\<exists>e'. samePlan e e' \<and> quiet jobs crons base e' s s'"
      if "persist C what base e1 res s = ((r, f), s')" "samePlan e e1" for what e1 res
      using that persist_quiet(1) [OF that(1) assms(2)] assms(3) by (auto simp: samePlan_def)
    have sp: "samePlan e (e\<lparr>eNextCronWindow := x\<rparr>)" "samePlan e (e\<lparr>eLastScheduleTime := x\<rparr>)" for x
      by (simp_all add: samePlan_def ckey_def)
    have sv: "serves cronParse clk e W" using Inr W by (simp add: serves_def lastRun_def)
    consider "W > clkNow clk" | "\<not> W > clkNow clk" "eConcurrencyPolicy e = ForbidConcurrent" "eActive e \<noteq> []"
      | "\<not> W > clkNow clk" "eConcurrencyPolicy e = ForbidConcurrent \<longrightarrow> eActive e = []" by blast
    then show ?thesis
    proof cases
      case 1
      then show ?thesis using run W q sp(1) by auto
    next
      case 2
      then show ?thesis using run W q sp(2) by auto
    next
      case 3
      then show ?thesis
        using run W sv scheduleInWindow_cases [OF _ assms(2,3), of "txt" rnd clk W r f s'] by (auto split: if_splits)
    qed
  qed
qed

end

end
