(* ===== verification/Cron_Runs.thy ===== *)
theory Cron_Runs
  imports Cron_Safety
begin

text \<open>
  Whole reconciliations of an EnergyAwareCronJob: how many Jobs one can create and under which
  name, where the planned slot lies, what the history limits delete, and the \<open>Forbid\<close> policy as an
  invariant of a step relation in which reconciliations and outside changes interleave.
\<close>

section \<open>The outcomes of a reconciliation\<close>

text \<open>The Jobs of a cron job that have not finished, by name.\<close>

definition activeNames :: "(string \<times> string \<rightharpoonup> job) \<Rightarrow> string \<Rightarrow> string \<Rightarrow> string set" where
  "activeNames m ns n = {k. \<exists>j. m (ns, k) = Some j \<and> unfinished j \<and>
     jLabels j ownerLabel = Some (energyAwareCronJobOwnerLabelValue n)}"

text \<open>The cron job as \<open>syncActiveJobs\<close> leaves it in memory, and the store after its deletions.\<close>

definition synced ::
  "('s, 'm) cjClient_scheme \<Rightarrow> ('s \<Rightarrow> string \<times> string \<rightharpoonup> job) \<Rightarrow> ('s \<Rightarrow> string \<times> string \<rightharpoonup> eacj) \<Rightarrow> eacj \<Rightarrow> eacj \<Rightarrow> 's \<Rightarrow> 's \<Rightarrow> bool" where
  "synced C jobs crons base e s s1 \<longleftrightarrow>
     (\<exists>D \<subseteq> jkey ` {j \<in> owned (jobs s) base. \<not> unfinished j}. jobs s1 = without D (jobs s)) \<and> crons s1 = crons s \<and>
     getPrices C (eNamespace base) (ePriceSource base) s1 = getPrices C (eNamespace base) (ePriceSource base) s \<and>
     (\<exists>t as. e = base\<lparr>eActive := as, eLastSuccessfulTime := t\<rparr> \<and>
        set as = jobRef ` {j \<in> owned (jobs s) base. unfinished j})"

lemma synced_facts:
  assumes "synced C jobs crons base e s s1"
  shows "ckey e = ckey base" "eConcurrencyPolicy e = eConcurrencyPolicy base" "eNextScheduledTime e = eNextScheduledTime base"
    "eNamespace e = eNamespace base" "eName e = eName base" "slotKey e t = slotKey base t" "eSuspend e = eSuspend base"
    "eScheduleWindow e = eScheduleWindow base" "eEstimatedDuration e = eEstimatedDuration base"
    "crons s1 = crons s"
    "getPrices C (eNamespace e) (ePriceSource e) s1 = getPrices C (eNamespace base) (ePriceSource base) s"
  using assms by (auto simp: synced_def ckey_def slotKey_def)

lemma synced_serves: "synced C jobs crons base e s s1 \<Longrightarrow> serves cronParse clk e W = serves cronParse clk base W"
  by (auto simp: synced_def serves_def scheduleString_def Let_def cong: option.case_cong if_cong)

context job_api
begin

lemma owned_key: "j \<in> owned (jobs s) e \<Longrightarrow> jobs s (jkey j) = Some j \<and> jNamespace j = eNamespace e"
  using jobs_key by (fastforce simp: owned_def jkey_def)

text \<open>Deleting finished Jobs leaves the active ones.\<close>

lemma trimmed_active:
  assumes "D \<subseteq> jkey ` {j \<in> owned (jobs s) base. \<not> unfinished j}" "jobs s1 = without D (jobs s)"
  shows "activeNames (jobs s1) (eNamespace base) (eName base) = activeNames (jobs s) (eNamespace base) (eName base)"
    and "\<And>key j. jobs s1 key = Some j \<Longrightarrow> jobs s key = Some j"
proof -
  have "(eNamespace base, k) \<notin> D" if "k \<in> activeNames (jobs s) (eNamespace base) (eName base)" for k
    using that assms(1) owned_key by (fastforce simp: activeNames_def)
  then show "activeNames (jobs s1) (eNamespace base) (eName base) = activeNames (jobs s) (eNamespace base) (eName base)"
    by (auto simp: activeNames_def assms(2) without_apply)
  show "\<And>key j. jobs s1 key = Some j \<Longrightarrow> jobs s key = Some j" by (auto simp: assms(2) without_apply split: if_splits)
qed

lemma synced_active:
  assumes "synced C jobs crons base e s s1"
  shows "activeNames (jobs s1) (eNamespace base) (eName base) = activeNames (jobs s) (eNamespace base) (eName base)"
    and "orName ` set (eActive e) = activeNames (jobs s) (eNamespace base) (eName base)"
    and "\<And>key j. jobs s1 key = Some j \<Longrightarrow> jobs s key = Some j"
proof -
  let ?A = "activeNames (jobs s) (eNamespace base) (eName base)"
  from assms obtain D where D: "D \<subseteq> jkey ` {j \<in> owned (jobs s) base. \<not> unfinished j}" "jobs s1 = without D (jobs s)"
    by (auto simp: synced_def)
  show "activeNames (jobs s1) (eNamespace base) (eName base) = ?A" "\<And>key j. jobs s1 key = Some j \<Longrightarrow> jobs s key = Some j"
    by (rule trimmed_active [OF D])+
  have "set (eActive e) = jobRef ` {j \<in> owned (jobs s) base. unfinished j}" using assms by (auto simp: synced_def)
  moreover have "jName ` {j \<in> owned (jobs s) base. unfinished j} = ?A" (is "?L = _")
  proof (intro equalityI subsetI)
    fix k assume "k \<in> ?L"
    then obtain j where j: "j \<in> owned (jobs s) base" "unfinished j" "k = jName j" by blast
    then show "k \<in> ?A" using owned_key [OF j(1)] by (auto simp: activeNames_def jkey_def owned_def)
  next
    fix k assume "k \<in> ?A"
    then obtain j where j: "jobs s (eNamespace base, k) = Some j" "unfinished j" "j \<in> owned (jobs s) base"
      by (auto simp: activeNames_def owned_def)
    then have "jName j = k" using jobs_key [OF j(1)] by (simp add: jkey_def)
    then show "k \<in> ?L" using j by blast
  qed
  ultimately show "orName ` set (eActive e) = ?A"
    by (simp add: image_image jobRef_def)
qed

lemma sync_synced:
  assumes "syncActiveJobs C f base s = (Inr e, s1)" "sortsJobs f"
  shows "synced C jobs crons base e s s1"
proof -
  obtain D where "D \<subseteq> jkey ` {j \<in> owned (jobs s) base. \<not> unfinished j}" "jobs s1 = without D (jobs s)" "crons s1 = crons s"
    using sync_any(1) [OF assms] by blast
  moreover obtain js t where "set js = owned (jobs s) base" "eActive e = map jobRef (filter unfinished js)"
      "e = base\<lparr>eActive := eActive e, eLastSuccessfulTime := t\<rparr>"
    using sync_any(2) [OF assms refl] by blast
  then have "\<exists>t as. e = base\<lparr>eActive := as, eLastSuccessfulTime := t\<rparr> \<and>
        set as = jobRef ` {j \<in> owned (jobs s) base. unfinished j}"
    by (intro exI [of _ t] exI [of _ "eActive e"]) auto
  ultimately show ?thesis unfolding synced_def using sync_prices [OF assms(1)] by blast
qed

text \<open>A reconciliation stops before or during the synchronisation, or goes on with a synchronised state.\<close>

lemma reconcile_synced:
  assumes "reconcileEACJ C txt rnd cronParse sortJobs clk ns n s = ((r, f), s')" "sortsJobs sortJobs"
  obtains (deleted) "\<And>key j. jobs s' key = Some j \<Longrightarrow> jobs s key = Some j" "activeNames (jobs s') ns n = activeNames (jobs s) ns n" "crons s' = crons s"
  | (going) base e s1 where "crons s (ns, n) = Some base" "ckey base = (ns, n)" "synced C jobs crons base e s s1"
      "(if eSuspend e = Some True then persist C ''status'' base (e\<lparr>eNextScheduledTime := None\<rparr>) noRequeue s1
        else (case eNextScheduledTime e of
                Some t \<Rightarrow>
                  if \<not> clkNow clk < t then dispatchJob C txt clk base e t s1
                  else persist C ''updating status'' base e (requeueAfter (time_Sub t (clkUntil clk))) s1
              | None \<Rightarrow> planNext C txt rnd cronParse clk base e s1)) = ((r, f), s')"
proof (cases "getEACJ C ns n s")
  case (Inl x)
  then have "s' = s" using assms(1) by (simp add: reconcileEACJ_def)
  then show ?thesis using deleted by simp
next
  case (Inr base)
  then have base: "crons s (ns, n) = Some base" by (rule get_cron)
  then have key: "ckey base = (ns, n)" by (rule crons_key)
  obtain x s1 where x: "syncActiveJobs C sortJobs base s = (x, s1)" by fastforce
  show ?thesis
  proof (cases x)
    case x': (Inl y)
    then have "s' = s1" using assms(1) Inr x by (simp add: reconcileEACJ_def)
    moreover obtain D where D: "D \<subseteq> jkey ` {j \<in> owned (jobs s) base. \<not> unfinished j}" "jobs s1 = without D (jobs s)" "crons s1 = crons s"
      using sync_any(1) [OF x assms(2)] by blast
    ultimately show ?thesis using deleted trimmed_active [OF D(1,2)] key by (simp add: ckey_def)
  next
    case x': (Inr e)
    then have "synced C jobs crons base e s s1" using sync_synced x assms(2) by simp
    then show ?thesis
      using going [OF base key] assms(1) [unfolded reconcileEACJ_def Inr, simplified, unfolded x x', simplified] by blast
  qed
qed

text \<open>The four ways a reconciliation ends.\<close>

lemma reconcile_cases:
  assumes "reconcileEACJ C txt rnd cronParse sortJobs clk ns n s = ((r, f), s')" "sortsJobs sortJobs"
  obtains (deleted) "\<And>key j. jobs s' key = Some j \<Longrightarrow> jobs s key = Some j" "activeNames (jobs s') ns n = activeNames (jobs s) ns n" "crons s' = crons s"
  | (quiet) base e s1 e' where "crons s (ns, n) = Some base" "synced C jobs crons base e s s1"
      "quiet jobs crons base e' s1 s'" "ckey e' = ckey base" "eConcurrencyPolicy e' = eConcurrencyPolicy base"
      "eNextScheduledTime e' = eNextScheduledTime base \<or> eNextScheduledTime e' = None"
  | (dispatch) base e s1 t where "crons s (ns, n) = Some base" "synced C jobs crons base e s s1" "eSuspend base \<noteq> Some True"
      "dispatchJob C txt clk base e t s1 = ((r, f), s')" "t \<le> clkNow clk"
      "eNextScheduledTime base = Some t \<or> (eNextScheduledTime base = None \<and> t = clkNow clk \<and>
        (eConcurrencyPolicy base = ForbidConcurrent \<longrightarrow> eActive e = []))"
  | (plan) base e s1 W p cs where "crons s (ns, n) = Some base" "synced C jobs crons base e s s1" "eSuspend base \<noteq> Some True"
      "eNextScheduledTime base = None" "plans C rnd clk e s1 W p"
      "eConcurrencyPolicy base = ForbidConcurrent \<longrightarrow> eActive e = []"
      "persist C ''updating NextScheduledTime'' base
        (e\<lparr>eNextCronWindow := Some W, eNextScheduledTime := Some (At p), eConditions := cs\<rparr>)
        (requeueAfter (time_Sub (At p) (clkUntil clk))) s1 = ((r, f), s')" "serves cronParse clk base W"
  using assms
proof (cases rule: reconcile_synced)
  case deleted
  then show ?thesis by (rule that(1))
next
  case (going base e s1)
  note base = going(1) and key = going(2) and sy = going(3) and run = going(4)
  then have ns: "eNamespace base = ns" "eName base = n" by (simp_all add: ckey_def)
  note eq = synced_facts [OF sy]
  have base1: "crons s1 (ckey base) = Some base" using base key eq(10) by simp
  consider (suspended) "eSuspend e = Some True" | (planned) t where "eSuspend e \<noteq> Some True" "eNextScheduledTime e = Some t"
    | (unplanned) "eSuspend e \<noteq> Some True" "eNextScheduledTime e = None" by fastforce
  then show ?thesis
  proof cases
    case suspended
    then have "persist C ''status'' base (e\<lparr>eNextScheduledTime := None\<rparr>) noRequeue s1 = ((r, f), s')" using run by simp
    from persist_quiet(1) [OF this base1] show ?thesis
      using that(2) [OF base sy, of "e\<lparr>eNextScheduledTime := None\<rparr>"] eq by (simp add: ckey_def)
  next
    case (planned t)
    show ?thesis
    proof (cases "clkNow clk < t")
      case True
      then have "persist C ''updating status'' base e (requeueAfter (time_Sub t (clkUntil clk))) s1 = ((r, f), s')"
        using run planned by simp
      from persist_quiet(1) [OF this base1 eq(1)] show ?thesis using that(2) [OF base sy] eq by simp
    qed (use run planned that(3) [OF base sy] eq in simp)
  next
    case unplanned
    then have "planNext C txt rnd cronParse clk base e s1 = ((r, f), s')" using run by simp
    from planNext_cases [OF this base1 eq(1)] consider
        "dispatchJob C txt clk base e (clkNow clk) s1 = ((r, f), s')" "eConcurrencyPolicy e = ForbidConcurrent \<longrightarrow> eActive e = []"
      | "s' = s1" | e' where "samePlan e e'" "quiet jobs crons base e' s1 s'"
      | W p cs where "serves cronParse clk e W" "plans C rnd clk e s1 W p" "eConcurrencyPolicy e = ForbidConcurrent \<longrightarrow> eActive e = []"
        "persist C ''updating NextScheduledTime'' base
          (e\<lparr>eNextCronWindow := Some W, eNextScheduledTime := Some (At p), eConditions := cs\<rparr>)
          (requeueAfter (time_Sub (At p) (clkUntil clk))) s1 = ((r, f), s')"
      by blast
    then show ?thesis
    proof cases
      case 2
      then show ?thesis using that(1) synced_active(1,3) [OF sy] eq(10) by (simp add: ns)
    next
      case 3
      then show ?thesis using that(2) [OF base sy, of e'] eq by (simp add: samePlan_def)
    next
      case 4
      then show ?thesis using that(4) [OF base sy _ _ 4(2) _ 4(4)] unplanned eq synced_serves [OF sy] by simp
    qed (use that(3) [OF base sy] unplanned eq in simp)
  qed
qed

end

section \<open>One Job per reconciliation\<close>

text \<open>The time a reconciliation dispatches for: the stored plan, or now.\<close>

definition dispatchTime :: "clock \<Rightarrow> eacj \<Rightarrow> time" where
  "dispatchTime clk e = (case eNextScheduledTime e of Some t \<Rightarrow> t | None \<Rightarrow> clkNow clk)"

text \<open>A Job in the store after a reconciliation: it was there before, or it is the Job of the due slot.\<close>

definition accounted :: "(string \<times> string \<rightharpoonup> job) \<Rightarrow> clock \<Rightarrow> eacj \<Rightarrow> string \<times> string \<Rightarrow> job \<Rightarrow> bool" where
  "accounted m clk e key j \<longleftrightarrow> m key = Some j \<or>
     (eSuspend e \<noteq> Some True \<and> dispatchTime clk e \<le> clkNow clk \<and>
      key = slotKey e (dispatchTime clk e) \<and> builtFrom e (dispatchTime clk e) j)"

lemma synced_buildJob: "synced C jobs crons base e s s1 \<Longrightarrow> buildJob e t = buildJob base t"
  by (auto simp: synced_def buildJob_def)

lemma synced_builtFrom: "synced C jobs crons base e s s1 \<Longrightarrow> builtFrom e t j = builtFrom base t j"
  by (simp only: builtFrom_def synced_buildJob)

lemma without_SomeD: "without D m key = Some j \<Longrightarrow> m key = Some j"
  by (auto simp: without_apply split: if_splits)

context job_api
begin

lemma reconcile_accounted:
  assumes "reconcileEACJ C txt rnd cronParse sortJobs clk ns n s = ((r, f), s')" "sortsJobs sortJobs"
    "crons s (ns, n) = Some e0" "jobs s' key = Some j"
  shows "accounted (jobs s) clk e0 key j"
  using assms(1,2)
proof (cases rule: reconcile_cases)
  case deleted
  then show ?thesis using assms(4) by (simp add: accounted_def)
next
  case (quiet base e s1 e')
  then show ?thesis using assms(4) synced_active(3) [OF quiet(2)] by (simp add: accounted_def quiet_def)
next
  case (dispatch base e s1 t)
  have base: "base = e0" using dispatch(1) assms(3) by simp
  have t: "dispatchTime clk e0 = t" using dispatch(6) by (auto simp: dispatchTime_def base)
  have "crons s1 (ckey base) = Some base"
    using synced_facts(10) [OF dispatch(2)] dispatch(1) crons_key [OF dispatch(1)] by simp
  from dispatch_any [OF dispatch(4) this synced_facts(1) [OF dispatch(2)]] obtain D where
    D: "jobs s' = without D (jobs s1) \<or> (\<exists>j. builtFrom e t j \<and> jobs s' = (without D (jobs s1))(slotKey e t \<mapsto> j))" by blast
  show ?thesis
  proof (cases "without D (jobs s1) key = Some j")
    case True
    from synced_active(3) [OF dispatch(2) without_SomeD [OF this]] show ?thesis by (simp add: accounted_def)
  next
    case False
    then have "key = slotKey e t" "builtFrom e t j" using D assms(4) by (auto split: if_splits)
    then show ?thesis
      using dispatch(3,5) synced_builtFrom [OF dispatch(2)] synced_facts(6) [OF dispatch(2)]
      by (simp add: accounted_def t base)
  qed
next
  case (plan base e s1 W p cs)
  have "crons s1 (ckey base) = Some base"
    using synced_facts(10) [OF plan(2)] plan(1) crons_key [OF plan(1)] by simp
  from persist_quiet(1) [OF plan(7) this] have "jobs s' = jobs s1"
    using synced_facts(1) [OF plan(2)] by (simp add: quiet_def ckey_def)
  then show ?thesis using assms(4) synced_active(3) [OF plan(2)] by (simp add: accounted_def)
qed

end

section \<open>Forbid as an invariant\<close>

text \<open>
  Runs of a cron job under \<open>Forbid\<close>. A step is a reconciliation with any clock and any outcome,
  or a change from outside that starts no Job of this cron job (Jobs finish or are deleted, other
  cron jobs run), keeps \<open>Forbid\<close> and does not invent a plan; the cron job may also be edited,
  deleted and created again.
\<close>

definition outsideStep ::
  "('s \<Rightarrow> string \<times> string \<rightharpoonup> job) \<Rightarrow> ('s \<Rightarrow> string \<times> string \<rightharpoonup> eacj) \<Rightarrow> string \<Rightarrow> string \<Rightarrow> 's \<Rightarrow> 's \<Rightarrow> bool" where
  "outsideStep jobs crons ns n s s' \<longleftrightarrow> activeNames (jobs s') ns n \<subseteq> activeNames (jobs s) ns n \<and>
     (\<forall>e'. crons s' (ns, n) = Some e' \<longrightarrow> eConcurrencyPolicy e' = ForbidConcurrent \<and>
        (eNextScheduledTime e' = None \<or>
         (\<exists>e. crons s (ns, n) = Some e \<and> eNextScheduledTime e' = eNextScheduledTime e)))"

inductive forbidRun ::
  "('s, 'm) cjClient_scheme \<Rightarrow> ('s \<Rightarrow> string \<times> string \<rightharpoonup> job) \<Rightarrow> ('s \<Rightarrow> string \<times> string \<rightharpoonup> eacj) \<Rightarrow>
   texts \<Rightarrow> (rat \<Rightarrow> rat) \<Rightarrow> (string \<Rightarrow> string + (time \<Rightarrow> time)) \<Rightarrow> (job list \<Rightarrow> job list) \<Rightarrow> string \<Rightarrow> string \<Rightarrow> 's \<Rightarrow> bool"
  for C jobs crons msgs rnd cronParse sortJobs ns n where
  start: "activeNames (jobs s) ns n = {} \<Longrightarrow>
      crons s (ns, n) = Some e \<Longrightarrow> eConcurrencyPolicy e = ForbidConcurrent \<Longrightarrow>
      forbidRun C jobs crons msgs rnd cronParse sortJobs ns n s"
| reconcile: "forbidRun C jobs crons msgs rnd cronParse sortJobs ns n s \<Longrightarrow>
      reconcileEACJ C msgs rnd cronParse sortJobs clk ns n s = (res, s') \<Longrightarrow>
      forbidRun C jobs crons msgs rnd cronParse sortJobs ns n s'"
| outside: "forbidRun C jobs crons msgs rnd cronParse sortJobs ns n s \<Longrightarrow> outsideStep jobs crons ns n s s' \<Longrightarrow>
      forbidRun C jobs crons msgs rnd cronParse sortJobs ns n s'"

text \<open>The inductive invariant: a plan and a running Job do not exist together, unless it is the plan's Job.\<close>

definition forbidInv :: "(string \<times> string \<rightharpoonup> job) \<Rightarrow> (string \<times> string \<rightharpoonup> eacj) \<Rightarrow> string \<Rightarrow> string \<Rightarrow> bool" where
  "forbidInv m c ns n \<longleftrightarrow> (\<exists>k. activeNames m ns n \<subseteq> {k}) \<and>
     (\<forall>e. c (ns, n) = Some e \<longrightarrow> eConcurrencyPolicy e = ForbidConcurrent \<and>
        (\<forall>t. eNextScheduledTime e = Some t \<longrightarrow> activeNames m ns n \<subseteq> {energyAwareCronJobName n t}))"

lemma jobName_wholeSeconds [simp]: "energyAwareCronJobName n (wholeSeconds t) = energyAwareCronJobName n t"
  by (simp add: energyAwareCronJobName_def wholeSeconds_def Unix_def second_def)

lemma savedStatus_simps [simp]:
  "eConcurrencyPolicy (savedStatus e) = eConcurrencyPolicy e"
  "eNextScheduledTime (savedStatus e) = map_option wholeSeconds (eNextScheduledTime e)"
  by (simp_all add: savedStatus_def)

lemma forbidInv_saved:
  assumes "forbidInv m c ns n" "c (ns, n) = Some base" "eConcurrencyPolicy e = eConcurrencyPolicy base"
    "\<And>t. eNextScheduledTime e = Some t \<Longrightarrow> activeNames m ns n \<subseteq> {energyAwareCronJobName n t}"
  shows "forbidInv m (c((ns, n) \<mapsto> savedStatus e)) ns n"
  using assms by (auto simp: forbidInv_def)

lemma activeNames_dispatch:
  assumes "builtFrom e t j" "slotKey e t = (ns, energyAwareCronJobName n t)"
  shows "activeNames ((without D m)(slotKey e t \<mapsto> j)) ns n \<subseteq> insert (energyAwareCronJobName n t) (activeNames m ns n)"
  by (auto simp: activeNames_def assms(2) without_apply split: if_splits)

lemma activeNames_without: "activeNames (without D m) ns n \<subseteq> activeNames m ns n"
  by (auto simp: activeNames_def without_apply split: if_splits)

context job_api
begin

lemma forbidInv_dispatch:
  assumes "forbidInv (jobs s) (crons s) ns n" "crons s (ns, n) = Some base" "synced C jobs crons base e s s1"
    "dispatchJob C txt clk base e t s1 = ((r, f), s')"
    "activeNames (jobs s) ns n \<subseteq> {energyAwareCronJobName n t}" "eNextScheduledTime base \<noteq> None \<Longrightarrow> eNextScheduledTime base = Some t"
  shows "forbidInv (jobs s') (crons s') ns n"
proof -
  have key: "ckey base = (ns, n)" using crons_key [OF assms(2)] .
  note eq = synced_facts [OF assms(3)]
  have base1: "crons s1 (ckey base) = Some base" using eq(10) assms(2) key by simp
  have slot: "slotKey e t = (ns, energyAwareCronJobName n t)" using key eq(4,5) by (simp add: slotKey_def ckey_def)
  from dispatch_any [OF assms(4) base1 eq(1)] obtain D where
    D: "jobs s' = without D (jobs s1) \<or> (\<exists>j. builtFrom e t j \<and> jobs s' = (without D (jobs s1))(slotKey e t \<mapsto> j))"
    and c: "crons s' = crons s1 \<or> (\<exists>j. crons s' = (crons s1)(ckey base \<mapsto> savedStatus (dispatchedStatus txt clk e j t)))"
    by blast
  have act1: "activeNames (jobs s1) ns n = activeNames (jobs s) ns n"
    using synced_active(1) [OF assms(3)] key by (simp add: ckey_def)
  have act: "activeNames (jobs s') ns n \<subseteq> {energyAwareCronJobName n t}"
    using D
  proof (elim disjE exE conjE)
    assume "jobs s' = without D (jobs s1)"
    then show ?thesis using activeNames_without [of D "jobs s1" ns n] act1 assms(5) by simp
  next
    fix j assume "builtFrom e t j" and j: "jobs s' = (without D (jobs s1))(slotKey e t \<mapsto> j)"
    from activeNames_dispatch [OF this(1) slot, of D "jobs s1"] show ?thesis
      using act1 assms(5) by (simp only: j) blast
  qed
  then have inv1: "forbidInv (jobs s') (crons s) ns n"
    using assms(1,2,6) by (auto simp: forbidInv_def)
  show ?thesis
    using c
  proof
    assume "crons s' = crons s1"
    then show ?thesis using inv1 eq(10) by simp
  next
    assume "\<exists>j. crons s' = (crons s1)(ckey base \<mapsto> savedStatus (dispatchedStatus txt clk e j t))"
    then obtain j where "crons s' = (crons s)((ns, n) \<mapsto> savedStatus (dispatchedStatus txt clk e j t))"
      using eq(10) key by auto
    moreover have "forbidInv (jobs s') ((crons s)((ns, n) \<mapsto> savedStatus (dispatchedStatus txt clk e j t))) ns n"
      by (rule forbidInv_saved [OF inv1 assms(2)]) (simp_all add: dispatchedStatus_def eq(2))
    ultimately show ?thesis by simp
  qed
qed

lemma forbidInv_reconcile:
  assumes "reconcileEACJ C txt rnd cronParse sortJobs clk ns n s = ((r, f), s')" "sortsJobs sortJobs"
    "forbidInv (jobs s) (crons s) ns n"
  shows "forbidInv (jobs s') (crons s') ns n"
  using assms(1,2)
proof (cases rule: reconcile_cases)
  case deleted
  then show ?thesis using assms(3) by (simp add: forbidInv_def)
next
  case (quiet base e s1 e')
  have key: "ckey base = (ns, n)" using crons_key [OF quiet(1)] .
  have inv: "forbidInv (jobs s') (crons s) ns n"
    using assms(3) synced_active(1) [OF quiet(2)] quiet(3) key by (simp add: forbidInv_def quiet_def ckey_def)
  then have "activeNames (jobs s') ns n \<subseteq> {energyAwareCronJobName n t}" if "eNextScheduledTime e' = Some t" for t
    using that quiet(1,6) unfolding forbidInv_def by (metis option.distinct(1))
  then have "forbidInv (jobs s') ((crons s)((ns, n) \<mapsto> savedStatus e')) ns n"
    by (rule forbidInv_saved [OF inv quiet(1,5)])
  then show ?thesis
    using inv quiet(3) synced_facts(10) [OF quiet(2)] key by (auto simp: quiet_def)
next
  case (dispatch base e s1 t)
  have key: "ckey base = (ns, n)" using crons_key [OF dispatch(1)] .
  have "eConcurrencyPolicy base = ForbidConcurrent" using assms(3) dispatch(1) by (simp add: forbidInv_def)
  then have "activeNames (jobs s) ns n \<subseteq> {energyAwareCronJobName n t}"
    using dispatch(1,6) assms(3) synced_active(2) [OF dispatch(2)] key by (auto simp: forbidInv_def ckey_def)
  then show ?thesis using forbidInv_dispatch [OF assms(3) dispatch(1,2,4)] dispatch(6) by auto
next
  case (plan base e s1 W p cs)
  have key: "ckey base = (ns, n)" using crons_key [OF plan(1)] .
  note eq = synced_facts [OF plan(2)]
  let ?e = "e\<lparr>eNextCronWindow := Some W, eNextScheduledTime := Some (At p), eConditions := cs\<rparr>"
  have "crons s1 (ckey base) = Some base" using eq(10) plan(1) key by simp
  moreover have "ckey ?e = ckey base" using eq(1) by (simp add: ckey_def)
  ultimately have q: "quiet jobs crons base ?e s1 s'" using persist_quiet(1) [OF plan(7)] by blast
  have "eConcurrencyPolicy base = ForbidConcurrent" using assms(3) plan(1) by (simp add: forbidInv_def)
  then have none: "activeNames (jobs s') ns n = {}"
    using plan(6) synced_active(1,2) [OF plan(2)] q key by (simp add: quiet_def ckey_def)
  then have inv: "forbidInv (jobs s') (crons s) ns n" using assms(3) by (auto simp: forbidInv_def)
  show ?thesis
    using q forbidInv_saved [OF inv plan(1), of ?e] eq(2,10) none inv key by (auto simp: quiet_def)
qed

lemma forbidRun_inv:
  assumes "forbidRun C jobs crons txt rnd cronParse sortJobs ns n s" "sortsJobs sortJobs"
  shows "forbidInv (jobs s) (crons s) ns n"
  using assms(1)
proof (induction rule: forbidRun.induct)
  case (start s e)
  then show ?case by (simp add: forbidInv_def)
next
  case (reconcile s clk res s')
  then show ?case using forbidInv_reconcile [of "txt" rnd cronParse sortJobs clk ns n s "fst res" "snd res" s'] assms(2) by simp
next
  case (outside s s')
  then have sub: "activeNames (jobs s') ns n \<subseteq> activeNames (jobs s) ns n" by (simp add: outsideStep_def)
  have "activeNames (jobs s') ns n \<subseteq> {energyAwareCronJobName n t}"
    if "crons s' (ns, n) = Some e'" "eNextScheduledTime e' = Some t" for e' t
    using that outside sub unfolding outsideStep_def forbidInv_def by (metis option.distinct(1) subset_trans)
  moreover have "\<exists>k. activeNames (jobs s') ns n \<subseteq> {k}" using outside(3) sub unfolding forbidInv_def by blast
  ultimately show ?case using outside(2) by (auto simp: forbidInv_def outsideStep_def)
qed

end

section \<open>The planned slot\<close>

context job_api
begin

lemma persist_saved:
  assumes "persist C what base e res s = ((r, f), s')" "crons s (ckey base) = Some base" "ckey e = ckey base"
    "crons s' \<noteq> crons s"
  shows "f = None \<and> r = res \<and> crons s' = (crons s)(ckey base \<mapsto> savedStatus e)"
proof -
  obtain x t where x: "patchEACJStatus C base e s = (x, t)" by fastforce
  show ?thesis
    using patch_any [OF x assms(2,3)] assms(1,4) x by (auto simp: persist_def split: option.splits if_splits)
qed

lemma planned_by_plan:
  assumes "reconcileEACJ C txt rnd cronParse sortJobs clk ns n s = ((r, f), s')" "sortsJobs sortJobs"
    "crons s (ns, n) = Some e0" "eNextScheduledTime e0 = None"
    "crons s' (ns, n) = Some e'" "eNextScheduledTime e' = Some T"
  shows "\<exists>W p e s1. synced C jobs crons e0 e s s1 \<and> serves cronParse clk e0 W \<and> plans C rnd clk e s1 W p \<and> T = wholeSeconds (At p) \<and>
    eNextCronWindow e' = Some (wholeSeconds W) \<and> f = None \<and> r = requeueAfter (time_Sub (At p) (clkUntil clk))"
  using assms(1,2)
proof (cases rule: reconcile_cases)
  case deleted
  then show ?thesis using assms(3-6) by simp
next
  case (quiet base e s1 e1)
  then have "crons s' (ns, n) = Some base \<or> crons s' (ns, n) = Some (savedStatus e1)"
    using synced_facts(10) [OF quiet(2)] crons_key [OF quiet(1)] by (auto simp: quiet_def)
  then show ?thesis using quiet(1,6) assms(3-6) by auto
next
  case (dispatch base e s1 t)
  have key: "ckey base = (ns, n)" using crons_key [OF dispatch(1)] .
  have "crons s1 (ckey base) = Some base" using synced_facts(10) [OF dispatch(2)] dispatch(1) key by simp
  from dispatch_any [OF dispatch(4) this synced_facts(1) [OF dispatch(2)]]
  have "crons s' = crons s1 \<or> (\<exists>j. crons s' = (crons s1)(ckey base \<mapsto> savedStatus (dispatchedStatus txt clk e j t)))"
    by blast
  then show ?thesis
    using synced_facts(10) [OF dispatch(2)] key assms(3-6) by (auto simp: dispatchedStatus_def)
next
  case (plan base e s1 W p cs)
  have key: "ckey base = (ns, n)" using crons_key [OF plan(1)] .
  note eq = synced_facts [OF plan(2)]
  let ?e = "e\<lparr>eNextCronWindow := Some W, eNextScheduledTime := Some (At p), eConditions := cs\<rparr>"
  have stored: "crons s1 (ckey base) = Some base" using eq(10) plan(1) key by simp
  have "crons s' \<noteq> crons s1" using eq(10) assms(3-6) by auto
  moreover have "ckey ?e = ckey base" using eq(1) by (simp add: ckey_def)
  ultimately have saved: "f = None \<and> r = requeueAfter (time_Sub (At p) (clkUntil clk)) \<and> crons s' = (crons s1)(ckey base \<mapsto> savedStatus ?e)"
    using persist_saved [OF plan(7) stored] by blast
  then have "e' = savedStatus ?e" using assms(5) key by simp
  moreover have "base = e0" using plan(1) assms(3) by simp
  ultimately show ?thesis
    using plan(2,5,8) saved assms(6) by (intro exI [of _ W] exI [of _ p] exI [of _ e] exI [of _ s1]) (auto simp: savedStatus_def)
qed

end

lemma planned_slot:
  assumes "job_api C jobs crons" "sortsJobs sortJobs"
    and "reconcileEACJ C txt rnd cronParse sortJobs clk ns n s = ((r, f), s')"
    and "crons s (ns, n) = Some e" "eNextScheduledTime e = None"
    and "crons s' (ns, n) = Some e'" "eNextScheduledTime e' = Some T"
    and "0 < eEstimatedDuration e" "eEstimatedDuration e \<le> maxInt64"
    and "getPrices C ns (ePriceSource e) s = Inr prices" "sorted_wrt (<) (map At prices)"
  shows "\<exists>W t. serves cronParse clk e W \<and> eNextCronWindow e' = Some (wholeSeconds W) \<and> T = wholeSeconds t \<and> W \<le> clkNow clk \<and> clkNow clk < t \<and>
    t + eEstimatedDuration e < W + eScheduleWindow e \<and> f = None \<and> r = requeueAfter (time_Sub t (clkUntil clk))"
proof -
  from job_api.planned_by_plan [OF assms(1,3,2,4-7)] obtain W p e1 s1 where
    sy: "synced C jobs crons e e1 s s1" and sv: "serves cronParse clk e W" and plan: "plans C rnd clk e1 s1 W p" and
    res: "T = wholeSeconds (At p)" "eNextCronWindow e' = Some (wholeSeconds W)" "f = None" "r = requeueAfter (time_Sub (At p) (clkUntil clk))"
    by blast
  note eq = synced_facts [OF sy]
  have ns: "eNamespace e1 = ns" using job_api.crons_key [OF assms(1,4)] eq(4) by (simp add: ckey_def)
  have "getPrices C ns (ePriceSource e1) s1 = Inr prices"
    using eq(11) assms(10) job_api.crons_key [OF assms(1,4)] ns by (simp add: ckey_def)
  with plan have sel: "selectPricePoint rnd (filterPricesInWindow prices W (W + eScheduleWindow e1)) (eStrategy e1)
      (eEstimatedDuration e1) (W + eScheduleWindow e1) = Inr p" and now: "W \<le> clkNow clk" "clkNow clk < At p"
    by (auto simp: plans_def ns)
  from selected_in_window [OF assms(11) _ _ sel] have "At p + eEstimatedDuration e < W + eScheduleWindow e"
    using assms(8,9) eq(8,9) by simp
  then show ?thesis using res now sv by blast
qed

section \<open>An example run\<close>

text \<open>
  A cron job that opens a four-hour window every six hours. At 00:10 the cheapest half hour is the
  one at 01:00; the reconciliation at 01:00 dispatches the Job.
\<close>

definition demoTexts :: texts where
  "demoTexts = \<lparr>failText = (\<lambda>_. ''failed''), scheduledText = (\<lambda>_ _. ''scheduled''), dispatchedText = (\<lambda>_ _. ''dispatched'')\<rparr>"

definition everySixHours :: "string \<Rightarrow> string + (time \<Rightarrow> time)" where
  "everySixHours _ = Inr (\<lambda>t. (t div (6 * hour) + 1) * (6 * hour))"

definition byStart :: "job list \<Rightarrow> job list" where
  "byStart = sort_key jobStartTime"

definition demoCron :: eacj where
  "demoCron = \<lparr>eNamespace = ''ns'', eName = ''report'', eCreationTimestamp = - second, ePriceSource = ''prices'',
     eStrategy = '''', eEstimatedDuration = 30 * minute, eScheduleWindow = 4 * hour, eSchedule = ''0 */6 * * *'',
     eTimeZone = None, eStartingDeadlineSeconds = None, eConcurrencyPolicy = ForbidConcurrent, eSuspend = None,
     eSuccessfulJobsHistoryLimit = None, eFailedJobsHistoryLimit = None, eTemplateLabels = Map.empty,
     eTemplateAnnotations = Map.empty, eTemplateSpec = ''run'', eActive = [], eLastScheduleTime = None,
     eNextCronWindow = None, eNextScheduledTime = None, eLastSuccessfulTime = None, eConditions = []\<rparr>"

definition demoStart :: cjMemState where
  "demoStart = \<lparr>mJobs = [], mCrons = [((''ns'', ''report''), demoCron)], mPrices = [((''ns'', ''prices''), hourlyPrices)]\<rparr>"

definition demoReconcile :: "time \<Rightarrow> cjMemState \<Rightarrow> (result \<times> cj_failure option) \<times> cjMemState" where
  "demoReconcile t = reconcileEACJ (memCjClient (\<lambda>_. None)) demoTexts id everySixHours byStart (atTime t) ''ns'' ''report''"

lemma sortsJobs_byStart: "sortsJobs byStart"
  by (simp add: sortsJobs_def byStart_def)

definition demoPlanned :: cjMemState where "demoPlanned = snd (demoReconcile (10 * minute) demoStart)"
definition demoRan :: cjMemState where "demoRan = snd (demoReconcile hour demoPlanned)"

definition demoPlannedCron :: eacj where "demoPlannedCron = the (memCrons demoPlanned (''ns'', ''report''))"

lemma demoPlanned_fields:
  "map_option eNextScheduledTime (memCrons demoPlanned (''ns'', ''report'')) = Some (Some hour) \<and>
   map_option eConcurrencyPolicy (memCrons demoPlanned (''ns'', ''report'')) = Some ForbidConcurrent"
  by code_simp

lemma demoPlanned_cron:
  "memCrons demoPlanned (''ns'', ''report'') = Some demoPlannedCron" "eNextScheduledTime demoPlannedCron = Some hour"
  using demoPlanned_fields by (auto simp: demoPlannedCron_def)

lemma demoRan_eval:
  "case demoReconcile hour demoPlanned of (res, s1) \<Rightarrow>
     (case memJobs s1 (''ns'', ''report-3600'') of None \<Rightarrow> False | Some j \<Rightarrow> jConditions j = [])"
  by code_simp

lemma demoRan_job: "map_option jConditions (memJobs demoRan (''ns'', ''report-3600'')) = Some []"
  using demoRan_eval by (simp add: demoRan_def split: prod.splits option.splits)

lemma demoStart_facts:
  "memCrons demoStart (''ns'', ''report'') = Some demoCron" "activeNames (memJobs demoStart) ''ns'' ''report'' = {}"
  by (simp_all add: memCrons_def demoStart_def nameCron_def demoCron_def activeNames_def memJobs_def)

lemma demo_runs:
  "reconcileEACJ (memCjClient (\<lambda>_. None)) demoTexts id everySixHours byStart (atTime (10 * minute)) ''ns'' ''report'' demoStart
     = (fst (demoReconcile (10 * minute) demoStart), demoPlanned)"
  "reconcileEACJ (memCjClient (\<lambda>_. None)) demoTexts id everySixHours byStart (atTime hour) ''ns'' ''report'' demoPlanned
     = (fst (demoReconcile hour demoPlanned), demoRan)"
  by (simp_all add: demoReconcile_def demoPlanned_def demoRan_def)

section \<open>Properties\<close>

text \<open>
  C12: After any reconciliation, whatever failed in it, every Job in the store was there before,
  unchanged, or is the one Job of the due slot, built from the template, owned and labelled. So a
  reconciliation creates at most one Job, none while the cron job is suspended or its planned time
  is ahead, and a retry after a lost status patch finds the same name for a stored plan.
\<close>

theorem reconcile_creates_at_most_the_slot_job:
  assumes "job_api C jobs crons" "sortsJobs sortJobs"
    and "reconcileEACJ C txt rnd cronParse sortJobs clk ns n s = (res, s')"
    and "crons s (ns, n) = Some e" "jobs s' key = Some j"
  shows "accounted (jobs s) clk e key j"
  using job_api.reconcile_accounted [OF assms(1), of "txt" rnd cronParse sortJobs clk ns n s "fst res" "snd res" s'] assms(2-5)
  by simp

theorem reconcile_creates_at_most_the_slot_job_witness:
  "accounted (memJobs demoPlanned) (atTime hour) demoPlannedCron (''ns'', ''report-3600'')
     (the (memJobs demoRan (''ns'', ''report-3600'')))"
proof (rule reconcile_creates_at_most_the_slot_job [OF memCj.job_api_axioms sortsJobs_byStart demo_runs(2)])
  show "memCrons demoPlanned (''ns'', ''report'') = Some demoPlannedCron" by (rule demoPlanned_cron)
  show "memJobs demoRan (''ns'', ''report-3600'') = Some (the (memJobs demoRan (''ns'', ''report-3600'')))"
    using demoRan_job by (cases "memJobs demoRan (''ns'', ''report-3600'')") auto
qed

text \<open>
  C2: With \<open>concurrencyPolicy: Forbid\<close> at most one Job of the cron job is unfinished, in every state
  that reconciliations at any time and with any outcome and outside changes can reach from one with
  no active Job, although a Job for a stored plan is created without a new look at the active list.
\<close>

theorem forbid_at_most_one_active:
  assumes "job_api C jobs crons" "sortsJobs sortJobs"
    and "forbidRun C jobs crons txt rnd cronParse sortJobs ns n s"
  shows "\<exists>k. activeNames (jobs s) ns n \<subseteq> {k}"
  using job_api.forbidRun_inv [OF assms(1,3,2)] by (simp add: forbidInv_def)

theorem forbid_at_most_one_active_witness:
  "(\<exists>k. activeNames (memJobs demoRan) ''ns'' ''report'' \<subseteq> {k}) \<and>
   map_option jConditions (memJobs demoRan (''ns'', ''report-3600'')) = Some []"
proof
  have "forbidRun (memCjClient (\<lambda>_. None)) memJobs memCrons demoTexts id everySixHours byStart ''ns'' ''report'' demoStart"
    using demoStart_facts by (intro forbidRun.start [of _ _ _ _ _ demoCron]) (simp_all add: demoCron_def)
  from forbidRun.reconcile [OF this demo_runs(1)]
  have "forbidRun (memCjClient (\<lambda>_. None)) memJobs memCrons demoTexts id everySixHours byStart ''ns'' ''report'' demoPlanned" .
  from forbidRun.reconcile [OF this demo_runs(2)]
  show "\<exists>k. activeNames (memJobs demoRan) ''ns'' ''report'' \<subseteq> {k}"
    by (rule forbid_at_most_one_active [OF memCj.job_api_axioms sortsJobs_byStart])
  show "map_option jConditions (memJobs demoRan (''ns'', ''report-3600'')) = Some []" by (rule demoRan_job)
qed

text \<open>
  C30: A plan that a reconciliation stores is for the occurrence that \<open>nextScheduleTime\<close> computes, whose
  window has opened, and lies ahead of the clock; the estimated run from it ends before the window closes; the
  controller is woken at that time. The prices are in time order.
\<close>

theorem planned_slot_in_window:
  assumes "job_api C jobs crons" "sortsJobs sortJobs"
    and "reconcileEACJ C txt rnd cronParse sortJobs clk ns n s = ((r, f), s')"
    and "crons s (ns, n) = Some e" "eNextScheduledTime e = None"
    and "crons s' (ns, n) = Some e'" "eNextScheduledTime e' = Some T"
    and "0 < eEstimatedDuration e" "eEstimatedDuration e \<le> maxInt64"
    and "getPrices C ns (ePriceSource e) s = Inr prices" "sorted_wrt (<) (map At prices)"
  shows "\<exists>W t. serves cronParse clk e W \<and> eNextCronWindow e' = Some (wholeSeconds W) \<and> T = wholeSeconds t \<and> W \<le> clkNow clk \<and> clkNow clk < t \<and>
    t + eEstimatedDuration e < W + eScheduleWindow e \<and> f = None \<and> r = requeueAfter (time_Sub t (clkUntil clk))"
  by (rule planned_slot [OF assms])

theorem planned_slot_in_window_witness:
  "\<exists>W t. eNextCronWindow demoPlannedCron = Some (wholeSeconds W) \<and> hour = wholeSeconds t \<and> W \<le> 10 * minute \<and> 10 * minute < t \<and>
    t + 30 * minute < W + 4 * hour"
proof -
  let ?res = "fst (demoReconcile (10 * minute) demoStart)"
  have "\<exists>W t. serves everySixHours (atTime (10 * minute)) demoCron W \<and> eNextCronWindow demoPlannedCron = Some (wholeSeconds W) \<and> hour = wholeSeconds t \<and> W \<le> clkNow (atTime (10 * minute)) \<and>
      clkNow (atTime (10 * minute)) < t \<and> t + eEstimatedDuration demoCron < W + eScheduleWindow demoCron \<and> snd ?res = None \<and>
      fst ?res = requeueAfter (time_Sub t (clkUntil (atTime (10 * minute))))"
  proof (rule planned_slot_in_window [OF memCj.job_api_axioms sortsJobs_byStart])
    show "reconcileEACJ (memCjClient (\<lambda>_. None)) demoTexts id everySixHours byStart (atTime (10 * minute)) ''ns'' ''report'' demoStart
        = ((fst ?res, snd ?res), demoPlanned)" using demo_runs(1) by simp
    show "memCrons demoStart (''ns'', ''report'') = Some demoCron" by (rule demoStart_facts)
    show "memCrons demoPlanned (''ns'', ''report'') = Some demoPlannedCron" "eNextScheduledTime demoPlannedCron = Some hour"
      by (rule demoPlanned_cron)+
    show "getPrices (memCjClient (\<lambda>_. None)) ''ns'' (ePriceSource demoCron) demoStart = Inr hourlyPrices"
      by (simp add: memCjClient_def demoCron_def demoStart_def)
  qed (simp_all add: demoCron_def hourlyPrices_def go_defs)
  then show ?thesis by (auto simp: atTime_def demoCron_def)
qed

end
