(* ===== verification/Cron_History.thy ===== *)
theory Cron_History
  imports Cron_Runs
begin

text \<open>
  The history limits of an EnergyAwareCronJob: what \<open>syncActiveJobs\<close> deletes; and the \<open>Replace\<close>
  policy: what a successful dispatch leaves running.
\<close>

section \<open>Trimming\<close>

definition historyLimit :: "32 word option \<Rightarrow> 32 word \<Rightarrow> int" where
  "historyLimit limit deflt = sint (case limit of None \<Rightarrow> deflt | Some l \<Rightarrow> l)"

lemma sorted_split:
  assumes "sortsJobs f" "distinct js"
  shows "set js - set (take n (f js)) = set (drop n (f js))"
    and "card (set (drop n (f js))) = length js - n"
    and "d \<in> set (take n (f js)) \<Longrightarrow> k \<in> set (drop n (f js)) \<Longrightarrow> jobStartTime d \<le> jobStartTime k"
proof -
  let ?xs = "f js"
  have m: "mset ?xs = mset js" and s: "sorted (map jobStartTime ?xs)" using assms(1) by (auto simp: sortsJobs_def)
  have d: "distinct ?xs" using m assms(2) by (metis mset_eq_imp_distinct_iff)
  have split: "?xs = take n ?xs @ drop n ?xs" by simp
  have "distinct (take n ?xs @ drop n ?xs)" using d by simp
  then have disj: "set (take n ?xs) \<inter> set (drop n ?xs) = {}" by (simp only: distinct_append)
  have "set js = set (take n ?xs) \<union> set (drop n ?xs)" using m by (metis append_take_drop_id mset_eq_setD set_append)
  then show "set js - set (take n ?xs) = set (drop n ?xs)" using disj by blast
  have "length ?xs = length js" using m by (rule mset_eq_length)
  then show "card (set (drop n ?xs)) = length js - n" using distinct_card [OF distinct_drop [OF d]] by simp
  have "sorted (map jobStartTime (take n ?xs @ drop n ?xs))" using s by simp
  then have "\<forall>x \<in> set (take n ?xs). \<forall>y \<in> set (drop n ?xs). jobStartTime x \<le> jobStartTime y"
    by (simp only: map_append sorted_append) auto
  then show "d \<in> set (take n ?xs) \<Longrightarrow> k \<in> set (drop n ?xs) \<Longrightarrow> jobStartTime d \<le> jobStartTime k" by blast
qed

context job_api
begin

lemma trimHistory_ok:
  assumes "trimHistory C f what limit d js s = (None, s')"
  shows "0 \<le> historyLimit limit d \<and>
    jobs s' = without (jkey ` set (take (length js - nat (historyLimit limit d)) (f js))) (jobs s) \<and> crons s' = crons s"
proof -
  let ?lim = "historyLimit limit d"
  show ?thesis
  proof (cases "int (length js) - ?lim \<le> 0")
    case True
    then show ?thesis using assms by (auto simp: trimHistory_def historyLimit_def Let_def split: if_splits)
  next
    case False
    then have "0 \<le> ?lim" "deleteJobs C what (take (nat (int (length js) - ?lim)) (f js)) s = (None, s')"
      using assms by (auto simp: trimHistory_def historyLimit_def Let_def split: if_splits)
    moreover have "nat (int (length js) - ?lim) = length js - nat ?lim" using calculation(1) by linarith
    ultimately show ?thesis using deleteJobs_ok by simp
  qed
qed

lemma owned_inj: "j \<in> owned (jobs s) e \<Longrightarrow> j' \<in> owned (jobs s) e \<Longrightarrow> jkey j = jkey j' \<Longrightarrow> j = j'"
  using owned_key by (metis option.inject)

lemma owned_without:
  assumes "jobs s' = without (jkey ` D) (jobs s)" "D \<subseteq> owned (jobs s) e"
  shows "owned (jobs s') e = owned (jobs s) e - D"
proof (intro equalityI subsetI)
  fix j assume "j \<in> owned (jobs s') e"
  then obtain n where n: "without (jkey ` D) (jobs s) (eNamespace e, n) = Some j"
    "jLabels j ownerLabel = Some (energyAwareCronJobOwnerLabelValue (eName e))" by (auto simp: owned_def assms(1))
  then have j: "jobs s (eNamespace e, n) = Some j" "(eNamespace e, n) \<notin> jkey ` D" by (auto simp: without_apply split: if_splits)
  then show "j \<in> owned (jobs s) e - D" using n(2) jobs_key [OF j(1)] by (auto simp: owned_def intro: rev_image_eqI)
next
  fix j assume j: "j \<in> owned (jobs s) e - D"
  then have "jkey j \<notin> jkey ` D" using assms(2) owned_inj by blast
  moreover have "jobs s (jkey j) = Some j" "jNamespace j = eNamespace e" using j owned_key by auto
  ultimately show "j \<in> owned (jobs s') e" using j by (auto simp: owned_def assms(1) without_apply jkey_def)
qed

text \<open>The kept Jobs of a class, as the tail of the sorted list.\<close>

lemma sync_history:
  assumes "syncActiveJobs C f e s = (Inr e', s')" "sortsJobs f"
  obtains js a b where "set js = owned (jobs s) e" "distinct js"
    "a = length (filter succeeded js) - nat (historyLimit (eSuccessfulJobsHistoryLimit e) 3)"
    "b = length (filter failed js) - nat (historyLimit (eFailedJobsHistoryLimit e) 1)"
    "0 \<le> historyLimit (eSuccessfulJobsHistoryLimit e) 3" "0 \<le> historyLimit (eFailedJobsHistoryLimit e) 1"
    "owned (jobs s') e = owned (jobs s) e - (set (take a (f (filter succeeded js))) \<union> set (take b (f (filter failed js))))"
    "set (take a (f (filter succeeded js))) \<subseteq> {j \<in> owned (jobs s) e. succeeded j}"
    "set (take b (f (filter failed js))) \<subseteq> {j \<in> owned (jobs s) e. failed j}"
proof -
  from assms(1) obtain js where js: "listJobs C (eNamespace e) ownerLabel (energyAwareCronJobOwnerLabelValue (eName e)) s = Inr js"
    by (auto simp: syncActiveJobs_def split: sum.splits)
  have own: "set js = owned (jobs s) e" "distinct js" using list_jobs [OF js] by (auto simp: owned_def)
  from assms(1) js obtain s1 where
    t1: "trimHistory C f ''deleting old successful job'' (eSuccessfulJobsHistoryLimit e) 3 (filter succeeded js) s = (None, s1)"
    and t2: "trimHistory C f ''deleting old failed job'' (eFailedJobsHistoryLimit e) 1 (filter failed js) s1 = (None, s')"
    by (auto simp: syncActiveJobs_def fold_classifyJob Let_def split: option.splits prod.splits)
  define a where "a = length (filter succeeded js) - nat (historyLimit (eSuccessfulJobsHistoryLimit e) 3)"
  define b where "b = length (filter failed js) - nat (historyLimit (eFailedJobsHistoryLimit e) 1)"
  let ?A = "set (take a (f (filter succeeded js)))" and ?B = "set (take b (f (filter failed js)))"
  have set_f: "set (f xs) = set xs" for xs using assms(2) by (metis mset_eq_setD sortsJobs_def)
  have AB: "?A \<subseteq> {j \<in> owned (jobs s) e. succeeded j}" "?B \<subseteq> {j \<in> owned (jobs s) e. failed j}"
    using set_take_subset [of a "f (filter succeeded js)"] set_take_subset [of b "f (filter failed js)"]
    by (auto simp: set_f own(1))
  have "jobs s' = without (jkey ` (?A \<union> ?B)) (jobs s)"
    using trimHistory_ok [OF t1] trimHistory_ok [OF t2] by (simp add: a_def b_def image_Un Un_commute)
  then have "owned (jobs s') e = owned (jobs s) e - (?A \<union> ?B)"
    by (rule owned_without) (use AB in auto)
  then show ?thesis using that [OF own a_def b_def] AB trimHistory_ok [OF t1] trimHistory_ok [OF t2] by blast
qed

end

section \<open>Replace\<close>

lemma orName_refKey: "refKey ` (jobRef ` A) = jkey ` A"
  by (simp add: image_image refKey_def jobRef_def jkey_def)

context job_api
begin

text \<open>A reconciliation that asks for an immediate requeue has dispatched.\<close>

lemma requeue_dispatched:
  assumes "reconcileEACJ C txt rnd cronParse sortJobs clk ns n s = ((noRequeue\<lparr>Requeue := True\<rparr>, f), s')"
    "sortsJobs sortJobs" "crons s (ns, n) = Some base"
  obtains e s1 where "synced C jobs crons base e s s1" "eSuspend base \<noteq> Some True"
    "dispatchJob C txt clk base e (dispatchTime clk base) s1 = ((noRequeue\<lparr>Requeue := True\<rparr>, f), s')"
proof -
  have nr: "noRequeue\<lparr>Requeue := True\<rparr> \<noteq> requeueAfter d" "noRequeue\<lparr>Requeue := True\<rparr> \<noteq> noRequeue" for d
    by (simp_all add: noRequeue_def requeueAfter_def)
  have no_persist: "persist C what b e res u \<noteq> ((noRequeue\<lparr>Requeue := True\<rparr>, f), s')"
    if "\<not> Requeue res" for what b e res u
    using that by (auto simp: persist_def noRequeue_def split: option.splits prod.splits)
  have no_fail: "failWith C txt clk b e err u \<noteq> ((noRequeue\<lparr>Requeue := True\<rparr>, f), s')" for b e err u
    by (auto simp: failWith_def Let_def noRequeue_def requeueAfter_def split: option.splits prod.splits)
  have rq: "\<not> Requeue (requeueAfter d)" "\<not> Requeue noRequeue" for d by (simp_all add: noRequeue_def requeueAfter_def)
  obtain x where x: "getEACJ C ns n s = Inr x" using assms(1) nr by (cases "getEACJ C ns n s") (auto simp: reconcileEACJ_def)
  then have xb: "x = base" using get_cron assms(3) by fastforce
  obtain y s1 where y: "syncActiveJobs C sortJobs base s = (y, s1)" by fastforce
  note run = assms(1) [unfolded reconcileEACJ_def x xb, simplified, unfolded y, simplified]
  obtain e where e: "y = Inr e" using run nr by (cases y) auto
  have sy: "synced C jobs crons base e s s1" using sync_synced y e assms(2) by simp
  note eq = synced_facts [OF sy]
  note run' = run [unfolded e, simplified]
  have susp: "eSuspend base \<noteq> Some True" using run' no_persist rq eq(7) by auto
  have sched: "scheduleInWindow C txt rnd clk base e W s1 = ((noRequeue\<lparr>Requeue := True\<rparr>, f), s') \<Longrightarrow>
      dispatchJob C txt clk base e (clkNow clk) s1 = ((noRequeue\<lparr>Requeue := True\<rparr>, f), s')" for W
    using no_persist rq no_fail nr
    by (auto simp: scheduleInWindow_def Let_def split: sum.splits kerr.splits if_splits)
  have plan: "planNext C txt rnd cronParse clk base e s1 = ((noRequeue\<lparr>Requeue := True\<rparr>, f), s') \<Longrightarrow>
      dispatchJob C txt clk base e (clkNow clk) s1 = ((noRequeue\<lparr>Requeue := True\<rparr>, f), s')"
    using no_persist rq no_fail sched by (auto simp: planNext_def Let_def split: sum.splits if_splits)
  have "dispatchJob C txt clk base e (dispatchTime clk base) s1 = ((noRequeue\<lparr>Requeue := True\<rparr>, f), s')"
    using run' susp no_persist rq plan eq(3,7) by (auto simp: dispatchTime_def split: option.splits if_splits)
  then show ?thesis using that sy susp by blast
qed

lemma replace_active:
  assumes "synced C jobs crons base e s s1" "crons s (ns, n) = Some base" "eConcurrencyPolicy base = ReplaceConcurrent"
    "dispatchJob C txt clk base e t s1 = ((r, None), s')"
  shows "activeNames (jobs s') ns n \<subseteq> {energyAwareCronJobName n t}" "jobs s' (ns, energyAwareCronJobName n t) \<noteq> None"
proof -
  note eq = synced_facts [OF assms(1)]
  have key: "ckey base = (ns, n)" using crons_key [OF assms(2)] .
  have base1: "crons s1 (ckey base) = Some base" using eq(10) assms(2) key by simp
  have slot: "slotKey e t = (ns, energyAwareCronJobName n t)" using key eq(4,5) by (simp add: slotKey_def ckey_def)
  from dispatch_any [OF assms(4) base1 eq(1)] have
    D: "jobs s' = without (replaced e) (jobs s1) \<or> (\<exists>j. builtFrom e t j \<and> jobs s' = (without (replaced e) (jobs s1))(slotKey e t \<mapsto> j))"
    and made: "jobs s' (slotKey e t) \<noteq> None"
    by blast+
  from made show "jobs s' (ns, energyAwareCronJobName n t) \<noteq> None" by (simp add: slot)
  have act: "set (eActive e) = jobRef ` {j \<in> owned (jobs s) base. unfinished j}"
    using assms(1) by (auto simp: synced_def)
  have rep: "replaced e = jkey ` {j \<in> owned (jobs s) base. unfinished j}"
    using assms(3) eq(2) by (simp add: replaced_def act orName_refKey)
  have "activeNames (without (replaced e) (jobs s1)) ns n = {}"
  proof (rule ccontr)
    assume "\<not> ?thesis"
    then obtain k j where k: "without (replaced e) (jobs s1) (ns, k) = Some j" "unfinished j"
      "jLabels j ownerLabel = Some (energyAwareCronJobOwnerLabelValue n)" by (auto simp: activeNames_def)
    then have j: "jobs s (ns, k) = Some j" "(ns, k) \<notin> replaced e"
      using synced_active(3) [OF assms(1)] by (auto simp: without_apply split: if_splits)
    then have "j \<in> owned (jobs s) base" "jkey j = (ns, k)" using k(3) key jobs_key [OF j(1)] by (auto simp: owned_def ckey_def)
    then show False using j(2) k(2) rep by (metis (mono_tags, lifting) image_eqI mem_Collect_eq)
  qed
  then show "activeNames (jobs s') ns n \<subseteq> {energyAwareCronJobName n t}"
    using D by (elim disjE exE conjE) (auto simp: activeNames_def slot split: if_splits)
qed

end

section \<open>Example states\<close>

text \<open>Two finished Jobs and a running one; \<open>Replace\<close>, and one successful Job to keep.\<close>

definition demoJob :: "string \<Rightarrow> (string \<times> string) list \<Rightarrow> time \<Rightarrow> job" where
  "demoJob name conds t = \<lparr>jNamespace = ''ns'', jName = name, jUID = name, jLabels = [ownerLabel \<mapsto> ''report''],
     jAnnotations = Map.empty, jController = Some ''report'', jSpec = ''run'', jConditions = conds,
     jStartTime = Some t, jCreationTimestamp = t, jCompletionTime = None\<rparr>"

definition busyCron :: eacj where
  "busyCron = demoCron\<lparr>eConcurrencyPolicy := ReplaceConcurrent, eSuccessfulJobsHistoryLimit := Some 1, eScheduleWindow := 0\<rparr>"

definition busyState :: cjMemState where
  "busyState = \<lparr>mJobs = [((''ns'', ''b''), demoJob ''b'' [(''Complete'', ''True'')] 20),
       ((''ns'', ''a''), demoJob ''a'' [(''Complete'', ''True'')] 10), ((''ns'', ''c''), demoJob ''c'' [] 30)],
     mCrons = [((''ns'', ''report''), busyCron)], mPrices = []\<rparr>"

definition busyReconcile :: "(result \<times> cj_failure option) \<times> cjMemState" where
  "busyReconcile = reconcileEACJ (memCjClient (\<lambda>_. None)) demoTexts id everySixHours byStart (atTime hour) ''ns'' ''report'' busyState"

definition busySync :: "(cj_failure + eacj) \<times> cjMemState" where
  "busySync = syncActiveJobs (memCjClient (\<lambda>_. None)) byStart busyCron busyState"

lemma busyReconcile_eval: "fst busyReconcile = (noRequeue\<lparr>Requeue := True\<rparr>, None)"
  by code_simp

lemma busySync_eval: "case busySync of (r, s) \<Rightarrow> (case r of Inl _ \<Rightarrow> False | Inr _ \<Rightarrow> map fst (mJobs s) = [(''ns'', ''b''), (''ns'', ''c'')])"
  by code_simp

lemma busyCron_stored: "memCrons busyState (''ns'', ''report'') = Some busyCron"
  by (simp add: memCrons_def busyState_def nameCron_def busyCron_def demoCron_def)

section \<open>Properties\<close>

text \<open>
  C32: A successful synchronisation keeps every unfinished Job of the cron job, keeps exactly as
  many succeeded and failed Jobs as the history limits allow, and each Job it deletes started no
  later than each Job of the same class it keeps. A negative limit never succeeds.
\<close>

theorem sync_history_limits:
  assumes "job_api C jobs crons" "sortsJobs f" "syncActiveJobs C f e s = (Inr e', s')"
  shows "{j \<in> owned (jobs s') e. unfinished j} = {j \<in> owned (jobs s) e. unfinished j} \<and>
    int (card {j \<in> owned (jobs s') e. succeeded j}) =
      min (int (card {j \<in> owned (jobs s) e. succeeded j})) (historyLimit (eSuccessfulJobsHistoryLimit e) 3) \<and>
    int (card {j \<in> owned (jobs s') e. failed j}) =
      min (int (card {j \<in> owned (jobs s) e. failed j})) (historyLimit (eFailedJobsHistoryLimit e) 1) \<and>
    (\<forall>d k. d \<in> owned (jobs s) e \<and> d \<notin> owned (jobs s') e \<and> k \<in> owned (jobs s') e \<and> succeeded d = succeeded k \<and> \<not> unfinished k
      \<longrightarrow> jobStartTime d \<le> jobStartTime k)"
proof -
  from job_api.sync_history [OF assms(1,3,2)] obtain js a b where
    js: "set js = owned (jobs s) e" "distinct js"
    and a: "a = length (filter succeeded js) - nat (historyLimit (eSuccessfulJobsHistoryLimit e) 3)"
    and b: "b = length (filter failed js) - nat (historyLimit (eFailedJobsHistoryLimit e) 1)"
    and lim: "0 \<le> historyLimit (eSuccessfulJobsHistoryLimit e) 3" "0 \<le> historyLimit (eFailedJobsHistoryLimit e) 1"
    and own: "owned (jobs s') e = owned (jobs s) e - (set (take a (f (filter succeeded js))) \<union> set (take b (f (filter failed js))))"
    and A: "set (take a (f (filter succeeded js))) \<subseteq> {j \<in> owned (jobs s) e. succeeded j}"
    and B: "set (take b (f (filter failed js))) \<subseteq> {j \<in> owned (jobs s) e. failed j}"
    by blast
  let ?S = "f (filter succeeded js)" and ?F = "f (filter failed js)"
  note S = sorted_split [OF assms(2) distinct_filter [OF js(2), of succeeded], where n = a]
  note F = sorted_split [OF assms(2) distinct_filter [OF js(2), of failed], where n = b]
  have classes: "{j \<in> owned (jobs s) e. succeeded j} = set (filter succeeded js)" "{j \<in> owned (jobs s) e. failed j} = set (filter failed js)"
    by (auto simp: js(1))
  have keptS: "{j \<in> owned (jobs s') e. succeeded j} = set (drop a ?S)" using own B S(1) job_classes(4) by (auto simp: js(1))
  have keptF: "{j \<in> owned (jobs s') e. failed j} = set (drop b ?F)" using own A F(1) job_classes(4) by (auto simp: js(1))
  have unf: "{j \<in> owned (jobs s') e. unfinished j} = {j \<in> owned (jobs s) e. unfinished j}"
    using own A B job_classes(2,3) by blast
  have cS: "int (card {j \<in> owned (jobs s') e. succeeded j}) =
      min (int (card {j \<in> owned (jobs s) e. succeeded j})) (historyLimit (eSuccessfulJobsHistoryLimit e) 3)"
    unfolding keptS classes S(2) using lim(1) a distinct_card [OF distinct_filter [OF js(2)]] by simp
  have cF: "int (card {j \<in> owned (jobs s') e. failed j}) =
      min (int (card {j \<in> owned (jobs s) e. failed j})) (historyLimit (eFailedJobsHistoryLimit e) 1)"
    unfolding keptF classes F(2) using lim(2) b distinct_card [OF distinct_filter [OF js(2)]] by simp
  have "jobStartTime d \<le> jobStartTime k" if d: "d \<in> owned (jobs s) e" "d \<notin> owned (jobs s') e"
    and k: "k \<in> owned (jobs s') e" "succeeded d = succeeded k" "\<not> unfinished k" for d k
  proof (cases "succeeded k")
    case True
    then have "d \<in> set (take a ?S)" using d own B k(2) job_classes(4) by blast
    moreover have "k \<in> set (drop a ?S)" using True k(1) keptS by blast
    ultimately show ?thesis by (rule S(3))
  next
    case False
    then have "failed k" "d \<in> set (take b ?F)" using d own A k(2,3) job_classes(1) by blast+
    then show ?thesis using F(3) keptF k(1) by blast
  qed
  then show ?thesis using unf cS cF by blast
qed

theorem sync_history_limits_witness:
  "int (card {j \<in> owned (memJobs (snd busySync)) busyCron. succeeded j}) =
     min (int (card {j \<in> owned (memJobs busyState) busyCron. succeeded j})) (historyLimit (Some 1) 3) \<and>
   map fst (mJobs (snd busySync)) = [(''ns'', ''b''), (''ns'', ''c'')]"
proof -
  obtain e' s' where run: "busySync = (Inr e', s')" "map fst (mJobs s') = [(''ns'', ''b''), (''ns'', ''c'')]"
    using busySync_eval by (auto split: prod.splits sum.splits)
  from run(1) have "syncActiveJobs (memCjClient (\<lambda>_. None)) byStart busyCron busyState = (Inr e', s')" by (simp add: busySync_def)
  from sync_history_limits [OF memCj.job_api_axioms sortsJobs_byStart this]
  have "int (card {j \<in> owned (memJobs s') busyCron. succeeded j}) =
     min (int (card {j \<in> owned (memJobs busyState) busyCron. succeeded j})) (historyLimit (eSuccessfulJobsHistoryLimit busyCron) 3)"
    by blast
  moreover have "eSuccessfulJobsHistoryLimit busyCron = Some 1" by (simp add: busyCron_def)
  ultimately show ?thesis unfolding run(1) snd_conv using run(2) by presburger
qed

text \<open>
  C33: With \<open>concurrencyPolicy: Replace\<close>, once a reconciliation has dispatched and asks to be run
  again, the Job of the slot exists and no other Job of the cron job is unfinished.
\<close>

theorem replace_leaves_one:
  assumes "job_api C jobs crons" "sortsJobs sortJobs"
    and "reconcileEACJ C txt rnd cronParse sortJobs clk ns n s = ((noRequeue\<lparr>Requeue := True\<rparr>, None), s')"
    and "crons s (ns, n) = Some e" "eConcurrencyPolicy e = ReplaceConcurrent"
  shows "activeNames (jobs s') ns n \<subseteq> {energyAwareCronJobName n (dispatchTime clk e)} \<and>
    jobs s' (ns, energyAwareCronJobName n (dispatchTime clk e)) \<noteq> None"
proof -
  obtain e1 s1 where "synced C jobs crons e e1 s s1"
    "dispatchJob C txt clk e e1 (dispatchTime clk e) s1 = ((noRequeue\<lparr>Requeue := True\<rparr>, None), s')"
    using job_api.requeue_dispatched [OF assms(1,3,2,4)] by blast
  from job_api.replace_active [OF assms(1) this(1) assms(4,5) this(2)] show ?thesis by blast
qed

theorem replace_leaves_one_witness:
  "activeNames (memJobs (snd busyReconcile)) ''ns'' ''report'' \<subseteq> {energyAwareCronJobName ''report'' (dispatchTime (atTime hour) busyCron)} \<and>
   memJobs (snd busyReconcile) (''ns'', energyAwareCronJobName ''report'' (dispatchTime (atTime hour) busyCron)) \<noteq> None"
proof (rule replace_leaves_one [OF memCj.job_api_axioms sortsJobs_byStart])
  show "reconcileEACJ (memCjClient (\<lambda>_. None)) demoTexts id everySixHours byStart (atTime hour) ''ns'' ''report'' busyState =
      ((noRequeue\<lparr>Requeue := True\<rparr>, None), snd busyReconcile)"
    using busyReconcile_eval by (metis busyReconcile_def prod.collapse)
  show "memCrons busyState (''ns'', ''report'') = Some busyCron" by (rule busyCron_stored)
  show "eConcurrencyPolicy busyCron = ReplaceConcurrent" by (simp add: busyCron_def)
qed

end
