(* ===== verification/Webhook.thy ===== *)
theory Webhook
  imports Cron_Job Cluster_Policy
begin

text \<open>
  The admission webhooks, \<open>internal/webhook/energyawarecronjob_webhook.go\<close> and
  \<open>internal/webhook/hibernatepolicy_webhook.go\<close>. The validators return no warnings; \<^const>\<open>None\<close>
  is acceptance. The cron library and the time zone database are the parameters \<open>cronParse\<close> and
  \<open>loadLocation\<close>, as in the controllers.
\<close>

section \<open>Definitions\<close>

definition defaultTimezone :: string where "defaultTimezone = ''UTC''"

datatype admission_error =
    WrongType
  | DurationExceedsWindow duration duration
  | EmptySchedule
  | ScheduleInvalid string string
  | WindowExceedsInterval duration duration string
  | TimezoneInvalid nat string
  | FromInvalid nat string
  | UntilInvalid nat string
  | NotBefore nat

text \<open>2026-01-01 00:00:00 UTC.\<close>

definition intervalRef :: time where
  "intervalRef = goDate UTC 20454 0 0"

fun minIntervalLoop :: "(time \<Rightarrow> time) \<Rightarrow> nat \<Rightarrow> time \<Rightarrow> duration \<Rightarrow> duration" where
  "minIntervalLoop Next 0 prev mn = mn"
| "minIntervalLoop Next (Suc n) prev mn =
     (let nxt = Next prev; d = time_Sub nxt prev
      in minIntervalLoop Next n nxt (if d < mn then d else mn))"

definition samples :: nat where "samples = 1000"

definition minimumCronInterval :: "(time \<Rightarrow> time) \<Rightarrow> duration" where
  "minimumCronInterval Next = minIntervalLoop Next (samples - 1) (Next intervalRef) maxInt64"

text \<open>The webhook's own copy of the time zone prefix.\<close>

definition admittedScheduleString :: "eacj \<Rightarrow> string" where
  "admittedScheduleString e =
     (if \<not> HasPrefix (eSchedule e) ''TZ='' \<and> \<not> HasPrefix (eSchedule e) ''CRON_TZ=''
      then let tz = (case eTimeZone e of None \<Rightarrow> defaultTimezone | Some z \<Rightarrow> if z \<noteq> '''' then z else defaultTimezone)
           in ''TZ='' @ tz @ '' '' @ eSchedule e
      else eSchedule e)"

definition validateEnergyAwareCronJobSpec ::
  "(string \<Rightarrow> string + (time \<Rightarrow> time)) \<Rightarrow> eacj \<Rightarrow> admission_error option" where
  "validateEnergyAwareCronJobSpec cronParse e =
     (let scheduleWindow = eScheduleWindow e; estimatedDuration = eEstimatedDuration e
      in if estimatedDuration > scheduleWindow then Some (DurationExceedsWindow estimatedDuration scheduleWindow)
         else if scheduleWindow = 0 then None
         else if eSchedule e = '''' then Some EmptySchedule
         else case cronParse (admittedScheduleString e) of
             Inl err \<Rightarrow> Some (ScheduleInvalid (eSchedule e) err)
           | Inr sched \<Rightarrow>
               (let minInterval = minimumCronInterval sched
                in if scheduleWindow > minInterval
                   then Some (WindowExceedsInterval scheduleWindow minInterval (eSchedule e)) else None))"

text \<open>\<open>time.ParseInLocation\<close> gives the clock time on January 1 of year 0 in the location.\<close>

definition yearZero :: int where "yearZero = - 719528"

definition parseWindowTime :: "string \<Rightarrow> location \<Rightarrow> time option" where
  "parseWindowTime hhmm loc =
     (case parseClock hhmm of
        None \<Rightarrow> None
      | Some (h, m) \<Rightarrow> Some (goDate loc yearZero (int h * 3600 + int m * 60) 0))"

fun validateWindowsFrom ::
  "(string \<Rightarrow> location option) \<Rightarrow> nat \<Rightarrow> availabilityWindow list \<Rightarrow> admission_error option" where
  "validateWindowsFrom loadLocation i [] = None"
| "validateWindowsFrom loadLocation i (w # ws) =
     (let tz = (if Timezone w = '''' then defaultTimezone else Timezone w)
      in case loadLocation tz of
           None \<Rightarrow> Some (TimezoneInvalid i (Timezone w))
         | Some loc \<Rightarrow>
             (case parseWindowTime (From w) loc of
                None \<Rightarrow> Some (FromInvalid i (From w))
              | Some from \<Rightarrow>
                  (case parseWindowTime (Until w) loc of
                     None \<Rightarrow> Some (UntilInvalid i (Until w))
                   | Some until \<Rightarrow>
                       if \<not> from < until then Some (NotBefore i)
                       else validateWindowsFrom loadLocation (Suc i) ws)))"

definition validateAvailabilityWindows ::
  "(string \<Rightarrow> location option) \<Rightarrow> availabilityWindow list \<Rightarrow> admission_error option" where
  "validateAvailabilityWindows loadLocation windows = validateWindowsFrom loadLocation 0 windows"

text \<open>The objects a validator may be handed.\<close>

datatype runtimeObject =
    ObjEnergyAwareCronJob eacj
  | ObjHibernatePolicy hibernatePolicy
  | ObjClusterHibernatePolicy clusterHibernatePolicy
  | ObjOther

datatype validatorKind = EnergyAwareCronJobCustomValidator | HibernatePolicyCustomValidator | ClusterHibernatePolicyCustomValidator

fun ValidateCreate ::
  "(string \<Rightarrow> string + (time \<Rightarrow> time)) \<Rightarrow> (string \<Rightarrow> location option) \<Rightarrow> validatorKind \<Rightarrow> runtimeObject \<Rightarrow> admission_error option" where
  "ValidateCreate cronParse loadLocation EnergyAwareCronJobCustomValidator (ObjEnergyAwareCronJob e) =
     validateEnergyAwareCronJobSpec cronParse e"
| "ValidateCreate cronParse loadLocation HibernatePolicyCustomValidator (ObjHibernatePolicy hp) =
     validateAvailabilityWindows loadLocation (hpAvailabilityWindows hp)"
| "ValidateCreate cronParse loadLocation ClusterHibernatePolicyCustomValidator (ObjClusterHibernatePolicy chp) =
     validateAvailabilityWindows loadLocation (chpAvailabilityWindows chp)"
| "ValidateCreate cronParse loadLocation _ _ = Some WrongType"

text \<open>The old object is ignored.\<close>

definition ValidateUpdate ::
  "(string \<Rightarrow> string + (time \<Rightarrow> time)) \<Rightarrow> (string \<Rightarrow> location option) \<Rightarrow> validatorKind \<Rightarrow>
     runtimeObject \<Rightarrow> runtimeObject \<Rightarrow> admission_error option" where
  "ValidateUpdate cronParse loadLocation v oldObj newObj = ValidateCreate cronParse loadLocation v newObj"

definition ValidateDelete :: "validatorKind \<Rightarrow> runtimeObject \<Rightarrow> admission_error option" where
  "ValidateDelete v obj = None"

section \<open>Lemmas\<close>

lemma admittedScheduleString_eq: "admittedScheduleString e = scheduleString e"
  by (auto simp: admittedScheduleString_def scheduleString_def defaultTimezone_def Let_def split: option.splits)

lemma minIntervalLoop_le_iff:
  "x \<le> minIntervalLoop Next n prev mn \<longleftrightarrow>
     x \<le> mn \<and> (\<forall>k<n. x \<le> time_Sub ((Next ^^ Suc k) prev) ((Next ^^ k) prev))"
proof (induction n arbitrary: prev mn)
  case (Suc n)
  have step: "(\<forall>k<Suc n. P k) \<longleftrightarrow> P 0 \<and> (\<forall>k<n. P (Suc k))" for P :: "nat \<Rightarrow> bool"
    by (auto simp: less_Suc_eq_0_disj)
  show ?case
    by (simp only: minIntervalLoop.simps Let_def Suc.IH step)
      (auto simp: funpow_swap1 not_less)
qed simp

lemma minimumCronInterval_le_iff:
  "x \<le> minimumCronInterval Next \<longleftrightarrow>
     x \<le> maxInt64 \<and> (\<forall>k<999. x \<le> time_Sub ((Next ^^ (k + 2)) intervalRef) ((Next ^^ (k + 1)) intervalRef))"
  by (simp add: minimumCronInterval_def minIntervalLoop_le_iff samples_def funpow_swap1)

text \<open>A location whose offset is constant until 1800, as before standard time.\<close>

definition steadyPast :: "location \<Rightarrow> bool" where
  "steadyPast loc \<longleftrightarrow> (\<exists>k. - daySeconds \<le> k \<and> (\<forall>sec \<le> - 5364662400. zoneOffset loc sec = k))"

lemma parseWindowTime_steady:
  assumes "steadyPast loc" "parseClock a = Some (h, m)" "parseClock b = Some (h', m')"
  shows "\<exists>x y. parseWindowTime a loc = Some x \<and> parseWindowTime b loc = Some y \<and>
    (x < y \<longleftrightarrow> h * 60 + m < h' * 60 + m')"
proof -
  obtain k where k: "- daySeconds \<le> k" "\<And>sec. sec \<le> - 5364662400 \<Longrightarrow> zoneOffset loc sec = k"
    using assms(1) by (auto simp: steadyPast_def)
  have date: "goDate loc yearZero sec 0 = (yearZero * daySeconds + sec - k) * second" if "sec < daySeconds" for sec
  proof -
    let ?u = "yearZero * daySeconds + sec"
    have "?u \<le> - 5364662400" "?u - k \<le> - 5364662400" using that k(1) by (simp_all add: yearZero_def daySeconds_def)
    then have "zoneOffset loc ?u = k" "zoneOffset loc (?u - k) = k" using k(2) by blast+
    then show ?thesis by (auto simp: goDate_def Let_def zoneOffset_def split: prod.splits)
  qed
  have "h < 24 \<and> m < 60" "h' < 24 \<and> m' < 60" using parseClock_range assms(2,3) by blast+
  then have "int h * 3600 + int m * 60 < daySeconds" "int h' * 3600 + int m' * 60 < daySeconds" by (simp_all add: daySeconds_def)
  from date [OF this(1)] date [OF this(2)] show ?thesis
    using assms(2,3) by (auto simp: parseWindowTime_def second_def)
qed

text \<open>What the validator means by a valid window.\<close>

definition validWindow :: "(string \<Rightarrow> location option) \<Rightarrow> availabilityWindow \<Rightarrow> bool" where
  "validWindow loadLocation w \<longleftrightarrow>
     (\<exists>loc h m h' m'. loadLocation (if Timezone w = '''' then defaultTimezone else Timezone w) = Some loc \<and>
        parseClock (From w) = Some (h, m) \<and> parseClock (Until w) = Some (h', m') \<and> h * 60 + m < h' * 60 + m')"

lemma validateWindowsFrom_iff:
  assumes "\<And>tz loc. loadLocation tz = Some loc \<Longrightarrow> steadyPast loc"
  shows "validateWindowsFrom loadLocation i ws = None \<longleftrightarrow> (\<forall>w \<in> set ws. validWindow loadLocation w)"
proof (induction ws arbitrary: i)
  case (Cons w ws)
  define tz where "tz = (if Timezone w = '''' then defaultTimezone else Timezone w)"
  show ?case
  proof (cases "\<exists>loc h m h' m'. loadLocation tz = Some loc \<and> parseClock (From w) = Some (h, m) \<and> parseClock (Until w) = Some (h', m')")
    case True
    then obtain loc h m h' m' where w: "loadLocation tz = Some loc" "parseClock (From w) = Some (h, m)" "parseClock (Until w) = Some (h', m')"
      by blast
    obtain x y where "parseWindowTime (From w) loc = Some x" "parseWindowTime (Until w) loc = Some y" "x < y \<longleftrightarrow> h * 60 + m < h' * 60 + m'"
      using parseWindowTime_steady [OF assms [OF w(1)] w(2,3)] by blast
    then show ?thesis
      using Cons.IH [of "Suc i"] w by (auto simp: validWindow_def tz_def [symmetric] Let_def)
  next
    case False
    then have "\<not> validWindow loadLocation w" by (auto simp: validWindow_def tz_def)
    moreover have "validateWindowsFrom loadLocation i (w # ws) \<noteq> None"
      using False by (auto simp: tz_def [symmetric] parseWindowTime_def Let_def split: option.splits)
    ultimately show ?thesis by auto
  qed
qed simp

text \<open>
  A location with the offset \<open>k\<close> in a span of wall-clock seconds: at the instants that the span names,
  and at those where \<open>time.Date\<close> looks the offset up, which lie at most the offset away.
\<close>

definition steadySpan :: "int \<Rightarrow> int \<Rightarrow> int \<Rightarrow> location \<Rightarrow> bool" where
  "steadySpan k a b loc \<longleftrightarrow> (\<forall>sec. a - \<bar>k\<bar> \<le> sec \<and> sec \<le> b + \<bar>k\<bar> \<longrightarrow> zoneOffset loc sec = k)"

lemma steadySpan_fixed: "fixedOffset k loc \<Longrightarrow> steadySpan k a b loc"
  by (simp add: fixedOffset_def steadySpan_def)

lemma steadySpanD: "steadySpan k a b loc \<Longrightarrow> a - \<bar>k\<bar> \<le> sec \<Longrightarrow> sec \<le> b + \<bar>k\<bar> \<Longrightarrow> zoneOffset loc sec = k"
  by (simp add: steadySpan_def)

lemma goDate_steady:
  assumes "steadySpan k a b loc" "a \<le> day * daySeconds + sec" "day * daySeconds + sec \<le> b"
  shows "goDate loc day sec 0 = (day * daySeconds + sec - k) * second"
proof -
  let ?u = "day * daySeconds + sec"
  have "zoneOffset loc ?u = k" "zoneOffset loc (?u - k) = k"
    by (rule steadySpanD [OF assms(1)]; use assms(2,3) in linarith)+
  then show ?thesis by (auto simp: goDate_def Let_def zoneOffset_def split: prod.splits)
qed

lemma localDay_steady:
  assumes "steadySpan k (day * daySeconds + a) (day * daySeconds + b) loc" "0 \<le> a" "b \<le> daySeconds"
    and "(day * daySeconds + a - k) * second \<le> t" "t < (day * daySeconds + b - k) * second"
  shows "localDay loc t = day"
proof -
  have u: "day * daySeconds + a - k \<le> Unix t" "Unix t < day * daySeconds + b - k"
    using assms(4,5) Unix_le_iff [of _ t] by (auto simp: not_le [symmetric])
  have "zoneOffset loc (Unix t) = k" by (rule steadySpanD [OF assms(1)]; use u in linarith)
  then have "localDay loc t = (Unix t + k) div daySeconds" by (simp add: localDay_def)
  also have "\<dots> = day"
    using u assms(2,3) unfolding daySeconds_def by arith
  finally show ?thesis .
qed

lemma window_opens:
  assumes "parseClock (From w) = Some (h, m)" "parseClock (Until w) = Some (h', m')" "h * 60 + m < h' * 60 + m'"
    and "loadLocation (Timezone w) = Some loc" "Weekday loc now \<in> weekdayFromSpec ` set (Weekdays w)"
    and "start = localDay loc now * daySeconds + int h * 3600 + int m * 60"
    and "stop = localDay loc now * daySeconds + int h' * 3600 + int m' * 60"
    and "steadySpan k start stop loc" "(start - k) * second \<le> t" "t < (stop - k) * second"
  shows "localDay loc t = localDay loc now \<and> opens loadLocation w t ((stop - k) * second)"
proof -
  let ?d = "localDay loc now" and ?a = "int h * 3600 + int m * 60" and ?b = "int h' * 3600 + int m' * 60"
  have s: "steadySpan k (?d * daySeconds + ?a) (?d * daySeconds + ?b) loc"
    "(?d * daySeconds + ?a - k) * second \<le> t" "t < (?d * daySeconds + ?b - k) * second"
    using assms(6-10) by (simp_all add: add.assoc)
  have r: "0 \<le> ?a" "?b \<le> daySeconds" using parseClock_range [OF assms(2)] by (simp_all add: daySeconds_def)
  have day: "localDay loc t = ?d" by (rule localDay_steady [OF s(1) r s(2,3)])
  have "int h * 60 + int m < int h' * 60 + int m'" using assms(3) by linarith
  then have le: "?a \<le> ?b" by linarith
  have p: "parseHHMM (From w) ?d loc = Some ((start - k) * second)" "parseHHMM (Until w) ?d loc = Some ((stop - k) * second)"
    using goDate_steady [OF s(1), of ?d ?a] goDate_steady [OF s(1), of ?d ?b] le
    by (simp_all add: parseHHMM_def assms(1,2,6,7) add.assoc)
  then show ?thesis
    using day assms(4,5,9,10) Weekday_localDay [of loc t now 0] by (auto simp: opens_def)
qed

text \<open>A constant delay, as for \<open>@every 6h\<close>.\<close>

lemma funpow_delay: "((\<lambda>t. t + d) ^^ k) t = t + int k * (d :: int)"
  by (induction k) (auto simp: algebra_simps)

definition sixHourWindow :: eacj where
  "sixHourWindow = \<lparr>eNamespace = ''ns'', eName = ''report'', eCreationTimestamp = 0, ePriceSource = ''prices'',
     eStrategy = '''', eEstimatedDuration = 30 * minute, eScheduleWindow = 6 * hour, eSchedule = ''@every 6h'',
     eTimeZone = None, eStartingDeadlineSeconds = None, eConcurrencyPolicy = '''', eSuspend = None,
     eSuccessfulJobsHistoryLimit = None, eFailedJobsHistoryLimit = None, eTemplateLabels = Map.empty,
     eTemplateAnnotations = Map.empty, eTemplateSpec = ''run'', eActive = [], eLastScheduleTime = None,
     eNextCronWindow = None, eNextScheduledTime = None, eLastSuccessfulTime = None, eConditions = []\<rparr>"

section \<open>Properties\<close>

text \<open>
  C35: The cron job validator accepts a spec exactly when the estimated duration fits the schedule
  window and the window is zero, or the schedule is not empty, the string the controller will parse
  parses, and the window is no longer than each of the 999 gaps between the first 1000 occurrences
  after 2026-01-01. With a zero window the schedule is not looked at.
\<close>

theorem validateEnergyAwareCronJobSpec_iff:
  "validateEnergyAwareCronJobSpec cronParse e = None \<longleftrightarrow>
     eEstimatedDuration e \<le> eScheduleWindow e \<and>
     (eScheduleWindow e = 0 \<or>
      eSchedule e \<noteq> '''' \<and> eScheduleWindow e \<le> maxInt64 \<and>
      (\<exists>Next. cronParse (scheduleString e) = Inr Next \<and>
        (\<forall>k<999. eScheduleWindow e \<le> time_Sub ((Next ^^ (k + 2)) intervalRef) ((Next ^^ (k + 1)) intervalRef))))"
proof -
  have "validateEnergyAwareCronJobSpec cronParse e = None \<longleftrightarrow>
     eEstimatedDuration e \<le> eScheduleWindow e \<and> (eScheduleWindow e = 0 \<or> eSchedule e \<noteq> '''' \<and>
      (\<exists>Next. cronParse (scheduleString e) = Inr Next \<and> eScheduleWindow e \<le> minimumCronInterval Next))"
    by (auto simp: validateEnergyAwareCronJobSpec_def admittedScheduleString_eq Let_def split: sum.splits)
  then show ?thesis unfolding minimumCronInterval_le_iff by blast
qed

theorem validateEnergyAwareCronJobSpec_iff_witness:
  "validateEnergyAwareCronJobSpec (\<lambda>_. Inr (\<lambda>t. t + 6 * hour)) sixHourWindow = None"
  unfolding validateEnergyAwareCronJobSpec_iff funpow_delay by (simp add: sixHourWindow_def funpow_delay algebra_simps go_defs)

text \<open>
  \<open>validateAvailabilityWindows\<close> accepts exactly the lists whose windows all have a known zone, two
  clock times that parse, and a start before the end; zones have one offset before 1800.
\<close>

theorem validateAvailabilityWindows_iff:
  assumes "\<And>tz loc. loadLocation tz = Some loc \<Longrightarrow> steadyPast loc"
  shows "validateAvailabilityWindows loadLocation ws = None \<longleftrightarrow> (\<forall>w \<in> set ws. validWindow loadLocation w)"
  unfolding validateAvailabilityWindows_def by (rule validateWindowsFrom_iff [OF assms])

lemma steadyPast_UTC: "steadyPast UTC"
  by (auto simp: steadyPast_def UTC_def zoneOffset_def daySeconds_def intro!: exI [of _ 0])

theorem validateAvailabilityWindows_iff_witness:
  "(validateAvailabilityWindows (\<lambda>_. Some UTC) [officeHours] = None) = validWindow (\<lambda>_. Some UTC) officeHours \<and>
   validateAvailabilityWindows (\<lambda>_. Some UTC) [officeHours] = None"
proof -
  have "validateAvailabilityWindows (\<lambda>_. Some UTC) [officeHours] = None" by code_simp
  with validateAvailabilityWindows_iff [of "\<lambda>_. Some UTC" "[officeHours]"] steadyPast_UTC show ?thesis by simp
qed

text \<open>
  A zone with daylight saving: Europe/Amsterdam around Sunday 29 March 2026, where the clocks go from
  02:00 to 03:00 at 01:00 UTC.
\<close>

definition springZone :: location where
  "springZone sec = (let change = 20541 * daySeconds + 3600 in
     if sec < change then (3600, minInt64, change) else (7200, change, maxInt64))"

definition sundays :: "string \<Rightarrow> string \<Rightarrow> availabilityWindow" where
  "sundays start stop = \<lparr>Weekdays = [Sunday], From = start, Until = stop, Timezone = ''Europe/Amsterdam''\<rparr>"

lemma steadyPast_springZone: "steadyPast springZone"
  by (auto simp: steadyPast_def springZone_def zoneOffset_def daySeconds_def Let_def intro!: exI [of _ 3600])

text \<open>A window in the hour that the clocks skip is accepted, and does not open on that day.\<close>

lemma skipped_hour_never_opens:
  assumes "localDay springZone t = 20541"
  shows "validateAvailabilityWindows (\<lambda>_. Some springZone) [sundays ''02:00'' ''03:00''] = None \<and>
    \<not> fst (isInAvailabilityWindow (\<lambda>_. Some springZone) [sundays ''02:00'' ''03:00''] t)"
proof
  show "validateAvailabilityWindows (\<lambda>_. Some springZone) [sundays ''02:00'' ''03:00''] = None" by code_simp
  have "parseHHMM ''02:00'' 20541 springZone = parseHHMM ''03:00'' 20541 springZone" by code_simp
  then show "\<not> fst (isInAvailabilityWindow (\<lambda>_. Some springZone) [sundays ''02:00'' ''03:00''] t)"
    using assms unfolding isInAvailabilityWindow_False by (auto simp: opens_def sundays_def)
qed

text \<open>
  C36: The controller honours every window the validator accepted: its zone loads, its clock times
  parse, and on each local day of a listed weekday \<open>isInAvailabilityWindow\<close> says yes at every instant from its
  start to its end, a span of that day that is not empty. The side condition is that the zone keeps one offset
  in the span (and as long as the offset before and after it): always so for a fixed offset, and for a
  zone with daylight saving on every day but those where the clocks change in or next to the window,
  where the window can be empty (\<open>skipped_hour_never_opens\<close>). Zones have one offset before 1800, and the
  empty zone name is UTC.
\<close>

theorem accepted_window_is_honoured:
  assumes "validateAvailabilityWindows loadLocation ws = None" "w \<in> set ws"
    and "\<And>tz loc. loadLocation tz = Some loc \<Longrightarrow> steadyPast loc" "loadLocation '''' = loadLocation defaultTimezone"
  shows "\<exists>loc h m h' m'. loadLocation (Timezone w) = Some loc \<and>
    parseClock (From w) = Some (h, m) \<and> parseClock (Until w) = Some (h', m') \<and> h * 60 + m < h' * 60 + m' \<and>
    (\<forall>now k t. let start = localDay loc now * daySeconds + int h * 3600 + int m * 60;
                   stop = localDay loc now * daySeconds + int h' * 3600 + int m' * 60
       in Weekday loc now \<in> weekdayFromSpec ` set (Weekdays w) \<and> steadySpan k start stop loc \<and>
          (start - k) * second \<le> t \<and> t < (stop - k) * second \<longrightarrow>
          localDay loc t = localDay loc now \<and> fst (isInAvailabilityWindow loadLocation ws t))"
proof -
  have "validWindow loadLocation w"
    using assms(1,2) validateWindowsFrom_iff [OF assms(3)] by (simp add: validateAvailabilityWindows_def)
  then obtain loc h m h' m' where w: "loadLocation (Timezone w) = Some loc" "parseClock (From w) = Some (h, m)"
      "parseClock (Until w) = Some (h', m')" "h * 60 + m < h' * 60 + m'"
    using assms(4) by (auto simp: validWindow_def split: if_splits)
  have "localDay loc t = localDay loc now \<and> fst (isInAvailabilityWindow loadLocation ws t)"
    if "Weekday loc now \<in> weekdayFromSpec ` set (Weekdays w)"
      "start = localDay loc now * daySeconds + int h * 3600 + int m * 60"
      "stop = localDay loc now * daySeconds + int h' * 3600 + int m' * 60"
      "steadySpan k start stop loc" "(start - k) * second \<le> t" "t < (stop - k) * second" for now k t start stop
    using window_opens [where loadLocation = loadLocation, OF w(2-4,1) that] isInAvailabilityWindow_False [of loadLocation ws t] assms(2) by meson
  with w show ?thesis unfolding Let_def by blast
qed

theorem accepted_window_is_honoured_witness:
  "fst (isInAvailabilityWindow (\<lambda>_. Some springZone) [sundays ''08:00'' ''18:00''] ((20541 * daySeconds + 6 * 3600) * second))"
proof -
  let ?t = "(20541 * daySeconds + 6 * 3600) * second" and ?w = "sundays ''08:00'' ''18:00''"
  have v: "validateAvailabilityWindows (\<lambda>_. Some springZone) [?w] = None" by code_simp
  have c: "parseClock (From ?w) = Some (8, 0)" "parseClock (Until ?w) = Some (18, 0)" by code_simp+
  have d: "localDay springZone ?t = 20541" "Weekday springZone ?t \<in> weekdayFromSpec ` set (Weekdays ?w)" by code_simp+
  have s: "steadySpan 7200 (20541 * daySeconds + 8 * 3600) (20541 * daySeconds + 18 * 3600) springZone"
    by (auto simp: steadySpan_def springZone_def zoneOffset_def Let_def)
  have "?w \<in> set [?w]" by simp
  from accepted_window_is_honoured [OF v this] steadyPast_springZone
  obtain loc h m h' m' where r: "Some springZone = Some loc" "parseClock (From ?w) = Some (h, m)" "parseClock (Until ?w) = Some (h', m')"
    and "\<forall>now k t. let start = localDay loc now * daySeconds + int h * 3600 + int m * 60;
                   stop = localDay loc now * daySeconds + int h' * 3600 + int m' * 60
       in Weekday loc now \<in> weekdayFromSpec ` set (Weekdays ?w) \<and> steadySpan k start stop loc \<and>
          (start - k) * second \<le> t \<and> t < (stop - k) * second \<longrightarrow>
          localDay loc t = localDay loc now \<and> fst (isInAvailabilityWindow (\<lambda>_. Some springZone) [?w] t)"
    by blast
  note open_at = this(4) [THEN spec, THEN spec, THEN spec, of ?t 7200 ?t]
  have e: "loc = springZone" "h = 8" "m = 0" "h' = 18" "m' = 0" using r c by simp_all
  have "?t \<ge> (20541 * daySeconds + 8 * 3600 - 7200) * second" "?t < (20541 * daySeconds + 18 * 3600 - 7200) * second"
    by (simp_all add: second_def)
  then show ?thesis using open_at d(2) s unfolding e d(1) Let_def by simp
qed

end
