(* ===== verification/Cron_Schedule.thy ===== *)
theory Cron_Schedule
  imports Cron_History Webhook
begin

text \<open>
  The cron occurrence a reconciliation serves: \<open>nextScheduleTime\<close> against a direct description, and
  the admission webhook and the controller together: a planned slot skips no occurrence, and the run
  after its dispatch works for the next one.
\<close>

section \<open>Occurrences\<close>

text \<open>
  What the cron library documents for a schedule that always has another occurrence: \<open>Next t\<close> is
  the first occurrence after \<open>t\<close>, and occurrences are whole seconds.
\<close>

definition firesAt :: "(time \<Rightarrow> bool) \<Rightarrow> (time \<Rightarrow> time) \<Rightarrow> bool" where
  "firesAt Occ Next \<longleftrightarrow> (\<forall>t. t < Next t \<and> Occ (Next t) \<and> (\<forall>u. t < u \<and> u < Next t \<longrightarrow> \<not> Occ u)) \<and>
     (\<forall>u. Occ u \<longrightarrow> wholeSeconds u = u)"

lemma firesAt_first: "firesAt Occ Next \<Longrightarrow> Occ u \<Longrightarrow> t < u \<Longrightarrow> Next t \<le> u"
  by (metis firesAt_def not_le)

lemma firesAt_next:
  assumes "firesAt Occ Next" "W \<le> t" "t < Next W"
  shows "Next t = Next W"
proof (rule antisym)
  show "Next t \<le> Next W" using firesAt_first [OF assms(1)] assms by (simp add: firesAt_def)
  show "Next W \<le> Next t" using firesAt_first [OF assms(1), of "Next t" W] assms(1,2) unfolding firesAt_def by (metis le_less_trans)
qed

lemma wholeSeconds_le: "wholeSeconds t \<le> t"
  using Nanosecond_bounds(1) [of t] Unix_Nanosecond [of t] by (simp add: wholeSeconds_def)

lemma wholeSeconds_mono: "t \<le> u \<Longrightarrow> wholeSeconds t \<le> wholeSeconds u"
  using Unix_mono [of t u] by (simp add: wholeSeconds_def second_def)

section \<open>nextScheduleTime\<close>

text \<open>The first of the given iterates of \<open>Next\<close> that is not before the deadline.\<close>

definition firstIterate :: "(time \<Rightarrow> time) \<Rightarrow> time \<Rightarrow> time \<Rightarrow> nat list \<Rightarrow> cj_error + time" where
  "firstIterate Next deadline t ks =
     (case find (\<lambda>k. deadline \<le> (Next ^^ k) t) ks of None \<Rightarrow> Inl TooManyMissed | Some k \<Rightarrow> Inr ((Next ^^ k) t))"

lemma firstIterate_Suc: "firstIterate Next d t (map Suc ks) = firstIterate Next d (Next t) ks"
  by (induction ks) (auto simp: firstIterate_def funpow_swap1)

lemma skipMissed_firstIterate: "skipMissed Next d n t = firstIterate Next d t [0..<Suc n]"
proof (induction n arbitrary: t)
  case 0
  then show ?case by (simp add: skipMissed.simps [of _ _ 0] firstIterate_def not_less)
next
  case (Suc n)
  have split: "[0..<Suc (Suc n)] = 0 # map Suc [0..<Suc n]" by (metis map_Suc_upt upt_conv_Cons zero_less_Suc)
  have "firstIterate Next d t [0..<Suc (Suc n)] = (if d \<le> t then Inr t else firstIterate Next d t (map Suc [0..<Suc n]))"
    unfolding split by (simp add: firstIterate_def)
  then show ?case by (simp add: skipMissed.simps [of _ _ "Suc n"] Suc firstIterate_Suc not_less del: upt_Suc)
qed

lemma skipMissed_first:
  assumes "firesAt Occ Next" "skipMissed Next d n x = Inr W" "Occ x"
  shows "Occ W \<and> x \<le> W \<and> d \<le> W \<and> (\<forall>u. Occ u \<and> x \<le> u \<and> u < W \<longrightarrow> u < d)"
  using assms(2,3)
proof (induction n arbitrary: x)
  case 0
  then show ?case by (simp add: skipMissed.simps [of _ _ 0] not_less split: if_splits)
next
  case (Suc n)
  show ?case
  proof (cases "x < d")
    case True
    then have "skipMissed Next d n (Next x) = Inr W" using Suc.prems(1) by (simp add: skipMissed.simps [of _ _ "Suc n"])
    from Suc.IH [OF this] assms(1) have IH: "Occ W" "Next x \<le> W" "d \<le> W" "\<forall>u. Occ u \<and> Next x \<le> u \<and> u < W \<longrightarrow> u < d" "x < Next x"
      by (auto simp: firesAt_def)
    have "u < d" if "Occ u" "x \<le> u" "u < W" for u
      using that IH(4) True firesAt_first [OF assms(1) that(1)] by (metis order_le_less)
    then show ?thesis using IH by auto
  next
    case False
    then show ?thesis using Suc.prems by (simp add: skipMissed.simps [of _ _ "Suc n"])
  qed
qed

lemma nextScheduleTime_first:
  assumes "firesAt Occ Next" "nextScheduleTime Next lastRun now deadlineSeconds = Inr W"
  shows "Occ W \<and> lastRun < W \<and> (\<forall>secs. deadlineSeconds = Some secs \<longrightarrow> scheduleDeadline now secs \<le> W) \<and>
    (\<forall>u. Occ u \<and> lastRun < u \<and> u < W \<longrightarrow> (\<exists>secs. deadlineSeconds = Some secs \<and> u < scheduleDeadline now secs))"
proof (cases deadlineSeconds)
  case None
  then show ?thesis using assms by (auto simp: nextScheduleTime_def firesAt_def)
next
  case (Some secs)
  then have skip: "skipMissed Next (scheduleDeadline now secs) 100 (Next lastRun) = Inr W"
    using assms(2) by (simp add: nextScheduleTime_def)
  have "Occ (Next lastRun)" "lastRun < Next lastRun" using assms(1) by (simp_all add: firesAt_def)
  from skipMissed_first [OF assms(1) skip this(1)] this(2) show ?thesis
    using Some firesAt_first [OF assms(1), of _ lastRun] by auto
qed

section \<open>The webhook's interval and the planned slot\<close>

lemma accepted_gap:
  assumes "validateEnergyAwareCronJobSpec cronParse e = None" "cronParse (scheduleString e) = Inr Next" "0 < eScheduleWindow e"
    and "1 \<le> k" "k \<le> 999" "W = (Next ^^ k) intervalRef"
  shows "W + eScheduleWindow e \<le> Next W"
proof -
  have "eScheduleWindow e \<le> minimumCronInterval Next"
    using assms(1-3) by (auto simp: validateEnergyAwareCronJobSpec_def admittedScheduleString_eq Let_def split: if_splits)
  moreover have "k - 1 < 999" using assms(4,5) by linarith
  ultimately have "eScheduleWindow e \<le> time_Sub ((Next ^^ (k - 1 + 2)) intervalRef) ((Next ^^ (k - 1 + 1)) intervalRef)"
    unfolding minimumCronInterval_le_iff by blast
  then have "eScheduleWindow e \<le> time_Sub (Next W) W" using assms(4,6) by (simp add: numeral_2_eq_2)
  then show ?thesis using assms(3) by (simp add: time_Sub_def minInt64_def max_def min_def split: if_splits)
qed

section \<open>The run after a dispatch\<close>

text \<open>
  A run at \<open>clk\<close> from \<open>s\<close> to \<open>s'\<close> after the slot \<open>T\<close> was dispatched: \<open>T\<close> is stored as the last schedule
  time and the plan is cleared, \<open>V\<close> is the one occurrence the run works for, before \<open>V\<close> it adds no Job
  and no plan, and a plan it stores is for the window of \<open>V\<close>.
\<close>

definition resumesAt ::
  "('s \<Rightarrow> string \<times> string \<rightharpoonup> job) \<Rightarrow> ('s \<Rightarrow> string \<times> string \<rightharpoonup> eacj) \<Rightarrow> (string \<Rightarrow> string + (time \<Rightarrow> time)) \<Rightarrow> clock \<Rightarrow>
     string \<Rightarrow> string \<Rightarrow> time \<Rightarrow> time \<Rightarrow> 's \<Rightarrow> 's \<Rightarrow> bool" where
  "resumesAt jobs crons cronParse clk ns n T V s s' \<longleftrightarrow>
     (\<exists>e. crons s (ns, n) = Some e \<and> eLastScheduleTime e = Some T \<and> eNextScheduledTime e = None \<and>
        (\<forall>U. serves cronParse clk e U \<longleftrightarrow> U = V)) \<and>
     (\<forall>key j. clkNow clk < V \<and> jobs s' key = Some j \<longrightarrow> jobs s key = Some j) \<and>
     (\<forall>e' T'. crons s' (ns, n) = Some e' \<and> eNextScheduledTime e' = Some T' \<longrightarrow> V \<le> clkNow clk \<and> eNextCronWindow e' = Some V)"

lemma nextScheduleTime_in_time:
  assumes "\<And>secs. d = Some secs \<Longrightarrow> scheduleDeadline now secs \<le> Next t"
  shows "nextScheduleTime Next t now d = Inr (Next t)"
  using assms by (auto simp: nextScheduleTime_def skipMissed.simps [of _ _ 100] split: option.splits)

lemma dispatched_schedule:
  assumes "synced C jobs crons base e s s1"
  shows "scheduleString (savedStatus (dispatchedStatus txts clk e j t)) = scheduleString base"
    "eStartingDeadlineSeconds (savedStatus (dispatchedStatus txts clk e j t)) = eStartingDeadlineSeconds base"
    "eLastScheduleTime (savedStatus (dispatchedStatus txts clk e j t)) = Some (wholeSeconds t)"
    "eNextScheduledTime (savedStatus (dispatchedStatus txts clk e j t)) = None"
  using assms by (auto simp: synced_def savedStatus_def dispatchedStatus_def scheduleString_def Let_def cong: option.case_cong if_cong)

context job_api
begin

text \<open>Before the occurrence it works for, a run without a plan adds nothing.\<close>

lemma early_run_waits:
  assumes "reconcileEACJ C txts rnd cronParse sortJobs clk ns n s = ((r, f), s')" "sortsJobs sortJobs"
    and "crons s (ns, n) = Some e0" "eNextScheduledTime e0 = None" "serves cronParse clk e0 V" "clkNow clk < V"
  shows "(\<forall>key j. jobs s' key = Some j \<longrightarrow> jobs s key = Some j) \<and>
    (\<forall>e'. crons s' (ns, n) = Some e' \<longrightarrow> eNextScheduledTime e' = None)"
  using assms(1,2)
proof (cases rule: reconcile_synced)
  case deleted
  then show ?thesis using assms(3,4) by simp
next
  case (going base e s1)
  have base: "base = e0" using going(1) assms(3) by simp
  note eq = synced_facts [OF going(3)]
  have base1: "crons s1 (ckey base) = Some base" using going(1,2) eq(10) by simp
  have "serves cronParse clk e V" using assms(5) synced_serves [OF going(3)] base by simp
  then have wait: "planNext C txts rnd cronParse clk base e s1 = persist C ''updating status'' base
      (e\<lparr>eNextCronWindow := Some V\<rparr>) (requeueAfter (time_Sub V (clkUntil clk))) s1"
    using assms(6) by (auto simp: serves_def planNext_def)
  obtain what e' res where e': "persist C what base e' res s1 = ((r, f), s')" "ckey e' = ckey base" "eNextScheduledTime e' = None"
    using going(4) wait eq(1,3) assms(4) base by (cases "eSuspend e = Some True") (auto simp: ckey_def)
  from persist_quiet(1) [OF e'(1) base1 e'(2)] show ?thesis
    using e'(3) synced_active(3) [OF going(3)] eq(10) going(2) assms(3,4) by (auto simp: quiet_def)
qed

lemma dispatched_resumes:
  assumes "reconcileEACJ C txts rnd cronParse sortJobs clk ns n s = ((noRequeue\<lparr>Requeue := True\<rparr>, f), s1)" "sortsJobs sortJobs"
    and "crons s (ns, n) = Some e0" "eNextScheduledTime e0 = Some T" "wholeSeconds T = T"
    and "cronParse (scheduleString e0) = Inr Next" "firesAt Occ Next"
    and "reconcileEACJ C txts rnd cronParse sortJobs clk' ns n s1 = ((r, f'), s2)"
    and "\<And>secs. eStartingDeadlineSeconds e0 = Some secs \<Longrightarrow> scheduleDeadline (clkNow clk') secs \<le> Next T"
  shows "jobs s1 (slotKey e0 T) \<noteq> None \<and> resumesAt jobs crons cronParse clk' ns n T (Next T) s1 s2"
proof -
  obtain e sa where sy: "synced C jobs crons e0 e s sa" and
    d: "dispatchJob C txts clk e0 e T sa = ((noRequeue\<lparr>Requeue := True\<rparr>, f), s1)"
    by (rule requeue_dispatched [OF assms(1-3)]) (simp add: dispatchTime_def assms(4))
  have key: "ckey e0 = (ns, n)" using crons_key [OF assms(3)] .
  note eq = synced_facts [OF sy]
  have "crons sa (ckey e0) = Some e0" using assms(3) key eq(10) by simp
  from dispatch_any [OF d this eq(1)] obtain j where job: "jobs s1 (slotKey e T) \<noteq> None" and
    c: "crons s1 = (crons sa)(ckey e0 \<mapsto> savedStatus (dispatchedStatus txts clk e j T))"
    by (auto simp: noRequeue_def)
  let ?e = "savedStatus (dispatchedStatus txts clk e j T)"
  have e1: "crons s1 (ns, n) = Some ?e" using c key by simp
  note ds = dispatched_schedule [OF sy, where txts = txts and clk = clk and j = j and t = T]
  have sv: "serves cronParse clk' ?e U \<longleftrightarrow> U = Next T" for U
    using nextScheduleTime_in_time [of "eStartingDeadlineSeconds e0" "clkNow clk'" Next T] assms(5,6,9)
    by (auto simp: serves_def ds)
  then have served: "serves cronParse clk' ?e (Next T)" by simp
  have "V \<le> clkNow clk' \<and> eNextCronWindow e' = Some (Next T)"
    if "crons s2 (ns, n) = Some e'" "eNextScheduledTime e' = Some T'" "V = Next T" for e' T' V
  proof -
    from planned_by_plan [OF assms(8,2) e1 ds(4) that(1,2)] obtain W p ea sb where
      "serves cronParse clk' ?e W" "plans C rnd clk' ea sb W p" "eNextCronWindow e' = Some (wholeSeconds W)" by blast
    then show ?thesis using sv that(3) assms(7) by (auto simp: plans_def firesAt_def)
  qed
  then show ?thesis
    using job eq(6) e1 ds(3,4) sv assms(5) early_run_waits [OF assms(8,2) e1 ds(4) served]
    by (auto simp: resumesAt_def)
qed

end

section \<open>Properties\<close>

text \<open>
  C34: \<open>nextScheduleTime\<close> equals a direct search: without a deadline the first occurrence after the
  last run, with one the first of the next 101 occurrences that is not older than the deadline, and
  the error when all of them are. So the loop makes at most 100 advances.
\<close>

theorem nextScheduleTime_equals_search:
  "nextScheduleTime Next lastRun now deadlineSeconds =
     (case deadlineSeconds of
        None \<Rightarrow> Inr (Next lastRun)
      | Some secs \<Rightarrow> firstIterate Next (scheduleDeadline now secs) lastRun [1..<102])"
proof -
  have "map Suc [0..<Suc 100] = [1..<102]" by (simp only: map_Suc_upt) simp
  then show ?thesis
    using firstIterate_Suc [of Next _ lastRun "[0..<Suc 100]"]
    by (simp add: nextScheduleTime_def skipMissed_firstIterate del: upt_Suc upt_rec_numeral split: option.split)
qed

text \<open>
  The occurrence \<open>nextScheduleTime\<close> returns is a real one after the last run and not older than
  the deadline, and every earlier occurrence after the last run is older than the deadline: none
  that may still start is passed over.
\<close>

theorem nextScheduleTime_first_startable:
  assumes "firesAt Occ Next" "nextScheduleTime Next lastRun now deadlineSeconds = Inr W"
  shows "Occ W \<and> lastRun < W \<and> (\<forall>secs. deadlineSeconds = Some secs \<longrightarrow> scheduleDeadline now secs \<le> W) \<and>
    (\<forall>u. Occ u \<and> lastRun < u \<and> u < W \<longrightarrow> (\<exists>secs. deadlineSeconds = Some secs \<and> u < scheduleDeadline now secs))"
  by (rule nextScheduleTime_first [OF assms])

text \<open>The schedule of the example: every six hours on the hour.\<close>

definition everySix :: "time \<Rightarrow> time" where
  "everySix t = (t div (6 * hour) + 1) * (6 * hour)"

lemma firesAt_everySix: "firesAt (\<lambda>u. u mod (6 * hour) = 0) everySix"
proof -
  have h: "6 * hour = 21600000000000" by (simp add: go_defs)
  have "t < everySix t" "everySix t mod (6 * hour) = 0" for t
    unfolding everySix_def h by simp_all
  moreover have "u mod (6 * hour) \<noteq> 0" if "t < u" "u < everySix t" for t u
  proof
    assume "u mod (6 * hour) = 0"
    then have u: "u = (u div (6 * hour)) * (6 * hour)" using div_mult_mod_eq [of u "6 * hour"] by simp
    have pos: "0 < 6 * hour" by (simp add: h)
    have "(u div (6 * hour)) * (6 * hour) < (t div (6 * hour) + 1) * (6 * hour)" using that(2) u by (simp add: everySix_def)
    then have "u div (6 * hour) \<le> t div (6 * hour)" using pos by simp
    then have "u \<le> (t div (6 * hour)) * (6 * hour)" using u pos by (metis mult_right_mono order_less_imp_le)
    also have "\<dots> \<le> t" using div_mult_mod_eq [of t "6 * hour"] pos_mod_sign [OF pos, of t] by linarith
    finally show False using that(1) by simp
  qed
  moreover have "wholeSeconds u = u" if "u mod (6 * hour) = 0" for u
  proof -
    have "6 * hour = second * 21600" by (simp add: go_defs)
    then have "second dvd u" using that by (metis dvd_trans dvd_triv_left mod_eq_0_iff_dvd)
    then show ?thesis by (auto simp: wholeSeconds_def Unix_def)
  qed
  ultimately show ?thesis unfolding firesAt_def by metis
qed

theorem nextScheduleTime_first_startable_witness:
  "(18 * hour) mod (6 * hour) = 0 \<and> 0 < 18 * hour \<and> scheduleDeadline (19 * hour) 7200 \<le> 18 * hour"
proof -
  have run: "nextScheduleTime everySix 0 (19 * hour) (Some 7200) = Inr (18 * hour)" by code_simp
  from nextScheduleTime_first_startable [OF firesAt_everySix run] show ?thesis by simp
qed

text \<open>
  C31: Admission and scheduling together. When the webhook accepted the spec and the occurrence \<open>W\<close> whose
  window opened is one the webhook sampled, the slot \<open>T\<close> the controller plans lies before the following
  occurrence. A later run that dispatches this plan (with the same schedule) leaves the Job of the slot and \<open>T\<close>
  as the last schedule time, and the run after it works for exactly the following occurrence: before that time
  it creates no Job and plans nothing, and what it plans then is for that window. So no occurrence is skipped and
  none is served twice, provided that, when \<open>startingDeadlineSeconds\<close> is set, the following occurrence is not
  older than the deadline at that run.
\<close>

theorem planned_slot_skips_no_occurrence:
  assumes "job_api C jobs crons" "sortsJobs sortJobs"
    and "reconcileEACJ C txts rnd cronParse sortJobs clk ns n s = ((r, f), s')"
    and "crons s (ns, n) = Some e" "eNextScheduledTime e = None"
    and "crons s' (ns, n) = Some e'" "eNextScheduledTime e' = Some T"
    and "0 < eEstimatedDuration e" "eEstimatedDuration e \<le> maxInt64"
    and "getPrices C ns (ePriceSource e) s = Inr prices" "sorted_wrt (<) (map At prices)"
    and "validateEnergyAwareCronJobSpec cronParse e = None"
    and "cronParse (scheduleString e) = Inr Next" "firesAt Occ Next"
    and "eNextCronWindow e' = Some ((Next ^^ k) intervalRef)" "1 \<le> k" "k \<le> 999"
  defines "W \<equiv> (Next ^^ k) intervalRef"
  shows "Occ W \<and> W \<le> T \<and> T < Next W \<and> Next T = Next W \<and>
    (\<forall>clk1 s1 e1 f1 s2 clk2 r2 f2 s3.
       crons s1 (ns, n) = Some e1 \<and> eNextScheduledTime e1 = Some T \<and> scheduleString e1 = scheduleString e \<and>
       reconcileEACJ C txts rnd cronParse sortJobs clk1 ns n s1 = ((noRequeue\<lparr>Requeue := True\<rparr>, f1), s2) \<and>
       reconcileEACJ C txts rnd cronParse sortJobs clk2 ns n s2 = ((r2, f2), s3) \<and>
       (\<forall>secs. eStartingDeadlineSeconds e1 = Some secs \<longrightarrow> scheduleDeadline (clkNow clk2) secs \<le> Next W) \<longrightarrow>
       jobs s2 (slotKey e1 T) \<noteq> None \<and> resumesAt jobs crons cronParse clk2 ns n T (Next W) s2 s3)"
proof -
  from planned_slot [OF assms(1-11)] obtain V t where
    V: "serves cronParse clk e V" "eNextCronWindow e' = Some (wholeSeconds V)" and T: "T = wholeSeconds t" and
    t: "V \<le> clkNow clk" "clkNow clk < t" "t + eEstimatedDuration e < V + eScheduleWindow e" by blast
  have "Occ V" using V(1) nextScheduleTime_first [OF assms(14)] assms(13) by (auto simp: serves_def)
  then have "wholeSeconds V = V" using assms(14) by (simp add: firesAt_def)
  then have W: "V = W" using V(2) assms(15) by (simp add: W_def)
  have "0 < eScheduleWindow e" using t assms(8) by linarith
  from accepted_gap [OF assms(12,13) this assms(16,17) meta_eq_to_obj_eq [OF W_def]] have "t < Next W" using t assms(8) W by linarith
  then have lt: "T < Next W" using wholeSeconds_le [of t] T by linarith
  have le: "W \<le> T" using wholeSeconds_mono [of W t] t T W \<open>wholeSeconds V = V\<close> by simp
  have same: "Next T = Next W" by (rule firesAt_next [OF assms(14) le lt])
  have "jobs s2 (slotKey e1 T) \<noteq> None \<and> resumesAt jobs crons cronParse clk2 ns n T (Next W) s2 s3"
    if "crons s1 (ns, n) = Some e1" "eNextScheduledTime e1 = Some T" "scheduleString e1 = scheduleString e"
      "reconcileEACJ C txts rnd cronParse sortJobs clk1 ns n s1 = ((noRequeue\<lparr>Requeue := True\<rparr>, f1), s2)"
      "reconcileEACJ C txts rnd cronParse sortJobs clk2 ns n s2 = ((r2, f2), s3)"
      "\<forall>secs. eStartingDeadlineSeconds e1 = Some secs \<longrightarrow> scheduleDeadline (clkNow clk2) secs \<le> Next W"
    for clk1 s1 e1 f1 s2 clk2 r2 f2 s3
    using job_api.dispatched_resumes [OF assms(1) that(4) assms(2) that(1,2) _ _ assms(14) that(5)] that(3,6) same T assms(13)
    by simp
  then show ?thesis using lt le same \<open>Occ V\<close> W by blast
qed

text \<open>The example at the first sampled occurrence, 2026-01-01 06:00.\<close>

definition sampledCron :: eacj where
  "sampledCron = demoCron\<lparr>eCreationTimestamp := intervalRef\<rparr>"

definition sampledStart :: cjMemState where
  "sampledStart = \<lparr>mJobs = [], mCrons = [((''ns'', ''report''), sampledCron)],
     mPrices = [((''ns'', ''prices''), map (\<lambda>p. p\<lparr>At := At p + intervalRef + 6 * hour\<rparr>) hourlyPrices)]\<rparr>"

definition sampledRun :: "(result \<times> cj_failure option) \<times> cjMemState" where
  "sampledRun = demoReconcile (intervalRef + 6 * hour + 10 * minute) sampledStart"

lemma sampledRun_eval:
  "case sampledRun of (res, s) \<Rightarrow> (case memCrons s (''ns'', ''report'') of None \<Rightarrow> False | Some e \<Rightarrow>
     eNextScheduledTime e = Some (intervalRef + 7 * hour) \<and> eNextCronWindow e = Some (intervalRef + 6 * hour) \<and>
     scheduleString e = scheduleString sampledCron \<and> eStartingDeadlineSeconds e = None \<and> mJobs s = [] \<and>
     eSuspend e = None \<and> eConcurrencyPolicy e = ForbidConcurrent \<and>
     eSuccessfulJobsHistoryLimit e = None \<and> eFailedJobsHistoryLimit e = None)"
  by code_simp

text \<open>The dispatch at 07:00, and a run in the next window, at 12:10.\<close>

definition sampledDispatch :: "(result \<times> cj_failure option) \<times> cjMemState" where
  "sampledDispatch = demoReconcile (intervalRef + 7 * hour) (snd sampledRun)"

definition sampledFollowing :: "(result \<times> cj_failure option) \<times> cjMemState" where
  "sampledFollowing = demoReconcile (intervalRef + 12 * hour + 10 * minute) (snd sampledDispatch)"

lemma demo_dispatches:
  assumes "mJobs s = []" "memCrons s (''ns'', ''report'') = Some e" "eNextScheduledTime e = Some t"
    and "eSuspend e = None" "eConcurrencyPolicy e = ForbidConcurrent"
    and "eSuccessfulJobsHistoryLimit e = None" "eFailedJobsHistoryLimit e = None"
  shows "fst (demoReconcile t s) = (noRequeue\<lparr>Requeue := True\<rparr>, None)"
  using assms
  by (simp add: demoReconcile_def reconcileEACJ_def memCjClient_def syncActiveJobs_def memListJobs_def map_filter_simps memJobs_def
      trimHistory_def dispatchJob_def atTime_def ForbidConcurrent_def ReplaceConcurrent_def Let_def)

lemma sampledDispatch_eval: "fst sampledDispatch = (noRequeue\<lparr>Requeue := True\<rparr>, None)"
proof -
  obtain res s e where "sampledRun = (res, s)" "mJobs s = []" "memCrons s (''ns'', ''report'') = Some e"
      "eNextScheduledTime e = Some (intervalRef + 7 * hour)" "eSuspend e = None" "eConcurrencyPolicy e = ForbidConcurrent"
      "eSuccessfulJobsHistoryLimit e = None" "eFailedJobsHistoryLimit e = None"
    using sampledRun_eval by (auto split: prod.splits option.splits)
  from demo_dispatches [OF this(2-)] show ?thesis unfolding sampledDispatch_def \<open>sampledRun = (res, s)\<close> snd_conv .
qed

lemma everySix_iterate: "(everySix ^^ k) (m * (6 * hour)) = (m + int k) * (6 * hour)"
proof (induction k)
  case (Suc k)
  have "everySix (j * (6 * hour)) = (j + 1) * (6 * hour)" for j by (simp add: everySix_def go_defs)
  from this [of "m + int k"] show ?case using Suc by simp
qed simp

lemma intervalRef_six: "intervalRef = 81816 * (6 * hour)"
  by (simp add: intervalRef_def goDate_def UTC_def daySeconds_def go_defs)

lemma sampledCron_accepted: "validateEnergyAwareCronJobSpec everySixHours sampledCron = None"
proof -
  have "everySixHours x = Inr everySix" for x by (simp add: everySixHours_def everySix_def fun_eq_iff)
  moreover have "4 * hour \<le> minimumCronInterval everySix"
    unfolding minimumCronInterval_le_iff intervalRef_six everySix_iterate by (simp add: algebra_simps go_defs)
  ultimately show ?thesis
    by (simp add: validateEnergyAwareCronJobSpec_def sampledCron_def demoCron_def Let_def not_less)
      (simp add: go_defs)
qed

theorem planned_slot_skips_no_occurrence_witness:
  "intervalRef + 6 * hour \<le> intervalRef + 7 * hour \<and> intervalRef + 7 * hour < everySix (intervalRef + 6 * hour) \<and>
   everySix (intervalRef + 7 * hour) = everySix (intervalRef + 6 * hour) \<and>
   resumesAt memJobs memCrons everySixHours (atTime (intervalRef + 12 * hour + 10 * minute)) ''ns'' ''report''
     (intervalRef + 7 * hour) (everySix (intervalRef + 6 * hour)) (snd sampledDispatch) (snd sampledFollowing)"
proof -
  let ?C = "memCjClient (\<lambda>_. None)"
  obtain res s' e' where run: "sampledRun = (res, s')" and e': "memCrons s' (''ns'', ''report'') = Some e'"
      "eNextScheduledTime e' = Some (intervalRef + 7 * hour)" "eNextCronWindow e' = Some (intervalRef + 6 * hour)"
      "scheduleString e' = scheduleString sampledCron" "eStartingDeadlineSeconds e' = None"
    using sampledRun_eval by (auto split: prod.splits option.splits)
  have W: "(everySix ^^ 1) intervalRef = intervalRef + 6 * hour"
    unfolding intervalRef_six everySix_iterate by simp
  have dispatch: "reconcileEACJ ?C demoTexts id everySixHours byStart (atTime (intervalRef + 7 * hour)) ''ns'' ''report'' s' =
      ((noRequeue\<lparr>Requeue := True\<rparr>, None), snd sampledDispatch)"
    using sampledDispatch_eval run by (simp add: sampledDispatch_def demoReconcile_def prod_eq_iff)
  have following: "reconcileEACJ ?C demoTexts id everySixHours byStart (atTime (intervalRef + 12 * hour + 10 * minute)) ''ns'' ''report''
      (snd sampledDispatch) = ((fst (fst sampledFollowing), snd (fst sampledFollowing)), snd sampledFollowing)"
    by (simp add: sampledFollowing_def demoReconcile_def)
  have planning: "reconcileEACJ ?C demoTexts id everySixHours byStart (atTime (intervalRef + 6 * hour + 10 * minute))
      ''ns'' ''report'' sampledStart = ((fst res, snd res), s')"
    using run by (simp add: sampledRun_def demoReconcile_def)
  have stored: "memCrons sampledStart (''ns'', ''report'') = Some sampledCron"
    by (simp add: memCrons_def sampledStart_def nameCron_def sampledCron_def demoCron_def)
  have e: "eNextScheduledTime sampledCron = None" "0 < eEstimatedDuration sampledCron" "eEstimatedDuration sampledCron \<le> maxInt64"
    by (simp_all add: sampledCron_def demoCron_def go_defs)
  have prices: "getPrices ?C ''ns'' (ePriceSource sampledCron) sampledStart
        = Inr (map (\<lambda>p. p\<lparr>At := At p + intervalRef + 6 * hour\<rparr>) hourlyPrices)"
    by (simp add: memCjClient_def sampledCron_def demoCron_def sampledStart_def)
  have inc: "sorted_wrt (<) (map At (map (\<lambda>p. p\<lparr>At := At p + intervalRef + 6 * hour\<rparr>) hourlyPrices))"
    by (simp add: hourlyPrices_def go_defs)
  have parse: "everySixHours (scheduleString sampledCron) = Inr everySix" by (simp add: everySixHours_def everySix_def fun_eq_iff)
  have window: "eNextCronWindow e' = Some ((everySix ^^ 1) intervalRef)" unfolding W by (rule e')
  note fact = planned_slot_skips_no_occurrence [where k = 1, OF memCj.job_api_axioms sortsJobs_byStart planning stored e(1) e'(1,2) e(2,3)
      prices inc sampledCron_accepted parse firesAt_everySix window order_refl]
  from fact have slot: "(everySix ^^ 1) intervalRef \<le> intervalRef + 7 * hour"
      "intervalRef + 7 * hour < everySix ((everySix ^^ 1) intervalRef)"
      "everySix (intervalRef + 7 * hour) = everySix ((everySix ^^ 1) intervalRef)" by simp_all
  from fact have "resumesAt memJobs memCrons everySixHours (atTime (intervalRef + 12 * hour + 10 * minute)) ''ns'' ''report''
     (intervalRef + 7 * hour) (everySix ((everySix ^^ 1) intervalRef)) (snd sampledDispatch) (snd sampledFollowing)"
    using e' dispatch following by (metis option.distinct(1) one_le_numeral)
  then show ?thesis using slot unfolding W by blast
qed

end
