(* ===== verification/Http_Client.thy ===== *)
theory Http_Client
  imports Go_Strings "HOL-Library.Multiset"
begin

text \<open>
  \<open>internal/providers/http_client.go\<close>: the URL a request span records, with secrets redacted, and the
  bounded reading of a response body; with the parts of \<open>net/url\<close> they use (\<open>QueryEscape\<close>,
  \<open>QueryUnescape\<close>, \<open>ParseQuery\<close>, \<open>Values.Set\<close>, \<open>Values.Encode\<close>, \<open>URL.String\<close>). A string is its bytes.
  A \<open>url.Values\<close> is a list of keys with their values, one entry for each key.
\<close>

section \<open>Query strings\<close>

definition unreserved :: "char \<Rightarrow> bool" where
  "unreserved c \<longleftrightarrow> (let n = (of_char c :: nat) in
     (97 \<le> n \<and> n \<le> 122) \<or> (65 \<le> n \<and> n \<le> 90) \<or> (48 \<le> n \<and> n \<le> 57) \<or> c \<in> set ''-_.~'')"

definition upperHex :: "nat \<Rightarrow> char" where
  "upperHex n = (if n < 10 then char_of (48 + n) else char_of (55 + n))"

definition hexValue :: "char \<Rightarrow> nat option" where
  "hexValue c = (let n = of_char c in
     if 48 \<le> n \<and> n \<le> 57 then Some (n - 48) else if 97 \<le> n \<and> n \<le> 102 then Some (n - 87)
     else if 65 \<le> n \<and> n \<le> 70 then Some (n - 55) else None)"

definition escapeChar :: "char \<Rightarrow> string" where
  "escapeChar c =
     (if c = CHR '' '' then ''+'' else if unreserved c then [c]
      else [CHR ''%'', upperHex (of_char c div 16), upperHex (of_char c mod 16)])"

definition QueryEscape :: "string \<Rightarrow> string" where
  "QueryEscape s = concat (map escapeChar s)"

fun QueryUnescape :: "string \<Rightarrow> string option" where
  "QueryUnescape [] = Some []"
| "QueryUnescape (c # s) =
     (if c = CHR ''%'' then
        (case s of
           a # b # s' \<Rightarrow>
             (case (hexValue a, hexValue b) of
                (Some x, Some y) \<Rightarrow> map_option (Cons (char_of (16 * x + y))) (QueryUnescape s')
              | _ \<Rightarrow> None)
         | _ \<Rightarrow> None)
      else map_option (Cons (if c = CHR ''+'' then CHR '' '' else c)) (QueryUnescape s))"

fun splitOn :: "char \<Rightarrow> string \<Rightarrow> string list" where
  "splitOn c [] = [[]]"
| "splitOn c (x # xs) =
     (if x = c then [] # splitOn c xs
      else case splitOn c xs of [] \<Rightarrow> [[x]] | y # ys \<Rightarrow> (x # y) # ys)"

definition cutAt :: "char \<Rightarrow> string \<Rightarrow> string \<times> string" where
  "cutAt c s = (takeWhile (\<lambda>x. x \<noteq> c) s, drop 1 (dropWhile (\<lambda>x. x \<noteq> c) s))"

type_synonym query = "(string \<times> string list) list"

fun addValue :: "string \<Rightarrow> string \<Rightarrow> query \<Rightarrow> query" where
  "addValue k v [] = [(k, [v])]"
| "addValue k v ((k', vs) # q) = (if k' = k then (k', vs @ [v]) # q else (k', vs) # addValue k v q)"

fun setValue :: "string \<Rightarrow> string \<Rightarrow> query \<Rightarrow> query" where
  "setValue k v [] = [(k, [v])]"
| "setValue k v ((k', vs) # q) = (if k' = k then (k', [v]) # q else (k', vs) # setValue k v q)"

text \<open>A pair with a semicolon or a bad escape is dropped; \<open>URL.Query\<close> ignores the error.\<close>

definition parsePair :: "query \<Rightarrow> string \<Rightarrow> query" where
  "parsePair q seg =
     (if CHR '';'' \<in> set seg \<or> seg = [] then q
      else let (k, v) = cutAt (CHR ''='') seg in
        case QueryUnescape k of
          None \<Rightarrow> q
        | Some k' \<Rightarrow> (case QueryUnescape v of None \<Rightarrow> q | Some v' \<Rightarrow> addValue k' v' q))"

definition ParseQuery :: "string \<Rightarrow> query" where
  "ParseQuery s = foldl parsePair [] (splitOn (CHR ''&'') s)"

definition encodePair :: "string \<times> string \<Rightarrow> string" where
  "encodePair kv = QueryEscape (fst kv) @ ''='' @ QueryEscape (snd kv)"

fun joinWith :: "char \<Rightarrow> string list \<Rightarrow> string" where
  "joinWith c [] = []"
| "joinWith c [x] = x"
| "joinWith c (x # y # ys) = x @ c # joinWith c (y # ys)"

definition Encode :: "query \<Rightarrow> string" where
  "Encode q = joinWith (CHR ''&'') (map encodePair (concat (map (\<lambda>(k, vs). map (Pair k) vs) (sort_key fst q))))"

section \<open>URLs\<close>

text \<open>A parsed URL: what precedes the query as text, the raw query, and the fragment.\<close>

record url =
  uPrefix :: string
  uForceQuery :: bool
  uRawQuery :: string
  uFragment :: string

definition parseURL :: "string \<Rightarrow> url" where
  "parseURL s =
     (let (rest, frag) = cutAt (CHR ''#'') s; (pre, q) = cutAt (CHR ''?'') rest
      in \<lparr>uPrefix = pre, uForceQuery = (q = [] \<and> CHR ''?'' \<in> set rest), uRawQuery = q, uFragment = frag\<rparr>)"

definition urlString :: "url \<Rightarrow> string" where
  "urlString u = uPrefix u @ (if uForceQuery u \<or> uRawQuery u \<noteq> [] then CHR ''?'' # uRawQuery u else [])
     @ (if uFragment u \<noteq> [] then CHR ''#'' # uFragment u else [])"

definition urlQuery :: "url \<Rightarrow> query" where
  "urlQuery u = ParseQuery (uRawQuery u)"

text \<open>\<open>URL.Scheme\<close> and \<open>URL.Hostname\<close>: the host without user information, brackets and port.\<close>

definition urlScheme :: "url \<Rightarrow> string" where
  "urlScheme u = fst (cutAt (CHR '':'') (uPrefix u))"

definition urlAuthority :: "url \<Rightarrow> string" where
  "urlAuthority u = takeWhile (\<lambda>c. c \<noteq> CHR ''/'') (drop 2 (snd (cutAt (CHR '':'') (uPrefix u))))"

definition urlHostname :: "url \<Rightarrow> string" where
  "urlHostname u =
     (let host = rev (takeWhile (\<lambda>c. c \<noteq> CHR ''@'') (rev (urlAuthority u)))
      in if host \<noteq> [] \<and> hd host = CHR ''['' then takeWhile (\<lambda>c. c \<noteq> CHR '']'') (tl host)
         else takeWhile (\<lambda>c. c \<noteq> CHR '':'') host)"

section \<open>http_client.go\<close>

definition redactedValue :: string where "redactedValue = ''REDACTED''"

text \<open>The loop over the keys; each \<open>Set\<close> touches its own key, so the order does not matter.\<close>

definition redactQuery :: "string list \<Rightarrow> query \<Rightarrow> query" where
  "redactQuery redactKeys q = map (\<lambda>(k, vs). if k \<in> set redactKeys then (k, [redactedValue]) else (k, vs)) q"

definition redactedURL :: "url option \<Rightarrow> string list \<Rightarrow> string" where
  "redactedURL u redactKeys =
     (case u of
        None \<Rightarrow> ''''
      | Some u \<Rightarrow> urlString (u\<lparr>uRawQuery := Encode (redactQuery redactKeys (urlQuery u))\<rparr>))"

datatype spanCode = CodeUnset | CodeError

definition statusCode :: "int \<Rightarrow> spanCode" where
  "statusCode code = (if code \<ge> 400 then CodeError else CodeUnset)"

text \<open>
  A response body: the bytes it delivers, and the error that ends it, if it does not end with EOF.
  \<open>io.LimitReader\<close> stops after its limit, before it could see a later error.
\<close>

type_synonym reader = "string \<times> string option"

definition readAllLimited :: "reader \<Rightarrow> int \<Rightarrow> string + string" where
  "readAllLimited r n =
     (if n \<le> int (length (fst r)) then Inr (take (nat n) (fst r))
      else case snd r of Some e \<Rightarrow> Inl e | None \<Rightarrow> Inr (fst r))"

datatype body_error = ReadError string | BodyExceeds int

definition ReadLimitedBody :: "reader \<Rightarrow> int \<Rightarrow> body_error + string" where
  "ReadLimitedBody r maxBytes =
     (case readAllLimited r (maxBytes + 1) of
        Inl e \<Rightarrow> Inl (ReadError e)
      | Inr body \<Rightarrow> if int (length body) > maxBytes then Inl (BodyExceeds maxBytes) else Inr body)"

section \<open>Lemmas\<close>

lemma hexValue_upperHex: "n < 16 \<Longrightarrow> hexValue (upperHex n) = Some n"
  by (auto simp: hexValue_def upperHex_def Let_def)

lemma char_nibbles: "(of_char c :: nat) div 16 < 16" "(of_char c :: nat) mod 16 < 16"
  using nat_of_char_less_256 [of c] by (simp_all add: div_less_iff_less_mult)

lemma unescape_escapeChar: "QueryUnescape (escapeChar c @ s) = map_option (Cons c) (QueryUnescape s)"
proof -
  have h: "hexValue (upperHex (of_char c div 16)) = Some (of_char c div 16)"
    "hexValue (upperHex (of_char c mod 16)) = Some (of_char c mod 16)" by (simp_all add: hexValue_upperHex char_nibbles)
  have "c \<noteq> CHR ''%'' \<and> c \<noteq> CHR ''+''" if "unreserved c" using that by (auto simp: unreserved_def)
  then show ?thesis by (auto simp: escapeChar_def h)
qed

lemma QueryUnescape_QueryEscape: "QueryUnescape (QueryEscape s) = Some s"
  by (induction s) (simp_all add: QueryEscape_def unescape_escapeChar)

lemma QueryEscape_chars:
  assumes "c \<in> set (QueryEscape s)"
  shows "c \<noteq> CHR ''&'' \<and> c \<noteq> CHR ''='' \<and> c \<noteq> CHR '';''"
proof -
  have hex: "upperHex n \<noteq> CHR ''&'' \<and> upperHex n \<noteq> CHR ''='' \<and> upperHex n \<noteq> CHR '';''" if "n < 16" for n
  proof -
    have "\<forall>n \<in> set [0..<16]. upperHex n \<noteq> CHR ''&'' \<and> upperHex n \<noteq> CHR ''='' \<and> upperHex n \<noteq> CHR '';''" by code_simp
    then show ?thesis using that by simp
  qed
  from assms obtain d where "c \<in> set (escapeChar d)" by (auto simp: QueryEscape_def)
  then show ?thesis
    using hex char_nibbles [of d] by (auto simp: escapeChar_def unreserved_def split: if_splits)
qed

lemma splitOn_not_Nil [simp]: "splitOn c s \<noteq> []"
  by (cases s) (auto split: list.splits)

lemma splitOn_plain: "c \<notin> set x \<Longrightarrow> splitOn c x = [x]"
  by (induction x) auto

lemma splitOn_append: "c \<notin> set x \<Longrightarrow> splitOn c (x @ c # s) = x # splitOn c s"
  by (induction x) auto

lemma splitOn_joinWith: "xs \<noteq> [] \<Longrightarrow> (\<And>x. x \<in> set xs \<Longrightarrow> c \<notin> set x) \<Longrightarrow> splitOn c (joinWith c xs) = xs"
  by (induction c xs rule: joinWith.induct) (auto simp: splitOn_plain splitOn_append)

lemma encodePair_plain: "CHR ''&'' \<notin> set (encodePair kv)" "CHR '';'' \<notin> set (encodePair kv)" "encodePair kv \<noteq> []"
  using QueryEscape_chars by (fastforce simp: encodePair_def)+

lemma cutAt_plain: "c \<notin> set x \<Longrightarrow> cutAt c (x @ c # y) = (x, y)"
  by (simp add: cutAt_def takeWhile_append2 dropWhile_append2)
    (induction x, auto)

lemma parsePair_encodePair': "parsePair q (encodePair (k, v)) = addValue k v q"
proof -
  have "CHR ''='' \<notin> set (QueryEscape k)" using QueryEscape_chars by blast
  then have "cutAt (CHR ''='') (encodePair (k, v)) = (QueryEscape k, QueryEscape v)"
    by (simp add: encodePair_def cutAt_plain)
  then show ?thesis
    using encodePair_plain [of "(k, v)"] by (simp add: parsePair_def QueryUnescape_QueryEscape)
qed

lemma parsePair_encodePair: "parsePair q (encodePair kv) = (case kv of (k, v) \<Rightarrow> addValue k v q)"
  by (cases kv) (simp add: parsePair_encodePair')

definition pairs :: "query \<Rightarrow> (string \<times> string) list" where
  "pairs q = concat (map (\<lambda>(k, vs). map (Pair k) vs) q)"

lemma addValue_new: "k \<notin> fst ` set q \<Longrightarrow> addValue k v q = q @ [(k, [v])]"
  by (induction q) auto

lemma addValue_last: "k \<notin> fst ` set q \<Longrightarrow> addValue k v (q @ [(k, vs)]) = q @ [(k, vs @ [v])]"
  by (induction q) auto

lemma foldl_addValue_key:
  "k \<notin> fst ` set q \<Longrightarrow> foldl (\<lambda>q (k, v). addValue k v q) (q @ [(k, us)]) (map (Pair k) vs) = q @ [(k, us @ vs)]"
  by (induction vs arbitrary: us) (auto simp: addValue_last)

lemma foldl_addValue_pairs:
  "distinct (map fst (p @ q)) \<Longrightarrow> (\<And>k vs. (k, vs) \<in> set q \<Longrightarrow> vs \<noteq> []) \<Longrightarrow>
     foldl (\<lambda>q (k, v). addValue k v q) p (pairs q) = p @ q"
proof (induction q arbitrary: p)
  case (Cons kv q)
  obtain k v vs where kv: "kv = (k, v # vs)" using Cons.prems(2) by (cases kv; cases "snd kv") auto
  have k: "k \<notin> fst ` set p" using Cons.prems(1) by (auto simp: kv)
  have "foldl (\<lambda>q (k, v). addValue k v q) p (pairs (kv # q)) =
      foldl (\<lambda>q (k, v). addValue k v q) (p @ [kv]) (pairs q)"
    using foldl_addValue_key [OF k, of "[v]" vs] by (simp add: pairs_def kv addValue_new [OF k])
  also have "\<dots> = (p @ [kv]) @ q" using Cons.prems by (intro Cons.IH) auto
  finally show ?case by simp
qed (simp add: pairs_def)

text \<open>What \<open>Encode\<close> writes, \<open>ParseQuery\<close> reads back, in the order of the keys.\<close>

lemma ParseQuery_Encode:
  assumes "distinct (map fst q)" "\<And>k vs. (k, vs) \<in> set q \<Longrightarrow> vs \<noteq> []"
  shows "ParseQuery (Encode q) = sort_key fst q"
proof (cases "q = []")
  case True
  then show ?thesis by (simp add: ParseQuery_def Encode_def parsePair_def)
next
  case False
  let ?ps = "pairs (sort_key fst q)"
  obtain k v vs where "(k, v # vs) \<in> set (sort_key fst q)"
    using False assms(2) by (metis list.exhaust list.set_intros(1) neq_Nil_conv set_sort surj_pair)
  then have "(k, v) \<in> set ?ps" by (force simp: pairs_def)
  then have "map encodePair ?ps \<noteq> []" by auto
  then have "splitOn (CHR ''&'') (Encode q) = map encodePair ?ps"
    unfolding Encode_def pairs_def [symmetric] by (rule splitOn_joinWith) (auto simp: encodePair_plain)
  then have "ParseQuery (Encode q) = foldl (\<lambda>q (k, v). addValue k v q) [] ?ps"
    by (simp add: ParseQuery_def foldl_map parsePair_encodePair)
  moreover have "distinct (map fst (sort_key fst q))"
    using assms(1) by (simp add: distinct_map)
  ultimately show ?thesis using foldl_addValue_pairs [of "[]" "sort_key fst q"] assms(2) by auto
qed

lemma map_insort_fst:
  assumes "\<And>x. fst (g x) = fst x"
  shows "map g (insort_key fst x xs) = insort_key fst (g x) (map g xs)"
  by (induction xs) (simp_all add: assms)

lemma map_sort_fst:
  assumes "\<And>x. fst (g x) = fst x"
  shows "map g (sort_key fst xs) = sort_key fst (map g xs)"
  by (induction xs) (simp_all add: map_insort_fst [OF assms])

lemma redactQuery_sort: "redactQuery ks (sort_key fst q) = sort_key fst (redactQuery ks q)"
  unfolding redactQuery_def by (rule map_sort_fst) (auto split: prod.splits)

lemma ReadLimitedBody_cases:
  "0 \<le> n \<Longrightarrow> ReadLimitedBody (body, err) n =
     (if n < int (length body) then Inl (BodyExceeds n) else case err of Some e \<Rightarrow> Inl (ReadError e) | None \<Rightarrow> Inr body)"
  by (auto simp: ReadLimitedBody_def readAllLimited_def split: option.splits)

end
