(* ===== verification/Providers.thy ===== *)
theory Providers
  imports Http_Client Pricing Go_Time
begin

text \<open>
  The price providers, \<open>internal/providers\<close>: the registry, and the plugins \<open>customProvider\<close>,
  \<open>entsoe\<close>, \<open>enever\<close> and \<open>energyzero\<close>.

  The record \<open>web\<close> holds what lies outside: the network, and the decoders and formatters of the
  standard library (JSON, XML, RFC 3339, decimal floats, layouts). Nothing is assumed about them, so
  what is proved holds for every response and every decoding of it. \<open>sortFunc\<close> and
  \<open>sortSlice\<close> are \<open>slices.SortFunc\<close> and \<open>sort.Slice\<close>, which leave the order of equal keys open. Of tracing only the span of the
  redacting HTTP client is modelled.
\<close>

section \<open>Data\<close>

text \<open>A \<open>float64\<close> as the parsers give it.\<close>

datatype gofloat = Finite rat | NaN | Inf bool

definition isFinite :: "gofloat \<Rightarrow> bool" where
  "isFinite x = (case x of Finite _ \<Rightarrow> True | _ \<Rightarrow> False)"

record fpoint =
  fAt :: time
  fPrice :: gofloat

record secretRef =
  skName :: string
  skKey :: string

record customProviderConfig =
  ccURL :: string
  ccSecretRef :: "secretRef option"

record entsoeConfig =
  ecSecretRef :: secretRef
  ecAreaCode :: string

record eneverConfig =
  nvSecretRef :: secretRef
  nvSupplier :: string

record epsSpec =
  spProvider :: string
  spBiddingZone :: string
  spRefreshSchedule :: string
  spCacheTTL :: duration
  spCustom :: "customProviderConfig option"
  spEntsoe :: "entsoeConfig option"
  spEnever :: "eneverConfig option"

text \<open>
  Errors: \<open>fmt.Errorf\<close> with a text, with a wrapped error, and the \<open>*url.Error\<close> of \<open>net/url\<close> and
  \<open>net/http\<close>, whose text quotes the URL.
\<close>

datatype perr =
    Msg string
  | Wrap string perr
  | UrlError string string string

fun perrText :: "perr \<Rightarrow> string" where
  "perrText (Msg s) = s"
| "perrText (Wrap s e) = s @ '': '' @ perrText e"
| "perrText (UrlError op u cause) = op @ '' '' @ Quote u @ '': '' @ cause"

record request =
  rqURL :: url
  rqAuthorization :: "string option"
  rqAccept :: "string option"

record response =
  rsStatus :: int
  rsBody :: reader

record entsoePoint =
  ptPosition :: int
  ptPriceAmount :: gofloat

record entsoePeriod =
  prStart :: string
  prResolution :: string
  prPoints :: "entsoePoint list"

type_synonym timeSeries = "entsoePeriod list"

record web =
  badURL :: "string \<Rightarrow> string option"
  send :: "request \<Rightarrow> string + response"
  formatTime :: "string \<Rightarrow> time \<Rightarrow> string"
  parseRFC3339 :: "string \<Rightarrow> string + time"
  parseMinuteZ :: "string \<Rightarrow> string + time"
  parseFloat :: "string \<Rightarrow> string + gofloat"
  round64 :: "rat \<Rightarrow> gofloat"
  jsonIntervals :: "string \<Rightarrow> string + (string \<times> gofloat) list"
  jsonEnever :: "string \<Rightarrow> string + (string \<times> (string \<rightharpoonup> string) list \<times> string)"
  jsonEnergyZero :: "string \<Rightarrow> string + (string \<times> (string \<times> string) list)"
  xmlAcknowledgement :: "string \<Rightarrow> string + (string \<times> string)"
  xmlPublication :: "string \<Rightarrow> string + timeSeries list"
  sortFunc :: "(fpoint \<Rightarrow> fpoint \<Rightarrow> int) \<Rightarrow> fpoint list \<Rightarrow> fpoint list"
  sortSlice :: "(fpoint \<Rightarrow> fpoint \<Rightarrow> bool) \<Rightarrow> fpoint list \<Rightarrow> fpoint list"

type_synonym provider = "string \<Rightarrow> time \<Rightarrow> perr + fpoint list"
type_synonym factory = "epsSpec \<Rightarrow> string \<Rightarrow> perr + provider"

section \<open>Registry\<close>

type_synonym registry = "string \<rightharpoonup> factory"

definition NewRegistry :: registry where "NewRegistry = Map.empty"

definition Register :: "registry \<Rightarrow> string \<Rightarrow> factory \<Rightarrow> registry" where
  "Register r name f = r(name \<mapsto> f)"

definition registryGet :: "registry \<Rightarrow> string \<Rightarrow> epsSpec \<Rightarrow> string \<Rightarrow> perr + provider" where
  "registryGet r name spec token =
     (case r name of
        None \<Rightarrow> Inl (Msg (''unknown energy provider '' @ Quote name @ '': register it before use''))
      | Some f \<Rightarrow>
          (case f spec token of
             Inl e \<Rightarrow> Inl (Wrap (''initialising provider '' @ Quote name) e)
           | Inr p \<Rightarrow> Inr p))"

section \<open>HTTP\<close>

text \<open>\<open>http.NewRequestWithContext\<close> and \<open>Client.Do\<close>: both failures carry the URL.\<close>

definition newRequest :: "web \<Rightarrow> string \<Rightarrow> perr + request" where
  "newRequest W u =
     (case badURL W u of
        Some e \<Rightarrow> Inl (UrlError ''parse'' u e)
      | None \<Rightarrow> Inr \<lparr>rqURL = parseURL u, rqAuthorization = None, rqAccept = None\<rparr>)"

definition httpDo :: "web \<Rightarrow> request \<Rightarrow> perr + response" where
  "httpDo W rq =
     (case send W rq of
        Inl cause \<Rightarrow> Inl (UrlError ''Get'' (urlString (rqURL rq)) cause)
      | Inr resp \<Rightarrow> Inr resp)"

text \<open>
  \<open>redactingTransport\<close>: the request attributes of its span and \<open>RoundTrip\<close>. \<open>inject\<close> adds the trace context
  headers to the cloned request; a nil \<open>base\<close> stands for the default transport.
\<close>

record span =
  spName :: string
  spAttributes :: "(string \<times> string) list"
  spError :: "string option"
  spCode :: spanCode

definition requestAttributes :: "string list \<Rightarrow> request \<Rightarrow> (string \<times> string) list" where
  "requestAttributes redactQueryKeys rq =
     [(''http.request.method'', ''GET''),
      (''server.address'', urlHostname (rqURL rq)),
      (''url.scheme'', urlScheme (rqURL rq)),
      (''url.full'', redactedURL (Some (rqURL rq)) redactQueryKeys)]"

definition RoundTrip ::
  "string list \<Rightarrow> (request \<Rightarrow> string + response) option \<Rightarrow> (request \<Rightarrow> string + response) \<Rightarrow> (request \<Rightarrow> request) \<Rightarrow>
     request \<Rightarrow> (string + response) \<times> span" where
  "RoundTrip redactQueryKeys base defaultTransport inject rq =
     (let transport = (case base of Some b \<Rightarrow> b | None \<Rightarrow> defaultTransport);
          sp = \<lparr>spName = ''HTTP GET'', spAttributes = requestAttributes redactQueryKeys rq, spError = None, spCode = CodeUnset\<rparr>
      in case transport (inject rq) of
           Inl e \<Rightarrow> (Inl e, sp\<lparr>spError := Some e, spCode := CodeError\<rparr>)
         | Inr resp \<Rightarrow>
             (Inr resp, sp\<lparr>spAttributes := spAttributes sp @ [(''http.response.status_code'', Itoa (rsStatus resp))],
                           spCode := statusCode (rsStatus resp)\<rparr>))"

text \<open>
  \<open>http.Client\<close>: its transport, the redacting one over the default transport or that of \<open>otelhttp\<close>, and its timeout. \<open>slices.Clone\<close>
  of the keys is the value.
\<close>

datatype roundTripper = Redacting "string list" | Otelhttp

record httpClient =
  hcTransport :: roundTripper
  hcTimeout :: duration

definition NewRedactedHTTPClient :: "duration \<Rightarrow> string list \<Rightarrow> httpClient" where
  "NewRedactedHTTPClient timeout redactQueryKeys = \<lparr>hcTransport = Redacting redactQueryKeys, hcTimeout = timeout\<rparr>"

definition requestTimeout :: duration where "requestTimeout = 30 * second"

fun bodyErr :: "body_error \<Rightarrow> perr" where
  "bodyErr (ReadError e) = Msg e"
| "bodyErr (BodyExceeds n) = Msg (''response body exceeds '' @ Itoa n @ '' bytes'')"

definition StatusOK :: int where "StatusOK = 200"

definition times1000 :: "web \<Rightarrow> gofloat \<Rightarrow> gofloat" where
  "times1000 W x = (case x of Finite q \<Rightarrow> round64 W (q * 1000) | _ \<Rightarrow> x)"

section \<open>customProvider\<close>

definition customProviderName :: string where "customProviderName = ''customProvider''"
definition customMaxBodyBytes :: int where "customMaxBodyBytes = 1048576"

fun convertIntervalsLoop :: "web \<Rightarrow> nat \<Rightarrow> (string \<times> gofloat) list \<Rightarrow> perr + fpoint list" where
  "convertIntervalsLoop W i [] = Inr []"
| "convertIntervalsLoop W i ((st, eur) # rs) =
     (case parseRFC3339 W st of
        Inl e \<Rightarrow> Inl (Wrap (''interval '' @ Itoa (int i) @ '': parsing start '' @ Quote st) (Msg e))
      | Inr t \<Rightarrow>
          (case convertIntervalsLoop W (Suc i) rs of
             Inl e \<Rightarrow> Inl e
           | Inr ps \<Rightarrow> Inr (\<lparr>fAt = t, fPrice = eur\<rparr> # ps)))"

definition comparePoints :: "fpoint \<Rightarrow> fpoint \<Rightarrow> int" where
  "comparePoints a b = (if fAt a < fAt b then -1 else if fAt b < fAt a then 1 else 0)"

definition sortPricePointsByStartTime :: "web \<Rightarrow> fpoint list \<Rightarrow> fpoint list" where
  "sortPricePointsByStartTime W intervals = sortFunc W comparePoints intervals"

definition convertIntervals :: "web \<Rightarrow> (string \<times> gofloat) list \<Rightarrow> perr + fpoint list" where
  "convertIntervals W raw =
     (case convertIntervalsLoop W 0 raw of Inl e \<Rightarrow> Inl e | Inr ps \<Rightarrow> Inr (sortPricePointsByStartTime W ps))"

definition customRequest :: "web \<Rightarrow> string \<Rightarrow> string \<Rightarrow> string \<Rightarrow> time \<Rightarrow> perr + request" where
  "customRequest W u bearerToken biddingZone date =
     (case newRequest W u of
        Inl e \<Rightarrow> Inl (Wrap (''building request for '' @ Quote u) e)
      | Inr rq \<Rightarrow>
          Inr (rq\<lparr>rqURL := (rqURL rq)\<lparr>uRawQuery :=
                    Encode (setValue ''date'' (formatTime W ''2006-01-02'' date)
                      (setValue ''biddingZone'' biddingZone (urlQuery (rqURL rq))))\<rparr>,
                 rqAuthorization := (if bearerToken \<noteq> '''' then Some (''Bearer '' @ bearerToken) else None)\<rparr>))"

definition customFetchPrices :: "web \<Rightarrow> string \<Rightarrow> string \<Rightarrow> provider" where
  "customFetchPrices W u bearerToken biddingZone date =
     (case customRequest W u bearerToken biddingZone date of
        Inl e \<Rightarrow> Inl e
      | Inr rq \<Rightarrow>
          (case httpDo W rq of
             Inl e \<Rightarrow> Inl (Wrap (''fetching prices from '' @ Quote u) e)
           | Inr resp \<Rightarrow>
               if rsStatus resp \<noteq> StatusOK
               then Inl (Msg (''provider returned HTTP '' @ Itoa (rsStatus resp) @ '' for '' @ Quote u))
               else case ReadLimitedBody (rsBody resp) customMaxBodyBytes of
                   Inl e \<Rightarrow> Inl (Wrap (''reading response body from '' @ Quote u) (bodyErr e))
                 | Inr body \<Rightarrow>
                     (case jsonIntervals W body of
                        Inl e \<Rightarrow> Inl (Wrap (''parsing price response from '' @ Quote u) (Msg e))
                      | Inr raw \<Rightarrow>
                          (case convertIntervals W raw of
                             Inl e \<Rightarrow> Inl (Wrap (''converting price intervals from '' @ Quote u) e)
                           | Inr ps \<Rightarrow> Inr ps))))"

record customProvider =
  cpURL :: string
  cpBearerToken :: string
  cpClient :: httpClient

definition customNew :: "string \<Rightarrow> string \<Rightarrow> customProvider" where
  "customNew u bearerToken = \<lparr>cpURL = u, cpBearerToken = bearerToken,
     cpClient = \<lparr>hcTransport = Otelhttp, hcTimeout = requestTimeout\<rparr>\<rparr>"

definition customFactory :: "web \<Rightarrow> factory" where
  "customFactory W spec token =
     (case spCustom spec of
        None \<Rightarrow> Inl (Msg (''customProviderConfig is required for provider '' @ Quote customProviderName))
      | Some cfg \<Rightarrow>
          if ccURL cfg = '''' then Inl (Msg ''customProviderConfig.url must not be empty'')
          else let p = customNew (ccURL cfg) token in Inr (customFetchPrices W (cpURL p) (cpBearerToken p)))"

section \<open>energyzero\<close>

definition energyzeroProviderName :: string where "energyzeroProviderName = ''energyzero''"
definition energyzeroBaseURL :: string where
  "energyzeroBaseURL = ''https://public.api.energyzero.nl/public/v1/prices''"
definition largeMaxBodyBytes :: int where "largeMaxBodyBytes = 4194304"

fun energyzeroLoop :: "web \<Rightarrow> nat \<Rightarrow> (string \<times> string) list \<Rightarrow> perr + fpoint list" where
  "energyzeroLoop W i [] = Inr []"
| "energyzeroLoop W i ((st, price) # rs) =
     (case parseRFC3339 W st of
        Inl e \<Rightarrow> Inl (Wrap (''base item '' @ Itoa (int i) @ '': parsing start '' @ Quote st) (Msg e))
      | Inr t \<Rightarrow>
          (case parseFloat W price of
             Inl e \<Rightarrow> Inl (Wrap (''base item '' @ Itoa (int i) @ '': parsing price '' @ Quote price) (Msg e))
           | Inr eurPerKWh \<Rightarrow>
               if \<not> isFinite eurPerKWh
               then Inl (Msg (''base item '' @ Itoa (int i) @ '': parsing price '' @ Quote price @ '': not a finite decimal''))
               else (case energyzeroLoop W (Suc i) rs of
                       Inl e \<Rightarrow> Inl e
                     | Inr ps \<Rightarrow> Inr (\<lparr>fAt = t, fPrice = times1000 W eurPerKWh\<rparr> # ps))))"

definition pointBefore :: "fpoint \<Rightarrow> fpoint \<Rightarrow> bool" where
  "pointBefore a b \<longleftrightarrow> fAt a < fAt b"

definition parseResponse :: "web \<Rightarrow> string \<Rightarrow> perr + fpoint list" where
  "parseResponse W body =
     (case jsonEnergyZero W body of
        Inl e \<Rightarrow> Inl (Wrap ''parsing EnergyZero JSON'' (Msg e))
      | Inr (interval, base) \<Rightarrow>
          if interval \<noteq> ''RESPONSE_INTERVAL_QUARTER''
          then Inl (Msg (''EnergyZero returned interval '' @ Quote interval @ '', want RESPONSE_INTERVAL_QUARTER''))
          else if base = [] then Inl (Msg ''EnergyZero response contains no base prices'')
          else (case energyzeroLoop W 0 base of Inl e \<Rightarrow> Inl e | Inr ps \<Rightarrow> Inr (sortSlice W pointBefore ps)))"

definition energyzeroNewRequest :: "web \<Rightarrow> string \<Rightarrow> time \<Rightarrow> perr + request" where
  "energyzeroNewRequest W baseURL date =
     (case badURL W baseURL of
        Some e \<Rightarrow> Inl (Wrap ''parsing EnergyZero base URL'' (UrlError ''parse'' baseURL e))
      | None \<Rightarrow>
          (let u = parseURL baseURL;
               u' = u\<lparr>uRawQuery := Encode (setValue ''energyType'' ''ENERGY_TYPE_ELECTRICITY''
                      (setValue ''interval'' ''INTERVAL_QUARTER''
                        (setValue ''date'' (formatTime W ''02-01-2006'' date) (urlQuery u))))\<rparr>
           in case newRequest W (urlString u') of
                Inl e \<Rightarrow> Inl (Wrap ''building EnergyZero request'' e)
              | Inr rq \<Rightarrow> Inr (rq\<lparr>rqAccept := Some ''application/json''\<rparr>)))"

definition energyzeroFetchPrices :: "web \<Rightarrow> string \<Rightarrow> provider" where
  "energyzeroFetchPrices W baseURL biddingZone date =
     (case energyzeroNewRequest W baseURL date of
        Inl e \<Rightarrow> Inl e
      | Inr rq \<Rightarrow>
          (case httpDo W rq of
             Inl e \<Rightarrow> Inl (Wrap ''calling EnergyZero API'' e)
           | Inr resp \<Rightarrow>
               (case ReadLimitedBody (rsBody resp) largeMaxBodyBytes of
                  Inl e \<Rightarrow> Inl (Wrap ''reading EnergyZero response'' (bodyErr e))
                | Inr body \<Rightarrow>
                    if rsStatus resp \<noteq> StatusOK
                    then Inl (Msg (''EnergyZero API returned HTTP '' @ Itoa (rsStatus resp)))
                    else parseResponse W body)))"

record energyzeroProvider =
  ezBaseURL :: string
  ezClient :: httpClient

definition energyzeroNew :: energyzeroProvider where
  "energyzeroNew = \<lparr>ezBaseURL = energyzeroBaseURL, ezClient = NewRedactedHTTPClient requestTimeout []\<rparr>"

definition energyzeroFactory :: "web \<Rightarrow> factory" where
  "energyzeroFactory W spec token =
     (if spBiddingZone spec \<noteq> ''NL'' then Inl (Msg (''EnergyZero only supports biddingZone '' @ Quote ''NL'' @ '', got '' @ Quote (spBiddingZone spec)))
      else if token \<noteq> '''' then Inl (Msg ''EnergyZero is a public provider and must not be configured with a token'')
      else Inr (energyzeroFetchPrices W (ezBaseURL energyzeroNew)))"

section \<open>enever\<close>

definition eneverProviderName :: string where "eneverProviderName = ''enever''"
definition eneverBaseURL :: string where "eneverBaseURL = ''https://enever.nl/apiv3''"
definition priceField :: string where "priceField = ''prijs''"

definition knownSuppliers :: "string list" where
  "knownSuppliers =
     [''ANWB'', ''BE'', ''CB'', ''ED'', ''EE'', ''EG'', ''EN'', ''ES'', ''EVO'', ''EZ'', ''FR'', ''GSL'',
      ''HE'', ''IN'', ''MDE'', ''NE'', ''PE'', ''QU'', ''SS'', ''TI'', ''VDB'', ''VF'', ''VON'', ''WE'', ''ZP'']"

text \<open>\<open>strings.ToUpper\<close> on ASCII; the schema admits no other supplier names.\<close>

definition ToUpper :: "string \<Rightarrow> string" where
  "ToUpper s = map (\<lambda>c. let n = (of_char c :: nat) in if 97 \<le> n \<and> n \<le> 122 then char_of (n - 32) else c) s"

fun convertDataLoop ::
  "web \<Rightarrow> string \<Rightarrow> string \<Rightarrow> nat \<Rightarrow> (string \<rightharpoonup> string) list \<Rightarrow> perr + fpoint list" where
  "convertDataLoop W priceKey day i [] = Inr []"
| "convertDataLoop W priceKey day i (item # rs) =
     (case item ''datum'' of
        None \<Rightarrow> Inl (Msg (day @ '' item '' @ Itoa (int i) @ '': missing datum field''))
      | Some datumStr \<Rightarrow>
          (case parseRFC3339 W datumStr of
             Inl e \<Rightarrow> Inl (Wrap (day @ '' item '' @ Itoa (int i) @ '': parsing datum '' @ Quote datumStr) (Msg e))
           | Inr t \<Rightarrow>
               (case item priceKey of
                  None \<Rightarrow> Inl (Msg (day @ '' item '' @ Itoa (int i) @ '': price key '' @ Quote priceKey @ '' not found in response''))
                | Some priceStr \<Rightarrow>
                    (case parseFloat W priceStr of
                       Inl e \<Rightarrow> Inl (Wrap (day @ '' item '' @ Itoa (int i) @ '': parsing price '' @ Quote priceStr) (Msg e))
                     | Inr eurPerKWh \<Rightarrow>
                         (case convertDataLoop W priceKey day (Suc i) rs of
                            Inl e \<Rightarrow> Inl e
                          | Inr ps \<Rightarrow> Inr (\<lparr>fAt = t, fPrice = times1000 W eurPerKWh\<rparr> # ps))))))"

definition convertData :: "web \<Rightarrow> string \<Rightarrow> (string \<rightharpoonup> string) list \<Rightarrow> string \<Rightarrow> perr + fpoint list" where
  "convertData W supplier items day =
     (let priceKey = (if supplier \<noteq> '''' then priceField @ supplier else priceField)
      in convertDataLoop W priceKey day 0 items)"

definition eneverURL :: "string \<Rightarrow> string \<Rightarrow> string" where
  "eneverURL token day = eneverBaseURL @ ''/stroomprijs_'' @ day @ ''.php?token='' @ token @ ''&resolution=15''"

definition fetchDay :: "web \<Rightarrow> string \<Rightarrow> string \<Rightarrow> string \<Rightarrow> perr + fpoint list" where
  "fetchDay W token supplier day =
     (case newRequest W (eneverURL token day) of
        Inl e \<Rightarrow> Inl (Wrap (''building request for '' @ day) e)
      | Inr rq \<Rightarrow>
          (case httpDo W rq of
             Inl e \<Rightarrow> Inl (Wrap (''fetching '' @ day @ '' prices'') e)
           | Inr resp \<Rightarrow>
               if rsStatus resp \<noteq> StatusOK
               then Inl (Msg (''enever API returned HTTP '' @ Itoa (rsStatus resp) @ '' for '' @ day))
               else case ReadLimitedBody (rsBody resp) customMaxBodyBytes of
                   Inl e \<Rightarrow> Inl (Wrap (''reading enever response for '' @ day) (bodyErr e))
                 | Inr body \<Rightarrow>
                     (case jsonEnever W body of
                        Inl e \<Rightarrow> Inl (Wrap (''parsing enever JSON for '' @ day) (Msg e))
                      | Inr (status, items, code) \<Rightarrow>
                          if status \<noteq> ''true''
                          then Inl (Msg (''enever API returned status '' @ Quote status @ '' for '' @ day @ '' (code '' @ code @ '')''))
                          else convertData W supplier items day)))"

definition eneverFetchPrices :: "web \<Rightarrow> string \<Rightarrow> string \<Rightarrow> provider" where
  "eneverFetchPrices W token supplier biddingZone date =
     (case fetchDay W token supplier ''vandaag'' of
        Inl e \<Rightarrow> Inl (Wrap ''fetching today's enever prices'' e)
      | Inr today \<Rightarrow>
          (case fetchDay W token supplier ''morgen'' of
             Inl _ \<Rightarrow> Inr today
           | Inr tomorrow \<Rightarrow> Inr (today @ tomorrow)))"

record eneverProvider =
  evToken :: string
  evSupplier :: string
  evClient :: httpClient

definition eneverNew :: "string \<Rightarrow> string \<Rightarrow> eneverProvider" where
  "eneverNew token supplier = \<lparr>evToken = token, evSupplier = ToUpper supplier,
     evClient = NewRedactedHTTPClient requestTimeout [''token'']\<rparr>"

definition eneverFactory :: "web \<Rightarrow> factory" where
  "eneverFactory W spec token =
     (case spEnever spec of
        None \<Rightarrow> Inl (Msg (''eneverConfig is required for provider '' @ Quote eneverProviderName))
      | Some cfg \<Rightarrow>
          if token = '''' then Inl (Msg ''API token is empty; check eneverConfig.secretRef'')
          else let supplier = ToUpper (nvSupplier cfg) in
            if supplier \<noteq> '''' \<and> supplier \<notin> set knownSuppliers
            then Inl (Msg (''unknown enever supplier '' @ Quote (nvSupplier cfg)))
            else let p = eneverNew token supplier in Inr (eneverFetchPrices W (evToken p) (evSupplier p)))"

section \<open>entsoe\<close>

definition entsoeProviderName :: string where "entsoeProviderName = ''entsoe''"
definition entsoeBaseURL :: string where "entsoeBaseURL = ''https://web-api.tp.entsoe.eu/api''"
definition documentType :: string where "documentType = ''A44''"
definition periodLayout :: string where "periodLayout = ''200601021504''"

definition AreaCodes :: "(string \<times> string) list" where
  "AreaCodes =
     [(''NL'', ''10YNL----------L''), (''BE'', ''10YBE----------2''), (''DE'', ''10Y1001A1001A83F''),
      (''DE-LU'', ''10Y1001A1001A82H''), (''FR'', ''10YFR-RTE------C''), (''DK1'', ''10YDK-1--------W''),
      (''DK2'', ''10YDK-2--------M''), (''NO1'', ''10YNO-1--------2''), (''NO2'', ''10YNO-2--------T''),
      (''NO3'', ''10YNO-3--------J''), (''NO4'', ''10YNO-4--------9''), (''NO5'', ''10Y1001A1001A48H''),
      (''SE1'', ''10Y1001A1001A44P''), (''SE2'', ''10Y1001A1001A45N''), (''SE3'', ''10Y1001A1001A46L''),
      (''SE4'', ''10Y1001A1001A47J''), (''FI'', ''10YFI-1--------U''), (''AT'', ''10YAT-APG------L''),
      (''CH'', ''10YCH-SWISSGRIDZ''), (''ES'', ''10YES-REE------0''), (''PT'', ''10YPT-REN------W''),
      (''CZ'', ''10YCZ-CEPS-----N''), (''PL'', ''10YPL-AREA-----S'')]"

definition parseResolution :: "string \<Rightarrow> perr + duration" where
  "parseResolution s =
     (if s = ''PT15M'' then Inr (15 * minute)
      else if s = ''PT30M'' then Inr (30 * minute)
      else if s = ''PT60M'' \<or> s = ''PT1H'' then Inr (60 * minute)
      else Inl (Msg (''unknown resolution '' @ Quote s)))"

definition parseTime :: "web \<Rightarrow> string \<Rightarrow> string + time" where
  "parseTime W s = (case parseMinuteZ W s of Inr t \<Rightarrow> Inr t | Inl _ \<Rightarrow> parseRFC3339 W s)"

text \<open>\<open>time.Duration(pt.Position-1) * resolution\<close>, in \<open>int64\<close>.\<close>

definition pointAt :: "time \<Rightarrow> duration \<Rightarrow> entsoePoint \<Rightarrow> fpoint" where
  "pointAt periodStart resolution pt =
     \<lparr>fAt = periodStart + int64 (int64 (ptPosition pt - 1) * resolution), fPrice = ptPriceAmount pt\<rparr>"

definition convertPeriod :: "web \<Rightarrow> entsoePeriod \<Rightarrow> perr + fpoint list" where
  "convertPeriod W per =
     (case parseResolution (prResolution per) of
        Inl e \<Rightarrow> Inl (Wrap (''unsupported resolution '' @ Quote (prResolution per)) e)
      | Inr resolution \<Rightarrow>
          (case parseTime W (prStart per) of
             Inl e \<Rightarrow> Inl (Wrap (''parsing period start '' @ Quote (prStart per)) (Msg e))
           | Inr periodStart \<Rightarrow> Inr (map (pointAt periodStart resolution) (prPoints per))))"

fun convertPeriods :: "web \<Rightarrow> entsoePeriod list \<Rightarrow> perr + fpoint list" where
  "convertPeriods W [] = Inr []"
| "convertPeriods W (per # ps) =
     (case convertPeriod W per of
        Inl e \<Rightarrow> Inl e
      | Inr xs \<Rightarrow> (case convertPeriods W ps of Inl e \<Rightarrow> Inl e | Inr ys \<Rightarrow> Inr (xs @ ys)))"

text \<open>The two nested loops run over the periods of all time series in order.\<close>

definition parsePublication :: "web \<Rightarrow> string \<Rightarrow> perr + fpoint list" where
  "parsePublication W body =
     (case xmlPublication W body of
        Inl e \<Rightarrow> Inl (Wrap ''parsing ENTSO-E XML'' (Msg e))
      | Inr tss \<Rightarrow> convertPeriods W (concat tss))"

definition parseAcknowledgement :: "web \<Rightarrow> string \<Rightarrow> string" where
  "parseAcknowledgement W body =
     (case xmlAcknowledgement W body of
        Inl _ \<Rightarrow> ''''
      | Inr (code, txt) \<Rightarrow> if code = '''' then '''' else ''code '' @ code @ '': '' @ txt)"

text \<open>\<open>Truncate(24 * time.Hour)\<close> counts from the zero time, which is a midnight.\<close>

definition dayStartUTC :: "time \<Rightarrow> time" where
  "dayStartUTC t = t - (t - zeroTime) mod (24 * hour)"

definition entsoeURL :: "web \<Rightarrow> string \<Rightarrow> string \<Rightarrow> time \<Rightarrow> url" where
  "entsoeURL W areaCode token date =
     (let u = parseURL entsoeBaseURL; dayStart = dayStartUTC date; dayEnd = dayStart + 48 * hour
      in u\<lparr>uRawQuery := Encode
            (setValue ''securityToken'' token
              (setValue ''periodEnd'' (formatTime W periodLayout dayEnd)
                (setValue ''periodStart'' (formatTime W periodLayout dayStart)
                  (setValue ''out_Domain'' areaCode
                    (setValue ''in_Domain'' areaCode
                      (setValue ''documentType'' documentType (urlQuery u)))))))\<rparr>)"

definition entsoeFetchPrices :: "web \<Rightarrow> string \<Rightarrow> string \<Rightarrow> provider" where
  "entsoeFetchPrices W areaCode token biddingZone date =
     (case newRequest W entsoeBaseURL of
        Inl e \<Rightarrow> Inl (Wrap ''building ENTSO-E request'' e)
      | Inr rq \<Rightarrow>
          (case httpDo W (rq\<lparr>rqURL := entsoeURL W areaCode token date\<rparr>) of
             Inl e \<Rightarrow> Inl (Wrap ''calling ENTSO-E API'' e)
           | Inr resp \<Rightarrow>
               (case ReadLimitedBody (rsBody resp) largeMaxBodyBytes of
                  Inl e \<Rightarrow> Inl (Wrap ''reading ENTSO-E response'' (bodyErr e))
                | Inr body \<Rightarrow>
                    if rsStatus resp \<noteq> StatusOK then
                      (let apiErr = parseAcknowledgement W body in
                       if apiErr \<noteq> '''' then Inl (Msg (''ENTSO-E API error (HTTP '' @ Itoa (rsStatus resp) @ ''): '' @ apiErr))
                       else Inl (Msg (''ENTSO-E API returned HTTP '' @ Itoa (rsStatus resp))))
                    else (let apiErr = parseAcknowledgement W body in
                          if apiErr \<noteq> '''' then Inl (Msg (''ENTSO-E API error: '' @ apiErr))
                          else parsePublication W body))))"

record entsoeProvider =
  enAreaCode :: string
  enToken :: string
  enClient :: httpClient

definition entsoeNew :: "string \<Rightarrow> string \<Rightarrow> entsoeProvider" where
  "entsoeNew areaCode token = \<lparr>enAreaCode = areaCode, enToken = token,
     enClient = NewRedactedHTTPClient requestTimeout [''securityToken'']\<rparr>"

definition entsoeFactory :: "web \<Rightarrow> factory" where
  "entsoeFactory W spec token =
     (case spEntsoe spec of
        None \<Rightarrow> Inl (Msg (''entsoeConfig is required for provider '' @ Quote entsoeProviderName))
      | Some cfg \<Rightarrow>
          (case (if ecAreaCode cfg = '''' then map_of AreaCodes (spBiddingZone spec) else Some (ecAreaCode cfg)) of
             None \<Rightarrow> Inl (Msg (''no built-in ENTSO-E area code for biddingZone '' @ Quote (spBiddingZone spec) @
                       ''; set entsoeConfig.areaCode explicitly''))
           | Some areaCode \<Rightarrow>
               if token = '''' then Inl (Msg ''security token is empty; check entsoeConfig.secretRef'')
               else let p = entsoeNew areaCode token in Inr (entsoeFetchPrices W (enAreaCode p) (enToken p))))"

section \<open>The registry of \<open>main\<close>\<close>

definition mainRegistry :: "web \<Rightarrow> registry" where
  "mainRegistry W =
     Register (Register (Register (Register NewRegistry
       customProviderName (customFactory W)) entsoeProviderName (entsoeFactory W))
       eneverProviderName (eneverFactory W)) energyzeroProviderName (energyzeroFactory W)"

section \<open>Lemmas\<close>

text \<open>
  \<open>slices.SortFunc\<close> and \<open>sort.Slice\<close> on a strict weak ordering: a permutation in which no element comes
  after one that it is less than. Neither is stable.
\<close>

definition strictWeak :: "('a \<Rightarrow> 'a \<Rightarrow> bool) \<Rightarrow> bool" where
  "strictWeak lt \<longleftrightarrow> (\<forall>a. \<not> lt a a) \<and> (\<forall>a b c. lt a b \<and> lt b c \<longrightarrow> lt a c) \<and>
     (\<forall>a b c. \<not> lt a b \<and> \<not> lt b c \<longrightarrow> \<not> lt a c)"

definition sortsBy :: "('a \<Rightarrow> 'a \<Rightarrow> bool) \<Rightarrow> ('a list \<Rightarrow> 'a list) \<Rightarrow> bool" where
  "sortsBy lt f \<longleftrightarrow> (\<forall>xs. mset (f xs) = mset xs \<and> sorted_wrt (\<lambda>a b. \<not> lt b a) (f xs))"

definition sortsPoints :: "web \<Rightarrow> bool" where
  "sortsPoints W \<longleftrightarrow>
     (\<forall>cmp. strictWeak (\<lambda>a b. cmp a b < 0) \<longrightarrow> sortsBy (\<lambda>a b. cmp a b < 0) (sortFunc W cmp)) \<and>
     (\<forall>lt. strictWeak lt \<longrightarrow> sortsBy lt (sortSlice W lt))"

lemma strictWeak_before: "strictWeak pointBefore" "(\<lambda>a b. comparePoints a b < 0) = pointBefore"
  by (auto simp: strictWeak_def pointBefore_def comparePoints_def fun_eq_iff)

lemma sortsPoints_time:
  assumes "sortsPoints W"
  shows "mset (sortPricePointsByStartTime W ps) = mset ps \<and> sorted (map fAt (sortPricePointsByStartTime W ps))"
    "mset (sortSlice W pointBefore ps) = mset ps \<and> sorted (map fAt (sortSlice W pointBefore ps))"
proof -
  have sorted: "sorted (map fAt xs)" if "sorted_wrt (\<lambda>a b. \<not> pointBefore b a) xs" for xs
    using that by (simp add: sorted_wrt_map pointBefore_def not_less)
  have "strictWeak (\<lambda>a b. comparePoints a b < 0) \<longrightarrow> sortsBy (\<lambda>a b. comparePoints a b < 0) (sortFunc W comparePoints)"
    using assms by (simp add: sortsPoints_def)
  then have "sortsBy pointBefore (sortFunc W comparePoints)" by (simp only: strictWeak_before simp_thms)
  moreover have "sortsBy pointBefore (sortSlice W pointBefore)"
    using assms strictWeak_before(1) by (simp add: sortsPoints_def)
  ultimately show "mset (sortPricePointsByStartTime W ps) = mset ps \<and> sorted (map fAt (sortPricePointsByStartTime W ps))"
    "mset (sortSlice W pointBefore ps) = mset ps \<and> sorted (map fAt (sortSlice W pointBefore ps))"
    using sorted by (auto simp: sortsBy_def sortPricePointsByStartTime_def)
qed

text \<open>A sort with both laws.\<close>

fun insertBy :: "('a \<Rightarrow> 'a \<Rightarrow> bool) \<Rightarrow> 'a \<Rightarrow> 'a list \<Rightarrow> 'a list" where
  "insertBy lt x [] = [x]"
| "insertBy lt x (y # ys) = (if lt y x then y # insertBy lt x ys else x # y # ys)"

definition sortBy :: "('a \<Rightarrow> 'a \<Rightarrow> bool) \<Rightarrow> 'a list \<Rightarrow> 'a list" where
  "sortBy lt xs = foldr (insertBy lt) xs []"

lemma mset_insertBy: "mset (insertBy lt x ys) = add_mset x (mset ys)"
  by (induction ys) auto

lemma set_insertBy: "set (insertBy lt x ys) = insert x (set ys)"
  using mset_insertBy [of lt x ys] by (metis set_mset_add_mset_insert set_mset_mset)

lemma sorted_insertBy:
  assumes "strictWeak lt" "sorted_wrt (\<lambda>a b. \<not> lt b a) ys"
  shows "sorted_wrt (\<lambda>a b. \<not> lt b a) (insertBy lt x ys)"
  using assms(2)
proof (induction ys)
  case (Cons y ys)
  have "\<not> lt x y" if "lt y x" using assms(1) that unfolding strictWeak_def by blast
  moreover have neg: "\<not> lt a c" if "\<not> lt a b" "\<not> lt b c" for a b c
    using assms(1) that unfolding strictWeak_def by blast
  have "\<not> lt z x" if "\<not> lt y x" "z \<in> set ys" for z using neg [of z y x] Cons.prems that by simp
  ultimately show ?case using Cons by (auto simp: set_insertBy)
qed simp

lemma sortsBy_sortBy:
  assumes "strictWeak lt"
  shows "sortsBy lt (sortBy lt)"
proof -
  have "mset (sortBy lt xs) = mset xs \<and> sorted_wrt (\<lambda>a b. \<not> lt b a) (sortBy lt xs)" for xs
    by (induction xs) (auto simp: sortBy_def mset_insertBy sorted_insertBy [OF assms])
  then show ?thesis by (simp add: sortsBy_def)
qed

text \<open>Tokens without a character that is special in a query string.\<close>

definition plainToken :: "string \<Rightarrow> bool" where
  "plainToken t \<longleftrightarrow> list_all (\<lambda>c. c \<notin> set ''&;#%'') t"

lemma cutAt_none: "c \<notin> set s \<Longrightarrow> cutAt c s = (s, [])"
  by (induction s) (auto simp: cutAt_def)

lemma eneverURL_split: "eneverURL token day =
   (eneverBaseURL @ ''/stroomprijs_'' @ day @ ''.php'') @ CHR ''?'' # (''token='' @ token @ ''&resolution=15'')"
  by (simp add: eneverURL_def)

lemma parseURL_eneverURL:
  assumes "CHR ''#'' \<notin> set token" "CHR ''#'' \<notin> set day" "CHR ''?'' \<notin> set day"
  shows "parseURL (eneverURL token day) =
    \<lparr>uPrefix = eneverBaseURL @ ''/stroomprijs_'' @ day @ ''.php'', uForceQuery = False,
     uRawQuery = ''token='' @ token @ ''&resolution=15'', uFragment = []\<rparr>"
proof -
  have hash: "CHR ''#'' \<notin> set (eneverURL token day)"
    using assms by (auto simp: eneverURL_def eneverBaseURL_def)
  have "CHR ''?'' \<notin> set (eneverBaseURL @ ''/stroomprijs_'' @ day @ ''.php'')"
    using assms(3) by (auto simp: eneverBaseURL_def)
  then have cut: "cutAt (CHR ''?'') (eneverURL token day) =
      (eneverBaseURL @ ''/stroomprijs_'' @ day @ ''.php'', ''token='' @ token @ ''&resolution=15'')"
    unfolding eneverURL_split by (rule cutAt_plain)
  show ?thesis unfolding parseURL_def by (simp only: cutAt_none [OF hash] cut Let_def prod.case) simp
qed

lemma plainToken_hash: "plainToken t \<Longrightarrow> CHR ''#'' \<notin> set t"
  by (auto simp: plainToken_def list_all_iff)

text \<open>The URL a failed request reports is the one that was built, token included.\<close>

lemma urlString_eneverURL:
  assumes "CHR ''#'' \<notin> set token" "CHR ''#'' \<notin> set day" "CHR ''?'' \<notin> set day"
  shows "urlString (parseURL (eneverURL token day)) = eneverURL token day"
  unfolding parseURL_eneverURL [OF assms] by (simp add: urlString_def eneverURL_def)

lemma QueryUnescape_plain: "plainToken t \<Longrightarrow> \<exists>u. QueryUnescape t = Some u"
  by (induction t) (auto simp: plainToken_def)

lemma ParseQuery_token:
  assumes "plainToken token"
  shows "\<exists>u. ParseQuery (''token='' @ token @ ''&resolution=15'') = [(''token'', [u]), (''resolution'', [''15''])]"
proof -
  obtain u where u: "QueryUnescape token = Some u" using QueryUnescape_plain [OF assms] by blast
  have amp: "CHR ''&'' \<notin> set (''token='' @ token)" and semi: "CHR '';'' \<notin> set (''token='' @ token)"
    using assms by (auto simp: plainToken_def list_all_iff)
  have split: "splitOn (CHR ''&'') ((''token='' @ token) @ CHR ''&'' # ''resolution=15'') = [''token='' @ token, ''resolution=15'']"
    unfolding splitOn_append [OF amp] by simp
  have cut: "cutAt (CHR ''='') (''token'' @ CHR ''='' # token) = (''token'', token)" by (rule cutAt_plain) simp
  have "parsePair [] (''token='' @ token) = [(''token'', [u])]"
    using semi cut u by (simp add: parsePair_def)
  moreover have "parsePair [(''token'', [u])] ''resolution=15'' = [(''token'', [u]), (''resolution'', [''15''])]"
    by (simp add: parsePair_def cutAt_def)
  ultimately have "ParseQuery ((''token='' @ token) @ CHR ''&'' # ''resolution=15'') = [(''token'', [u]), (''resolution'', [''15''])]"
    unfolding ParseQuery_def split by simp
  then show ?thesis by simp
qed

definition entsoeQuery :: "web \<Rightarrow> string \<Rightarrow> string \<Rightarrow> time \<Rightarrow> query" where
  "entsoeQuery W areaCode token date =
     [(''documentType'', [documentType]), (''in_Domain'', [areaCode]), (''out_Domain'', [areaCode]),
      (''periodStart'', [formatTime W periodLayout (dayStartUTC date)]),
      (''periodEnd'', [formatTime W periodLayout (dayStartUTC date + 48 * hour)]), (''securityToken'', [token])]"

lemma entsoeURL_query: "entsoeURL W areaCode token date = (parseURL entsoeBaseURL)\<lparr>uRawQuery := Encode (entsoeQuery W areaCode token date)\<rparr>"
proof -
  have "urlQuery (parseURL entsoeBaseURL) = []"
    by (simp add: urlQuery_def parseURL_def cutAt_def entsoeBaseURL_def ParseQuery_def parsePair_def)
  then show ?thesis by (simp add: entsoeURL_def entsoeQuery_def Let_def)
qed

lemma entsoe_redacted:
  "redactQuery [''securityToken''] (urlQuery (entsoeURL W areaCode token date)) =
     sort_key fst (redactQuery [''securityToken''] (entsoeQuery W areaCode token date))"
proof -
  have "urlQuery (entsoeURL W areaCode token date) = sort_key fst (entsoeQuery W areaCode token date)"
  proof -
    have "ParseQuery (Encode (entsoeQuery W areaCode token date)) = sort_key fst (entsoeQuery W areaCode token date)"
      by (rule ParseQuery_Encode) (auto simp: entsoeQuery_def)
    then show ?thesis by (simp add: urlQuery_def entsoeURL_query)
  qed
  then show ?thesis by (simp add: redactQuery_sort)
qed

lemma sorted_convertIntervals:
  "sortsPoints W \<Longrightarrow> convertIntervals W raw = Inr ps \<Longrightarrow>
    sorted (map fAt ps) \<and> (\<exists>qs. convertIntervalsLoop W 0 raw = Inr qs \<and> mset ps = mset qs)"
  by (auto simp: convertIntervals_def sortsPoints_time split: sum.splits)

lemma convertIntervalsLoop_points:
  "convertIntervalsLoop W i raw = Inr ps \<longleftrightarrow>
     list_all2 (\<lambda>(st, eur) p. parseRFC3339 W st = Inr (fAt p) \<and> fPrice p = eur) raw ps"
proof (induction raw arbitrary: i ps)
  case (Cons r raw)
  obtain st eur where r: "r = (st, eur)" by fastforce
  show ?case
    by (cases ps) (auto simp: r Cons.IH [of "Suc i", symmetric] split: sum.splits)
qed auto

lemma energyzeroLoop_points:
  "energyzeroLoop W i raw = Inr ps \<longleftrightarrow>
     list_all2 (\<lambda>(st, price) p. parseRFC3339 W st = Inr (fAt p) \<and>
       (\<exists>x. parseFloat W price = Inr x \<and> isFinite x \<and> fPrice p = times1000 W x)) raw ps"
proof (induction raw arbitrary: i ps)
  case (Cons r raw)
  obtain st price where r: "r = (st, price)" by fastforce
  show ?case
    by (cases ps) (auto simp: r Cons.IH [of "Suc i", symmetric] split: sum.splits)
qed auto

text \<open>The points of a period when no product overflows.\<close>

definition smallPositions :: "entsoePeriod \<Rightarrow> bool" where
  "smallPositions per \<longleftrightarrow> list_all (\<lambda>pt. 1 \<le> ptPosition pt \<and> ptPosition pt \<le> 1000000) (prPoints per)"

lemma parseResolution_range: "parseResolution s = Inr d \<Longrightarrow> 15 * minute \<le> d \<and> d \<le> 60 * minute"
  by (auto simp: parseResolution_def go_defs split: if_splits)

lemma pointAt_exact:
  assumes "1 \<le> ptPosition pt" "ptPosition pt \<le> 1000000" "0 \<le> d" "d \<le> 60 * minute"
  shows "fAt (pointAt t d pt) = t + (ptPosition pt - 1) * d"
proof -
  have "0 \<le> (ptPosition pt - 1) * d" using assms by simp
  moreover have "(ptPosition pt - 1) * d \<le> 1000000 * (60 * minute)" using assms by (intro mult_mono) auto
  moreover have "1000000 * (60 * minute) \<le> maxInt64" by (simp add: go_defs)
  moreover have "minInt64 \<le> 0" by (simp add: go_defs)
  ultimately have "int64 ((ptPosition pt - 1) * d) = (ptPosition pt - 1) * d" by (intro int64_id) linarith+
  moreover have "int64 (ptPosition pt - 1) = ptPosition pt - 1" using assms by (intro int64_id) (simp_all add: go_defs)
  ultimately show ?thesis by (simp add: pointAt_def)
qed

text \<open>
  A document in time order: positions grow within a period, and a period starts after the last point
  of each earlier one.
\<close>

definition precedes :: "web \<Rightarrow> entsoePeriod \<Rightarrow> entsoePeriod \<Rightarrow> bool" where
  "precedes W p q \<longleftrightarrow> (\<exists>t d u. parseTime W (prStart p) = Inr t \<and> parseResolution (prResolution p) = Inr d \<and>
     parseTime W (prStart q) = Inr u \<and> list_all (\<lambda>pt. t + (ptPosition pt - 1) * d < u) (prPoints p))"

definition inTimeOrder :: "web \<Rightarrow> entsoePeriod list \<Rightarrow> bool" where
  "inTimeOrder W pers \<longleftrightarrow> sorted_wrt (precedes W) pers \<and>
     list_all (\<lambda>p. smallPositions p \<and> sorted_wrt (<) (map ptPosition (prPoints p))) pers"

lemma convertPeriod_points:
  assumes "convertPeriod W per = Inr xs" "smallPositions per"
  obtains t d where "parseTime W (prStart per) = Inr t" "parseResolution (prResolution per) = Inr d" "0 < d"
    "map fAt xs = map (\<lambda>pt. t + (ptPosition pt - 1) * d) (prPoints per)"
proof -
  from assms(1) obtain t d where td: "parseTime W (prStart per) = Inr t" "parseResolution (prResolution per) = Inr d"
    "xs = map (pointAt t d) (prPoints per)"
    by (auto simp: convertPeriod_def split: sum.splits)
  have d: "0 < d" "d \<le> 60 * minute" using parseResolution_range [OF td(2)] by (auto simp: go_defs)
  have "map fAt xs = map (\<lambda>pt. t + (ptPosition pt - 1) * d) (prPoints per)"
    using assms(2) d by (auto simp: td(3) smallPositions_def list_all_iff intro!: pointAt_exact)
  then show ?thesis using that td d by blast
qed

lemma convertPeriods_sorted:
  "inTimeOrder W pers \<Longrightarrow> convertPeriods W pers = Inr ps \<Longrightarrow> sorted_wrt (<) (map fAt ps) \<and>
     (\<forall>x \<in> set ps. \<exists>per \<in> set pers. \<exists>u. parseTime W (prStart per) = Inr u \<and> u \<le> fAt x)"
proof (induction pers arbitrary: ps)
  case (Cons per pers)
  from Cons.prems(2) obtain xs ys where xs: "convertPeriod W per = Inr xs" and ys: "convertPeriods W pers = Inr ys" and ps: "ps = xs @ ys"
    by (auto split: sum.splits)
  have small: "smallPositions per" and inc: "sorted_wrt (<) (map ptPosition (prPoints per))"
    and pre: "\<forall>q \<in> set pers. precedes W per q" and "inTimeOrder W pers"
    using Cons.prems(1) by (auto simp: inTimeOrder_def)
  note IH = Cons.IH [OF this(4) ys]
  obtain t d where td: "parseTime W (prStart per) = Inr t" "parseResolution (prResolution per) = Inr d" "0 < d"
    "map fAt xs = map (\<lambda>pt. t + (ptPosition pt - 1) * d) (prPoints per)"
    by (rule convertPeriod_points [OF xs small])
  have "sorted_wrt (<) (map fAt xs)"
    unfolding td(4) using inc td(3) by (auto simp: sorted_wrt_map elim!: sorted_wrt_mono_rel [rotated])
  moreover have "fAt x < fAt y" if x: "x \<in> set xs" and y: "y \<in> set ys" for x y
  proof -
    have "fAt x \<in> set (map fAt xs)" using x by simp
    then obtain pt where pt: "pt \<in> set (prPoints per)" "fAt x = t + (ptPosition pt - 1) * d" unfolding td(4) by auto
    obtain q u where q: "q \<in> set pers" "parseTime W (prStart q) = Inr u" "u \<le> fAt y" using IH y by blast
    then show ?thesis using pre pt td(1,2) unfolding precedes_def list_all_iff by fastforce
  qed
  moreover have "\<exists>u. parseTime W (prStart per) = Inr u \<and> u \<le> fAt x" if "x \<in> set xs" for x
  proof -
    have "fAt x \<in> set (map fAt xs)" using that by simp
    then obtain pt where "pt \<in> set (prPoints per)" "fAt x = t + (ptPosition pt - 1) * d" unfolding td(4) by auto
    then show ?thesis using small td(1,3) by (auto simp: smallPositions_def list_all_iff)
  qed
  ultimately show ?case using IH by (auto simp: ps sorted_wrt_append)
qed simp

section \<open>An example\<close>

text \<open>A network that answers every request, and decoders that read two points from any body.\<close>

definition demoWeb :: web where
  "demoWeb = \<lparr>badURL = (\<lambda>_. None), send = (\<lambda>_. Inr \<lparr>rsStatus = 200, rsBody = (''body'', None)\<rparr>),
     formatTime = (\<lambda>l t. ''d''), parseRFC3339 = (\<lambda>s. if s = ''late'' then Inr hour else Inr 0),
     parseMinuteZ = (\<lambda>s. if s = ''late'' then Inr (24 * hour) else Inr 0), parseFloat = (\<lambda>_. Inr (Finite (1 / 4))),
     round64 = Finite, jsonIntervals = (\<lambda>_. Inr [(''late'', Finite 7), (''early'', Finite 3)]),
     jsonEnever = (\<lambda>_. Inr (''true'', [], '''')),
     jsonEnergyZero = (\<lambda>_. Inr (''RESPONSE_INTERVAL_QUARTER'', [(''late'', ''0.25''), (''early'', ''0.25'')])),
     xmlAcknowledgement = (\<lambda>_. Inl ''no''),
     xmlPublication = (\<lambda>_. Inr
       [[\<lparr>prStart = ''early'', prResolution = ''PT60M'', prPoints = [\<lparr>ptPosition = 1, ptPriceAmount = Finite 5\<rparr>, \<lparr>ptPosition = 2, ptPriceAmount = Finite 6\<rparr>]\<rparr>],
        [\<lparr>prStart = ''late'', prResolution = ''PT15M'', prPoints = [\<lparr>ptPosition = 1, ptPriceAmount = Finite 4\<rparr>]\<rparr>]]),
     sortFunc = (\<lambda>cmp. sortBy (\<lambda>a b. cmp a b < 0)), sortSlice = sortBy\<rparr>"

lemma sortsPoints_demoWeb: "sortsPoints demoWeb"
  by (simp add: sortsPoints_def demoWeb_def sortsBy_sortBy)

section \<open>Properties\<close>

text \<open>
  C37: The span that the HTTP client of a provider, as \<open>New\<close> builds it, records for a request does not depend on
  the secret. For ENTSO-E this holds for every token, because
  the query is encoded; for enever, which pastes the token into the URL, for tokens without the
  characters that are special in a query string. Two requests that differ in the token only and get
  the same answer leave the same span.
\<close>

theorem spans_hide_tokens:
  assumes "day = ''vandaag'' \<or> day = ''morgen''"
    and "transport (inject (rq\<lparr>rqURL := u\<rparr>)) = transport (inject (rq\<lparr>rqURL := u'\<rparr>))"
    and "(hcTransport (enClient (entsoeNew areaCode token)) = Redacting keys \<and>
       u = entsoeURL W areaCode token date \<and> u' = entsoeURL W areaCode token' date) \<or>
      (hcTransport (evClient (eneverNew token supplier)) = Redacting keys \<and> u = parseURL (eneverURL token day) \<and> u' = parseURL (eneverURL token' day) \<and>
       plainToken token \<and> plainToken token')"
  shows "snd (RoundTrip keys (Some transport) dflt inject (rq\<lparr>rqURL := u\<rparr>)) =
    snd (RoundTrip keys (Some transport) dflt inject (rq\<lparr>rqURL := u'\<rparr>))"
proof -
  have day: "CHR ''#'' \<notin> set day" "CHR ''?'' \<notin> set day" using assms(1) by auto
  have "uPrefix u = uPrefix u' \<and> redactedURL (Some u) keys = redactedURL (Some u') keys"
    using assms(3)
  proof (elim disjE conjE)
    assume client: "hcTransport (enClient (entsoeNew areaCode token)) = Redacting keys"
      and url: "u = entsoeURL W areaCode token date" "u' = entsoeURL W areaCode token' date"
    have u: "keys = [''securityToken'']" "u = entsoeURL W areaCode token date" "u' = entsoeURL W areaCode token' date"
      using client url by (simp_all add: entsoeNew_def NewRedactedHTTPClient_def)
    have "redactQuery [''securityToken''] (entsoeQuery W areaCode token date) = redactQuery [''securityToken''] (entsoeQuery W areaCode token' date)"
      by (simp add: redactQuery_def entsoeQuery_def)
    then show ?thesis unfolding u redactedURL_def option.case entsoe_redacted by (simp add: entsoeURL_query)
  next
    assume client: "hcTransport (evClient (eneverNew token supplier)) = Redacting keys"
      and url: "u = parseURL (eneverURL token day)" "u' = parseURL (eneverURL token' day)"
      and p: "plainToken token" "plainToken token'"
    have u: "keys = [''token'']" "u = parseURL (eneverURL token day)" "u' = parseURL (eneverURL token' day)"
      using client url by (simp_all add: eneverNew_def NewRedactedHTTPClient_def)
    obtain v v' where "ParseQuery (''token='' @ token @ ''&resolution=15'') = [(''token'', [v]), (''resolution'', [''15''])]"
      "ParseQuery (''token='' @ token' @ ''&resolution=15'') = [(''token'', [v']), (''resolution'', [''15''])]"
      using ParseQuery_token p by meson
    then show ?thesis
      unfolding u using p plainToken_hash by (simp add: redactedURL_def parseURL_eneverURL day urlQuery_def redactQuery_def)
  qed
  then have "requestAttributes keys (rq\<lparr>rqURL := u\<rparr>) = requestAttributes keys (rq\<lparr>rqURL := u'\<rparr>)"
    by (simp add: requestAttributes_def urlHostname_def urlAuthority_def urlScheme_def)
  then show ?thesis using assms(2) by (simp add: RoundTrip_def Let_def split: sum.splits)
qed

text \<open>A transport that answers every request with an error status.\<close>

theorem spans_hide_tokens_witness:
  "let rq = \<lparr>rqURL = parseURL '''', rqAuthorization = None, rqAccept = None\<rparr>;
       spanFor = (\<lambda>token. snd (RoundTrip [''token''] (Some (\<lambda>_. Inr \<lparr>rsStatus = 503, rsBody = ('''', None)\<rparr>)) (send demoWeb) id
         (rq\<lparr>rqURL := parseURL (eneverURL token ''morgen'')\<rparr>)))
   in spanFor ''abc'' = spanFor ''s3cret'' \<and> spCode (spanFor ''abc'') = CodeError"
proof -
  have "plainToken ''abc''" "plainToken ''s3cret''" by (simp_all add: plainToken_def)
  then show ?thesis
    using spans_hide_tokens [where day = "''morgen''" and transport = "\<lambda>_. Inr \<lparr>rsStatus = 503, rsBody = ('''', None)\<rparr>" and inject = id
        and rq = "\<lparr>rqURL = parseURL '''', rqAuthorization = None, rqAccept = None\<rparr>" and u = "parseURL (eneverURL ''abc'' ''morgen'')"
        and u' = "parseURL (eneverURL ''s3cret'' ''morgen'')" and keys = "[''token'']" and token = "''abc''" and token' = "''s3cret''"
        and dflt = "send demoWeb"]
    by (simp add: Let_def eneverNew_def NewRedactedHTTPClient_def) (simp add: RoundTrip_def statusCode_def)
qed

lemma ex_list_all2: "(\<exists>ys. list_all2 P xs ys) \<longleftrightarrow> list_all (\<lambda>x. \<exists>y. P x y) xs"
  by (induction xs) (auto simp: list_all2_Cons1)

lemma ex_fpoint: "\<exists>p :: fpoint. t = fAt p \<and> fPrice p = x"
  by (rule exI [of _ "\<lparr>fAt = t, fPrice = x\<rparr>"]) simp

lemma convertIntervals_points:
  assumes "sortsPoints W" "convertIntervals W raw = Inr ps"
  shows "sorted (map fAt ps) \<and>
    (\<exists>qs. mset qs = mset ps \<and> list_all2 (\<lambda>(st, eur) p. parseRFC3339 W st = Inr (fAt p) \<and> fPrice p = eur) raw qs)"
  using sorted_convertIntervals [OF assms] by (auto simp: convertIntervalsLoop_points)

lemma convertIntervals_succeeds:
  "(\<exists>ps. convertIntervals W raw = Inr ps) \<longleftrightarrow> list_all (\<lambda>(st, eur). \<exists>t. parseRFC3339 W st = Inr t) raw"
proof -
  have "(\<exists>ps. convertIntervals W raw = Inr ps) \<longleftrightarrow> (\<exists>ps. convertIntervalsLoop W 0 raw = Inr ps)"
    by (auto simp: convertIntervals_def split: sum.splits)
  moreover have "(\<exists>p :: fpoint. (\<lambda>(st, eur) p. parseRFC3339 W st = Inr (fAt p) \<and> fPrice p = eur) r p) \<longleftrightarrow>
      (\<lambda>(st, eur). \<exists>t. parseRFC3339 W st = Inr t) r" for r
    by (cases r) (auto simp: ex_fpoint)
  ultimately show ?thesis unfolding convertIntervalsLoop_points ex_list_all2 by (simp only:)
qed

lemma parseResponse_points:
  assumes "sortsPoints W" "parseResponse W body = Inr ps"
  shows "sorted (map fAt ps) \<and> ps \<noteq> [] \<and>
      (\<exists>base qs. jsonEnergyZero W body = Inr (''RESPONSE_INTERVAL_QUARTER'', base) \<and> mset qs = mset ps \<and>
        list_all2 (\<lambda>(st, price) p. parseRFC3339 W st = Inr (fAt p) \<and>
          (\<exists>x. parseFloat W price = Inr x \<and> isFinite x \<and> fPrice p = times1000 W x)) base qs)"
proof -
  obtain base qs where qs: "jsonEnergyZero W body = Inr (''RESPONSE_INTERVAL_QUARTER'', base)" "base \<noteq> []"
    "energyzeroLoop W 0 base = Inr qs" "ps = sortSlice W pointBefore qs"
    using assms(2) by (auto simp: parseResponse_def split: sum.splits if_splits)
  have ps: "mset ps = mset qs" "sorted (map fAt ps)" using sortsPoints_time(2) [OF assms(1)] qs(4) by auto
  note pts = qs(3) [unfolded energyzeroLoop_points]
  then have "qs \<noteq> []" using qs(2) by auto
  then have "ps \<noteq> []" using ps by auto
  then show ?thesis using qs(1) ps pts by (intro conjI exI [of _ base] exI [of _ qs]) simp_all
qed

text \<open>
  What a provider receives: the items its decoder reads from the body of the response to the request it
  builds, when the status is 200 and the body is within the limit of the provider.
\<close>

definition customReceived :: "web \<Rightarrow> string \<Rightarrow> string \<Rightarrow> string \<Rightarrow> time \<Rightarrow> (string \<times> gofloat) list \<Rightarrow> bool" where
  "customReceived W u bearerToken biddingZone date raw \<longleftrightarrow>
     (\<exists>rq resp body. customRequest W u bearerToken biddingZone date = Inr rq \<and> httpDo W rq = Inr resp \<and>
        rsStatus resp = StatusOK \<and> ReadLimitedBody (rsBody resp) customMaxBodyBytes = Inr body \<and> jsonIntervals W body = Inr raw)"

definition energyzeroReceived :: "web \<Rightarrow> string \<Rightarrow> time \<Rightarrow> string \<times> (string \<times> string) list \<Rightarrow> bool" where
  "energyzeroReceived W baseURL date resolved \<longleftrightarrow>
     (\<exists>rq resp body. energyzeroNewRequest W baseURL date = Inr rq \<and> httpDo W rq = Inr resp \<and>
        rsStatus resp = StatusOK \<and> ReadLimitedBody (rsBody resp) largeMaxBodyBytes = Inr body \<and> jsonEnergyZero W body = Inr resolved)"

lemma customFetchPrices_iff:
  "customFetchPrices W u token zone date = Inr ps \<longleftrightarrow>
     (\<exists>raw. customReceived W u token zone date raw \<and> convertIntervals W raw = Inr ps)"
  by (auto simp: customFetchPrices_def customReceived_def split: sum.splits if_splits)

lemma energyzeroFetchPrices_iff:
  "energyzeroFetchPrices W u zone date = Inr ps \<longleftrightarrow>
     (\<exists>rq resp body. energyzeroNewRequest W u date = Inr rq \<and> httpDo W rq = Inr resp \<and> rsStatus resp = StatusOK \<and>
        ReadLimitedBody (rsBody resp) largeMaxBodyBytes = Inr body \<and> parseResponse W body = Inr ps)"
  by (auto simp: energyzeroFetchPrices_def split: sum.splits if_splits)

lemma parseResponse_succeeds:
  "(\<exists>ps. parseResponse W body = Inr ps) \<longleftrightarrow>
     (\<exists>base. jsonEnergyZero W body = Inr (''RESPONSE_INTERVAL_QUARTER'', base) \<and> base \<noteq> [] \<and>
        list_all (\<lambda>(st, price). (\<exists>t. parseRFC3339 W st = Inr t) \<and> (\<exists>x. parseFloat W price = Inr x \<and> isFinite x)) base)"
proof -
  have item: "(\<exists>p :: fpoint. (\<lambda>(st, price) p. parseRFC3339 W st = Inr (fAt p) \<and>
        (\<exists>x. parseFloat W price = Inr x \<and> isFinite x \<and> fPrice p = times1000 W x)) r p) \<longleftrightarrow>
      (\<lambda>(st, price). (\<exists>t. parseRFC3339 W st = Inr t) \<and> (\<exists>x. parseFloat W price = Inr x \<and> isFinite x)) r" for r
    by (cases r) (auto simp: ex_fpoint)
  have "(\<exists>ps. energyzeroLoop W 0 base = Inr ps) \<longleftrightarrow>
      list_all (\<lambda>(st, price). (\<exists>t. parseRFC3339 W st = Inr t) \<and> (\<exists>x. parseFloat W price = Inr x \<and> isFinite x)) base" for base
    unfolding energyzeroLoop_points ex_list_all2 by (simp only: item)
  from this [symmetric] show ?thesis by (auto simp: parseResponse_def split: sum.splits if_splits)
qed

text \<open>
  C38: A fetch of \<open>customProvider\<close> or \<open>energyzero\<close> succeeds exactly when the response to its request has
  status 200, a body within the limit and items that all parse (for energyzero at least one item, in
  quarter hours, with finite prices). It then returns the items of that response in time order: a
  rearrangement of them with their own start and price, for energyzero 1000 times the price per kWh.
\<close>

theorem sorted_provider_results:
  assumes "sortsPoints W"
  shows "(customFetchPrices W u token zone date = Inr ps \<longrightarrow> sorted (map fAt ps) \<and>
      (\<exists>raw qs. customReceived W u token zone date raw \<and> mset qs = mset ps \<and>
        list_all2 (\<lambda>(st, eur) p. parseRFC3339 W st = Inr (fAt p) \<and> fPrice p = eur) raw qs)) \<and>
    ((\<exists>ps. customFetchPrices W u token zone date = Inr ps) \<longleftrightarrow>
      (\<exists>raw. customReceived W u token zone date raw \<and> list_all (\<lambda>(st, eur). \<exists>t. parseRFC3339 W st = Inr t) raw)) \<and>
    (energyzeroFetchPrices W baseURL zone date = Inr ps \<longrightarrow> sorted (map fAt ps) \<and> ps \<noteq> [] \<and>
      (\<exists>base qs. energyzeroReceived W baseURL date (''RESPONSE_INTERVAL_QUARTER'', base) \<and> mset qs = mset ps \<and>
        list_all2 (\<lambda>(st, price) p. parseRFC3339 W st = Inr (fAt p) \<and>
          (\<exists>x. parseFloat W price = Inr x \<and> isFinite x \<and> fPrice p = times1000 W x)) base qs)) \<and>
    ((\<exists>ps. energyzeroFetchPrices W baseURL zone date = Inr ps) \<longleftrightarrow>
      (\<exists>base. energyzeroReceived W baseURL date (''RESPONSE_INTERVAL_QUARTER'', base) \<and> base \<noteq> [] \<and>
        list_all (\<lambda>(st, price). (\<exists>t. parseRFC3339 W st = Inr t) \<and> (\<exists>x. parseFloat W price = Inr x \<and> isFinite x)) base))"
proof (intro conjI)
  show "customFetchPrices W u token zone date = Inr ps \<longrightarrow> sorted (map fAt ps) \<and>
      (\<exists>raw qs. customReceived W u token zone date raw \<and> mset qs = mset ps \<and>
        list_all2 (\<lambda>(st, eur) p. parseRFC3339 W st = Inr (fAt p) \<and> fPrice p = eur) raw qs)"
    unfolding customFetchPrices_iff using convertIntervals_points [OF assms] by blast
  show "(\<exists>ps. customFetchPrices W u token zone date = Inr ps) \<longleftrightarrow>
      (\<exists>raw. customReceived W u token zone date raw \<and> list_all (\<lambda>(st, eur). \<exists>t. parseRFC3339 W st = Inr t) raw)"
    unfolding customFetchPrices_iff using convertIntervals_succeeds [of W] by blast
  show "energyzeroFetchPrices W baseURL zone date = Inr ps \<longrightarrow> sorted (map fAt ps) \<and> ps \<noteq> [] \<and>
      (\<exists>base qs. energyzeroReceived W baseURL date (''RESPONSE_INTERVAL_QUARTER'', base) \<and> mset qs = mset ps \<and>
        list_all2 (\<lambda>(st, price) p. parseRFC3339 W st = Inr (fAt p) \<and>
          (\<exists>x. parseFloat W price = Inr x \<and> isFinite x \<and> fPrice p = times1000 W x)) base qs)"
    unfolding energyzeroFetchPrices_iff energyzeroReceived_def using parseResponse_points [OF assms] by blast
  show "(\<exists>ps. energyzeroFetchPrices W baseURL zone date = Inr ps) \<longleftrightarrow>
      (\<exists>base. energyzeroReceived W baseURL date (''RESPONSE_INTERVAL_QUARTER'', base) \<and> base \<noteq> [] \<and>
        list_all (\<lambda>(st, price). (\<exists>t. parseRFC3339 W st = Inr t) \<and> (\<exists>x. parseFloat W price = Inr x \<and> isFinite x)) base)"
    unfolding energyzeroFetchPrices_iff energyzeroReceived_def using parseResponse_succeeds [of W] by blast
qed

theorem sorted_provider_results_witness:
  "customFetchPrices demoWeb ''http://prices'' ''abc'' ''NL'' 0 = Inr [\<lparr>fAt = 0, fPrice = Finite 3\<rparr>, \<lparr>fAt = hour, fPrice = Finite 7\<rparr>] \<and>
   sorted (map fAt [\<lparr>fAt = 0, fPrice = Finite 3\<rparr>, \<lparr>fAt = hour, fPrice = Finite 7\<rparr>]) \<and>
   (\<exists>raw qs. customReceived demoWeb ''http://prices'' ''abc'' ''NL'' 0 raw \<and>
     mset qs = mset [\<lparr>fAt = 0, fPrice = Finite 3\<rparr>, \<lparr>fAt = hour, fPrice = Finite 7\<rparr>] \<and>
     list_all2 (\<lambda>(st, eur) p. parseRFC3339 demoWeb st = Inr (fAt p) \<and> fPrice p = eur) raw qs)"
proof -
  have run: "customFetchPrices demoWeb ''http://prices'' ''abc'' ''NL'' 0 = Inr [\<lparr>fAt = 0, fPrice = Finite 3\<rparr>, \<lparr>fAt = hour, fPrice = Finite 7\<rparr>]"
    by code_simp
  from sorted_provider_results [OF sortsPoints_demoWeb, THEN conjunct1, THEN mp, OF run] run show ?thesis
    by simp
qed

text \<open>
  ENTSO-E points. When the periods of the document follow each other and the positions in each grow,
  the provider returns the points in strictly increasing time, which its interface asks for; it does
  not sort, so nothing is promised for other documents.
\<close>

theorem entsoe_points_in_time_order:
  assumes "xmlPublication W body = Inr tss" "inTimeOrder W (concat tss)" "parsePublication W body = Inr ps"
  shows "sorted_wrt (<) (map fAt ps)"
  using convertPeriods_sorted [OF assms(2)] assms(1,3) by (simp add: parsePublication_def)

theorem entsoe_points_in_time_order_witness:
  "sorted_wrt (<) (map fAt [\<lparr>fAt = 0, fPrice = Finite 5\<rparr>, \<lparr>fAt = hour, fPrice = Finite 6\<rparr>, \<lparr>fAt = 24 * hour, fPrice = Finite 4\<rparr>])"
proof (rule entsoe_points_in_time_order [where W = demoWeb and body = "''xml''" and tss =
       "[[\<lparr>prStart = ''early'', prResolution = ''PT60M'', prPoints = [\<lparr>ptPosition = 1, ptPriceAmount = Finite 5\<rparr>, \<lparr>ptPosition = 2, ptPriceAmount = Finite 6\<rparr>]\<rparr>],
        [\<lparr>prStart = ''late'', prResolution = ''PT15M'', prPoints = [\<lparr>ptPosition = 1, ptPriceAmount = Finite 4\<rparr>]\<rparr>]]"])
qed (simp_all add: demoWeb_def parsePublication_def convertPeriod_def parseResolution_def parseTime_def pointAt_def
    inTimeOrder_def precedes_def smallPositions_def go_defs)

end
