(* ===== verification/Price_Source.thy ===== *)
theory Price_Source
  imports Providers Status
begin

text \<open>
  The EnergyPriceSource controller, \<open>internal/controller/energypricesource_controller.go\<close>: when prices
  are refreshed, which Secret the token comes from, and what the status keeps.

  Parameters: the API client (\<open>epsClient\<close>), the cron library (\<open>cronParse\<close>), the provider registry, and
  \<open>oops.Wrapf\<close> of the package \<open>samber/oops\<close> (\<open>wrapf\<close>). Each reading of the clock is a field of
  \<open>epsClock\<close>.
\<close>

section \<open>Definitions\<close>

record eps =
  psNamespace :: string
  psName :: string
  psSpec :: epsSpec
  psLastUpdated :: "time option"
  psPrices :: "fpoint list"
  psConditions :: "condition list"

record 's epsClient =
  getEPS :: "string \<Rightarrow> string \<Rightarrow> 's \<Rightarrow> kerr + eps"
  getSecret :: "string \<Rightarrow> string \<Rightarrow> 's \<Rightarrow> kerr + (string \<rightharpoonup> string)"
  patchEPSStatus :: "eps \<Rightarrow> eps \<Rightarrow> 's \<Rightarrow> kerr option \<times> 's"
  kerrText :: "kerr \<Rightarrow> string"

record epsClock =
  ckCache :: time
  ckCacheUntil :: time
  ckFire :: time
  ckFireUntil :: time
  ckFireRequeue :: time
  ckDate :: time
  ckUpdated :: time
  ckNextFire :: time
  ckNextUntil :: time
  ckStatus :: time

datatype eps_failure =
    EpsCall string kerr
  | EpsConditionNotSaved perr kerr

definition readSecretKey :: "('s, 'm) epsClient_scheme \<Rightarrow> string \<Rightarrow> secretRef \<Rightarrow> 's \<Rightarrow> perr + string" where
  "readSecretKey C namespace ref s =
     (let key = namespace @ ''/'' @ skName ref in
      case getSecret C namespace (skName ref) s of
        Inl e \<Rightarrow> Inl (Wrap (''reading secret '' @ key) (Msg (kerrText C e)))
      | Inr secretData \<Rightarrow>
          (case secretData (skKey ref) of
             None \<Rightarrow> Inl (Msg (''key '' @ Quote (skKey ref) @ '' not found in secret '' @ key))
           | Some value \<Rightarrow> Inr value))"

definition resolveToken :: "('s, 'm) epsClient_scheme \<Rightarrow> eps \<Rightarrow> 's \<Rightarrow> perr + string" where
  "resolveToken C e s =
     (let spec = psSpec e in
      if spProvider spec = customProviderName then
        (case spCustom spec of
           None \<Rightarrow> Inr ''''
         | Some cfg \<Rightarrow> (case ccSecretRef cfg of None \<Rightarrow> Inr '''' | Some ref \<Rightarrow> readSecretKey C (psNamespace e) ref s))
      else if spProvider spec = entsoeProviderName then
        (case spEntsoe spec of
           None \<Rightarrow> Inl (Msg (''entsoeConfig is required for provider '' @ Quote ''entsoe''))
         | Some cfg \<Rightarrow> readSecretKey C (psNamespace e) (ecSecretRef cfg) s)
      else if spProvider spec = eneverProviderName then
        (case spEnever spec of
           None \<Rightarrow> Inl (Msg (''eneverConfig is required for provider '' @ Quote ''enever''))
         | Some cfg \<Rightarrow> readSecretKey C (psNamespace e) (nvSecretRef cfg) s)
      else Inr '''')"

definition retryError :: duration where "retryError = 5 * minute"

definition setErrorCondition ::
  "('s, 'm) epsClient_scheme \<Rightarrow> epsClock \<Rightarrow> eps \<Rightarrow> eps \<Rightarrow> perr \<Rightarrow> 's \<Rightarrow> (result \<times> eps_failure option) \<times> 's" where
  "setErrorCondition C clk base e err s =
     (case patchEPSStatus C base
             (e\<lparr>psConditions := setCondition (psConditions e)
                 \<lparr>cType = conditionTypeReady, cStatus = ConditionFalse, cReason = conditionReasonError,
                  cMessage = perrText err, cLastTransitionTime = ckStatus clk\<rparr>\<rparr>) s of
        (Some x, s') \<Rightarrow> ((noRequeue, Some (EpsConditionNotSaved err x)), s')
      | (None, s') \<Rightarrow> ((requeueAfter retryError, None), s'))"

definition defaultRefreshSchedule :: string where "defaultRefreshSchedule = ''0 0,6,12,18 * * *''"

definition refreshSchedule :: "eps \<Rightarrow> string" where
  "refreshSchedule e = (if spRefreshSchedule (psSpec e) = '''' then defaultRefreshSchedule else spRefreshSchedule (psSpec e))"

text \<open>The status after a successful fetch.\<close>

definition refreshedStatus :: "epsClock \<Rightarrow> eps \<Rightarrow> fpoint list \<Rightarrow> eps" where
  "refreshedStatus clk e prices =
     e\<lparr>psLastUpdated := Some (ckUpdated clk), psPrices := prices,
       psConditions := setCondition (psConditions e)
         \<lparr>cType = conditionTypeReady, cStatus = ConditionTrue, cReason = conditionReasonReady,
          cMessage = ''fetched '' @ Itoa (int (length prices)) @ '' price intervals'',
          cLastTransitionTime = ckUpdated clk\<rparr>\<rparr>"

text \<open>From the token on: resolve, construct the provider, fetch, store.\<close>

definition refresh ::
  "('s, 'm) epsClient_scheme \<Rightarrow> (perr \<Rightarrow> string \<Rightarrow> perr) \<Rightarrow> registry \<Rightarrow> epsClock \<Rightarrow> (time \<Rightarrow> time) \<Rightarrow> eps \<Rightarrow> 's \<Rightarrow>
     (result \<times> eps_failure option) \<times> 's" where
  "refresh C wrapf reg clk schedule e s =
     (case resolveToken C e s of
        Inl err \<Rightarrow> setErrorCondition C clk e e err s
      | Inr token \<Rightarrow>
          (case registryGet reg (spProvider (psSpec e)) (psSpec e) token of
             Inl err \<Rightarrow> setErrorCondition C clk e e (Wrap (''getting provider '' @ Quote (spProvider (psSpec e))) err) s
           | Inr provider \<Rightarrow>
               (case provider (spBiddingZone (psSpec e)) (ckDate clk) of
                  Inl err \<Rightarrow> setErrorCondition C clk e e
                               (wrapf err (''fetching prices from provider '' @ Quote (spProvider (psSpec e)))) s
                | Inr prices \<Rightarrow>
                    (case patchEPSStatus C e (refreshedStatus clk e prices) s of
                       (Some x, s') \<Rightarrow> ((noRequeue, Some (EpsCall ''updating EnergyPriceSource status'' x)), s')
                     | (None, s') \<Rightarrow>
                         ((requeueAfter (time_Sub (schedule (ckNextFire clk)) (ckNextUntil clk)), None), s')))))"

definition reconcileEPS ::
  "('s, 'm) epsClient_scheme \<Rightarrow> (perr \<Rightarrow> string \<Rightarrow> perr) \<Rightarrow> (string \<Rightarrow> string + (time \<Rightarrow> time)) \<Rightarrow> registry \<Rightarrow>
     epsClock \<Rightarrow> string \<Rightarrow> string \<Rightarrow> 's \<Rightarrow> (result \<times> eps_failure option) \<times> 's" where
  "reconcileEPS C wrapf cronParse reg clk reqNamespace reqName s =
     (case getEPS C reqNamespace reqName s of
        Inl x \<Rightarrow> ((noRequeue, if x = NotFound then None else Some (EpsCall ''fetching EnergyPriceSource'' x)), s)
      | Inr e \<Rightarrow>
          (case (case psLastUpdated e of
                   None \<Rightarrow> None
                 | Some t \<Rightarrow> let expires = t + spCacheTTL (psSpec e)
                             in if ckCache clk < expires then Some expires else None) of
             Some expires \<Rightarrow> ((requeueAfter (time_Sub expires (ckCacheUntil clk)), None), s)
           | None \<Rightarrow>
               (case cronParse (refreshSchedule e) of
                  Inl err \<Rightarrow> setErrorCondition C clk e e
                               (Wrap (''invalid refreshSchedule '' @ Quote (refreshSchedule e)) (Msg err)) s
                | Inr schedule \<Rightarrow>
                    (let nextFire = schedule (ckFire clk - second) in
                     if time_Sub nextFire (ckFireUntil clk) > minute
                     then ((requeueAfter (time_Sub nextFire (ckFireRequeue clk)), None), s)
                     else refresh C wrapf reg clk schedule e s))))"

section \<open>The client\<close>

definition ekey :: "eps \<Rightarrow> string \<times> string" where
  "ekey e = (psNamespace e, psName e)"

definition savedEPS :: "eps \<Rightarrow> eps" where
  "savedEPS e = e\<lparr>psLastUpdated := map_option wholeSeconds (psLastUpdated e),
     psPrices := map (\<lambda>p. p\<lparr>fAt := wholeSeconds (fAt p)\<rparr>) (psPrices e)\<rparr>"

definition finitePrices :: "fpoint list \<Rightarrow> bool" where
  "finitePrices ps \<longleftrightarrow> list_all (\<lambda>p. isFinite (fPrice p)) ps"

text \<open>
  What the API server promises. Stored times are whole seconds, and JSON has no form for NaN and the
  infinities, so a status that holds one is not saved.
\<close>

locale eps_api =
  fixes C :: "('s, 'm) epsClient_scheme"
    and sources :: "'s \<Rightarrow> string \<times> string \<rightharpoonup> eps"
  assumes source_key: "sources s key = Some e \<Longrightarrow> ekey e = key \<and> savedEPS e = e"
    and get_source: "getEPS C ns n s = Inr e \<Longrightarrow> sources s (ns, n) = Some e"
    and status_saved: "patchEPSStatus C base e s = (None, s') \<Longrightarrow> sources s (ekey base) = Some base \<Longrightarrow> ekey e = ekey base \<Longrightarrow>
      sources s' = (sources s)(ekey base \<mapsto> savedEPS e) \<and> finitePrices (psPrices e)"
    and status_lost: "patchEPSStatus C base e s = (Some x, s') \<Longrightarrow> sources s' = sources s"

section \<open>A reference client\<close>

record epsMemState =
  mSources :: "((string \<times> string) \<times> eps) list"
  mSecrets :: "((string \<times> string) \<times> (string \<rightharpoonup> string)) list"

definition nameEPS :: "string \<times> string \<Rightarrow> eps \<Rightarrow> eps" where
  "nameEPS key e = (savedEPS e)\<lparr>psNamespace := fst key, psName := snd key\<rparr>"

definition memSources :: "epsMemState \<Rightarrow> string \<times> string \<rightharpoonup> eps" where
  "memSources s key = map_option (nameEPS key) (map_of (mSources s) key)"

definition memEpsClient :: "kerr option \<Rightarrow> epsMemState epsClient" where
  "memEpsClient fault =
     \<lparr>getEPS = (\<lambda>ns n s. case memSources s (ns, n) of None \<Rightarrow> Inl NotFound | Some e \<Rightarrow> Inr e),
      getSecret = (\<lambda>ns n s. case map_of (mSecrets s) (ns, n) of None \<Rightarrow> Inl NotFound | Some d \<Rightarrow> Inr d),
      patchEPSStatus = (\<lambda>base e s. case fault of
          Some x \<Rightarrow> (Some x, s)
        | None \<Rightarrow> if \<not> finitePrices (psPrices e) then (Some (ApiError ''unsupported value''), s)
                  else (None, s\<lparr>mSources := alistPut (ekey base) e (mSources s)\<rparr>)),
      kerrText = (\<lambda>_. ''error'')\<rparr>"

lemma savedEPS_simps [simp]: "ekey (savedEPS e) = ekey e" "savedEPS (savedEPS e) = savedEPS e"
  "psNamespace (savedEPS e) = psNamespace e" "psName (savedEPS e) = psName e"
  "psConditions (savedEPS e) = psConditions e" "psSpec (savedEPS e) = psSpec e"
  by (simp_all add: savedEPS_def ekey_def option.map_comp comp_def)

lemma savedEPS_rename: "savedEPS (e\<lparr>psNamespace := a, psName := b\<rparr>) = (savedEPS e)\<lparr>psNamespace := a, psName := b\<rparr>"
  by (simp add: savedEPS_def)

lemma nameEPS_simps [simp]: "ekey (nameEPS key e) = key" "savedEPS (nameEPS key e) = nameEPS key e"
  "ekey e = key \<Longrightarrow> nameEPS key e = savedEPS e"
  by (auto simp: nameEPS_def savedEPS_rename) (auto simp: ekey_def savedEPS_def)

lemma memSources_put:
  assumes "memSources s (ekey base) = Some base" "ekey e = ekey base"
  shows "memSources (s\<lparr>mSources := alistPut (ekey base) e (mSources s)\<rparr>) = (memSources s)(ekey base \<mapsto> savedEPS e)"
proof
  fix key
  have "ekey base \<in> fst ` set (mSources s)"
    using assms(1) by (auto simp: memSources_def dest: map_of_SomeD intro: rev_image_eqI)
  then show "memSources (s\<lparr>mSources := alistPut (ekey base) e (mSources s)\<rparr>) key = ((memSources s)(ekey base \<mapsto> savedEPS e)) key"
    using assms(2) by (simp add: memSources_def map_of_alistPut)
qed

interpretation memEps: eps_api "memEpsClient fault" memSources for fault
  by unfold_locales (auto simp: memEpsClient_def memSources_def memSources_put split: option.splits if_splits)

section \<open>What a reconciliation stores\<close>

definition failedStatus :: "epsClock \<Rightarrow> eps \<Rightarrow> perr \<Rightarrow> eps" where
  "failedStatus clk e err = e\<lparr>psConditions := setCondition (psConditions e)
     \<lparr>cType = conditionTypeReady, cStatus = ConditionFalse, cReason = conditionReasonError,
      cMessage = perrText err, cLastTransitionTime = ckStatus clk\<rparr>\<rparr>"

text \<open>The prices are still valid, or the refresh schedule fires more than a minute ahead.\<close>

definition cached :: "epsClock \<Rightarrow> eps \<Rightarrow> bool" where
  "cached clk e \<longleftrightarrow> (\<exists>t. psLastUpdated e = Some t \<and> ckCache clk < t + spCacheTTL (psSpec e))"

definition due :: "(string \<Rightarrow> string + (time \<Rightarrow> time)) \<Rightarrow> epsClock \<Rightarrow> eps \<Rightarrow> bool" where
  "due cronParse clk e \<longleftrightarrow> \<not> cached clk e \<and>
     (\<exists>schedule. cronParse (refreshSchedule e) = Inr schedule \<and>
       time_Sub (schedule (ckFire clk - second)) (ckFireUntil clk) \<le> minute)"

text \<open>A successful fetch by the provider the spec names, with the token from its own Secret.\<close>

definition fetched :: "('s, 'm) epsClient_scheme \<Rightarrow> registry \<Rightarrow> epsClock \<Rightarrow> eps \<Rightarrow> 's \<Rightarrow> fpoint list \<Rightarrow> bool" where
  "fetched C reg clk e s prices \<longleftrightarrow>
     (\<exists>token provider. resolveToken C e s = Inr token \<and>
        registryGet reg (spProvider (psSpec e)) (psSpec e) token = Inr provider \<and>
        provider (spBiddingZone (psSpec e)) (ckDate clk) = Inr prices)"

lemma setErrorCondition_eq:
  "setErrorCondition C clk base e err s =
     (case patchEPSStatus C base (failedStatus clk e err) s of
        (Some x, s') \<Rightarrow> ((noRequeue, Some (EpsConditionNotSaved err x)), s')
      | (None, s') \<Rightarrow> ((requeueAfter retryError, None), s'))"
  by (simp add: setErrorCondition_def failedStatus_def)

lemma failedStatus_simps [simp]:
  "ekey (failedStatus clk e err) = ekey e" "psPrices (failedStatus clk e err) = psPrices e"
  "psLastUpdated (failedStatus clk e err) = psLastUpdated e" "psSpec (failedStatus clk e err) = psSpec e"
  by (simp_all add: failedStatus_def ekey_def)

lemma savedEPS_failed: "savedEPS e = e \<Longrightarrow> savedEPS (failedStatus clk e err) = failedStatus clk e err"
  by (simp add: savedEPS_def failedStatus_def) (metis (no_types, lifting) eps.surjective eps.update_convs(4,5,6) eps.select_convs)

lemma cached_iff:
  "(case psLastUpdated e of
      None \<Rightarrow> None
    | Some t \<Rightarrow> let expires = t + spCacheTTL (psSpec e) in if ckCache clk < expires then Some expires else None) = None
   \<longleftrightarrow> \<not> cached clk e"
  by (auto simp: cached_def Let_def split: option.splits)

lemma reconcileEPS_due:
  assumes "getEPS C ns n s = Inr e" "due cronParse clk e"
  obtains schedule where "reconcileEPS C wrapf cronParse reg clk ns n s = refresh C wrapf reg clk schedule e s"
proof -
  from assms(2) obtain schedule where nc: "\<not> cached clk e" and sch: "cronParse (refreshSchedule e) = Inr schedule"
    "time_Sub (schedule (ckFire clk - second)) (ckFireUntil clk) \<le> minute" by (auto simp: due_def)
  have "reconcileEPS C wrapf cronParse reg clk ns n s = refresh C wrapf reg clk schedule e s"
    unfolding reconcileEPS_def assms(1) using nc [folded cached_iff] sch by (simp add: Let_def)
  then show ?thesis by (rule that)
qed

context eps_api
begin

lemma failure_any:
  assumes "setErrorCondition C clk e e err s = ((r, f), s')" "sources s (ekey e) = Some e"
  shows "(sources s' = sources s \<and> f \<noteq> None) \<or>
    (f = None \<and> r = requeueAfter retryError \<and> sources s' = (sources s)(ekey e \<mapsto> failedStatus clk e err))"
proof -
  obtain x t where x: "patchEPSStatus C e (failedStatus clk e err) s = (x, t)" by fastforce
  have "savedEPS (failedStatus clk e err) = failedStatus clk e err"
    using source_key [OF assms(2)] by (simp add: savedEPS_failed)
  then show ?thesis
    using assms x status_saved [of e "failedStatus clk e err" s t] status_lost [of e "failedStatus clk e err" s]
    by (cases x) (auto simp: setErrorCondition_eq)
qed

lemma refresh_any:
  assumes "refresh C wrapf reg clk schedule e s = ((r, f), s')" "sources s (ekey e) = Some e"
  shows "sources s' = sources s \<or> (\<exists>err. sources s' = (sources s)(ekey e \<mapsto> failedStatus clk e err)) \<or>
    (\<exists>prices. fetched C reg clk e s prices \<and> finitePrices prices \<and>
      sources s' = (sources s)(ekey e \<mapsto> savedEPS (refreshedStatus clk e prices)))"
proof (cases "\<exists>prices. fetched C reg clk e s prices")
  case True
  then obtain prices where p: "fetched C reg clk e s prices" by blast
  obtain x t where x: "patchEPSStatus C e (refreshedStatus clk e prices) s = (x, t)" by fastforce
  have s': "s' = t" using assms(1) p x by (auto simp: refresh_def fetched_def split: option.splits)
  have "ekey (refreshedStatus clk e prices) = ekey e" "psPrices (refreshedStatus clk e prices) = prices"
    by (simp_all add: refreshedStatus_def ekey_def)
  then show ?thesis
    using x s' p assms(2) status_saved [of e "refreshedStatus clk e prices" s t] status_lost [of e "refreshedStatus clk e prices" s]
    by (cases x) auto
next
  case False
  then obtain err where "setErrorCondition C clk e e err s = ((r, f), s')"
    using assms(1) by (auto simp: refresh_def fetched_def split: sum.splits)
  from failure_any [OF this assms(2)] show ?thesis by blast
qed

lemma reconcileEPS_any:
  assumes "reconcileEPS C wrapf cronParse reg clk ns n s = ((r, f), s')" "sources s (ns, n) = Some e"
  shows "sources s' = sources s \<or> (\<exists>err. sources s' = (sources s)((ns, n) \<mapsto> failedStatus clk e err)) \<or>
    (\<exists>prices. due cronParse clk e \<and> fetched C reg clk e s prices \<and> finitePrices prices \<and>
      sources s' = (sources s)((ns, n) \<mapsto> savedEPS (refreshedStatus clk e prices)))"
proof (cases "getEPS C ns n s")
  case (Inl x)
  then show ?thesis using assms(1) by (simp add: reconcileEPS_def)
next
  case (Inr e1)
  have e: "e1 = e" using get_source [OF Inr] assms(2) by simp
  have key: "ekey e = (ns, n)" using source_key [OF assms(2)] by simp
  have stored: "sources s (ekey e) = Some e" using assms(2) key by simp
  note run = assms(1) [unfolded reconcileEPS_def Inr e, simplified]
  show ?thesis
  proof (cases "cached clk e")
    case True
    then have "s' = s" using run by (auto simp: cached_def Let_def)
    then show ?thesis by simp
  next
    case nc: False
    note run' = run [unfolded nc [folded cached_iff], simplified]
    show ?thesis
    proof (cases "cronParse (refreshSchedule e)")
      case (Inl err)
      then show ?thesis using run' failure_any [OF _ stored] key by fastforce
    next
      case sch: (Inr schedule)
      show ?thesis
      proof (cases "time_Sub (schedule (ckFire clk - second)) (ckFireUntil clk) > minute")
        case True
        then show ?thesis using run' sch by (simp add: Let_def)
      next
        case False
        then have "refresh C wrapf reg clk schedule e s = ((r, f), s')" using run' sch by (simp add: Let_def)
        from refresh_any [OF this stored] show ?thesis
          using False sch nc key by (auto simp: due_def not_less)
      qed
    qed
  qed
qed

end

section \<open>Examples\<close>

definition epsAt :: "time \<Rightarrow> epsClock" where
  "epsAt t = \<lparr>ckCache = t, ckCacheUntil = t, ckFire = t, ckFireUntil = t, ckFireRequeue = t, ckDate = t,
     ckUpdated = t, ckNextFire = t, ckNextUntil = t, ckStatus = t\<rparr>"

definition sixHourly :: "string \<Rightarrow> string + (time \<Rightarrow> time)" where
  "sixHourly _ = Inr (\<lambda>t. (t div (6 * hour) + 1) * (6 * hour))"

definition eneverSpec :: epsSpec where
  "eneverSpec = \<lparr>spProvider = ''enever'', spBiddingZone = ''NL'', spRefreshSchedule = '''', spCacheTTL = hour,
     spCustom = None, spEntsoe = None,
     spEnever = Some \<lparr>nvSecretRef = \<lparr>skName = ''creds'', skKey = ''token''\<rparr>, nvSupplier = ''''\<rparr>\<rparr>"

definition customSpec :: epsSpec where
  "customSpec = eneverSpec\<lparr>spProvider := ''customProvider'', spEnever := None,
     spCustom := Some \<lparr>ccURL = ''https://prices'', ccSecretRef = None\<rparr>\<rparr>"

definition demoEPS :: "epsSpec \<Rightarrow> eps" where
  "demoEPS spec = \<lparr>psNamespace = ''ns'', psName = ''prices'', psSpec = spec, psLastUpdated = None, psPrices = [], psConditions = []\<rparr>"

definition demoSources :: "epsSpec \<Rightarrow> epsMemState" where
  "demoSources spec = \<lparr>mSources = [((''ns'', ''prices''), demoEPS spec)], mSecrets = [((''ns'', ''creds''), [''token'' \<mapsto> ''s3cret''])]\<rparr>"

definition offline :: web where
  "offline = demoWeb\<lparr>send := \<lambda>_. Inl ''connection refused''\<rparr>"

definition wrapText :: "perr \<Rightarrow> string \<Rightarrow> perr" where
  "wrapText e m = Wrap m e"

lemma demoSources_stored: "memSources (demoSources spec) (''ns'', ''prices'') = Some (demoEPS spec)"
  by (simp add: memSources_def demoSources_def nameEPS_def savedEPS_def demoEPS_def)

definition onlineRun :: "(result \<times> eps_failure option) \<times> epsMemState" where
  "onlineRun = reconcileEPS (memEpsClient None) wrapText sixHourly (mainRegistry demoWeb) (epsAt (6 * hour)) ''ns'' ''prices'' (demoSources customSpec)"

definition offlineRun :: "(result \<times> eps_failure option) \<times> epsMemState" where
  "offlineRun = reconcileEPS (memEpsClient None) wrapText sixHourly (mainRegistry offline) (epsAt (6 * hour)) ''ns'' ''prices'' (demoSources eneverSpec)"

section \<open>Properties\<close>

text \<open>
  C10: A reconciliation either keeps the source as it is up to its conditions (name, spec, stored prices
  and their time), or replaces the prices and their time by the result of a successful fetch that was
  due, made by the provider the spec names with the token from the Secret of that provider, and whose
  prices are all finite; name and spec stay then too. A failure of any kind loses no prices, also after
  the cache has expired, and no other source changes.
\<close>

theorem eps_keeps_or_refreshes:
  assumes "eps_api C sources" "reconcileEPS C wrapf cronParse reg clk ns n s = (res, s')"
    and "sources s (ns, n) = Some e" "sources s' (ns, n) = Some e'"
  shows "((\<exists>cs. e' = e\<lparr>psConditions := cs\<rparr>) \<or>
      (\<exists>prices. due cronParse clk e \<and> fetched C reg clk e s prices \<and> finitePrices prices \<and>
        e' = savedEPS (refreshedStatus clk e prices))) \<and>
    psSpec e' = psSpec e \<and> (psNamespace e', psName e') = (ns, n) \<and>
    (\<forall>key. key \<noteq> (ns, n) \<longrightarrow> sources s' key = sources s key)"
proof -
  have key: "(psNamespace e', psName e') = (ns, n)"
    using eps_api.source_key [OF assms(1,4)] by (simp add: ekey_def)
  have same: "\<exists>cs. e = e\<lparr>psConditions := cs\<rparr>" by (rule exI [of _ "psConditions e"]) simp
  from eps_api.reconcileEPS_any [OF assms(1), of wrapf cronParse reg clk ns n s "fst res" "snd res" s' e] assms(2,3)
  consider "sources s' = sources s" | err where "sources s' = (sources s)((ns, n) \<mapsto> failedStatus clk e err)"
    | prices where "due cronParse clk e" "fetched C reg clk e s prices" "finitePrices prices"
        "sources s' = (sources s)((ns, n) \<mapsto> savedEPS (refreshedStatus clk e prices))"
    by (auto simp del: fun_upd_apply)
  then show ?thesis
  proof cases
    case 1
    then show ?thesis using assms(3,4) same key by simp
  next
    case 2
    then show ?thesis using assms(4) key by (auto simp: failedStatus_def)
  next
    case 3
    then show ?thesis using assms(4) key by (auto simp: refreshedStatus_def)
  qed
qed

lemma onlineRun_eval:
  "case onlineRun of (res, s) \<Rightarrow> res = (requeueAfter (6 * hour), None) \<and>
     (case memSources s (''ns'', ''prices'') of None \<Rightarrow> False
      | Some e \<Rightarrow> psLastUpdated e = Some (6 * hour) \<and> psPrices e = [\<lparr>fAt = 0, fPrice = Finite 3\<rparr>, \<lparr>fAt = hour, fPrice = Finite 7\<rparr>])"
  by code_simp

theorem eps_keeps_or_refreshes_witness:
  "\<exists>prices. fetched (memEpsClient None) (mainRegistry demoWeb) (epsAt (6 * hour)) (demoEPS customSpec) (demoSources customSpec) prices \<and>
     finitePrices prices"
proof -
  obtain res s' e' where run: "onlineRun = (res, s')" "memSources s' (''ns'', ''prices'') = Some e'"
      "psLastUpdated e' = Some (6 * hour)"
    using onlineRun_eval by (auto split: prod.splits option.splits)
  have r: "reconcileEPS (memEpsClient None) wrapText sixHourly (mainRegistry demoWeb) (epsAt (6 * hour)) ''ns'' ''prices''
      (demoSources customSpec) = (res, s')"
    using run(1) by (simp add: onlineRun_def)
  note fact = eps_keeps_or_refreshes [where C = "memEpsClient None" and sources = memSources and wrapf = wrapText and cronParse = sixHourly and
      reg = "mainRegistry demoWeb" and clk = "epsAt (6 * hour)" and ns = "''ns''" and n = "''prices''" and
      s = "demoSources customSpec" and s' = s' and res = res and e = "demoEPS customSpec" and e' = e',
      OF memEps.eps_api_axioms r demoSources_stored run(2)]
  have "e' \<noteq> (demoEPS customSpec)\<lparr>psConditions := cs\<rparr>" for cs using run(3) by (auto simp: demoEPS_def)
  with fact [THEN conjunct1] show ?thesis by blast
qed

text \<open>
  C39: After a failed fetch the controller asks to be run again in five minutes, but that run does not
  fetch: when the refresh schedule fires more than a minute ahead, it only waits for the schedule,
  whatever the condition says.
\<close>

theorem eps_retry_waits_for_schedule:
  assumes "eps_api C sources" "reconcileEPS C wrapf cronParse reg clk ns n s = (res, s1)"
    and "sources s (ns, n) = Some e" "\<nexists>prices. fetched C reg clk e s prices"
    and "getEPS C ns n s1 = Inr eNow" "\<not> cached clk' e" "cronParse (refreshSchedule e) = Inr schedule"
    and "minute < time_Sub (schedule (ckFire clk' - second)) (ckFireUntil clk')"
  shows "reconcileEPS C wrapf cronParse reg clk' ns n s1 =
    ((requeueAfter (time_Sub (schedule (ckFire clk' - second)) (ckFireRequeue clk')), None), s1)"
proof -
  have stored: "sources s1 (ns, n) = Some eNow" using eps_api.get_source [OF assms(1,5)] .
  have "psSpec eNow = psSpec e \<and> psLastUpdated eNow = psLastUpdated e"
    using eps_api.reconcileEPS_any [OF assms(1), of wrapf cronParse reg clk ns n s "fst res" "snd res" s1 e] assms(2-4) stored
    by (auto split: if_splits)
  then have nc: "\<not> cached clk' eNow" and sch: "refreshSchedule eNow = refreshSchedule e"
    using assms(6) by (simp_all add: cached_def refreshSchedule_def)
  show ?thesis
    unfolding reconcileEPS_def assms(5) using nc [folded cached_iff] assms(7,8) sch by (simp add: Let_def)
qed

lemma offlineRun_eval:
  "case offlineRun of (res, s) \<Rightarrow> res = (requeueAfter retryError, None) \<and>
     (case memSources s (''ns'', ''prices'') of None \<Rightarrow> False | Some e \<Rightarrow> length (psConditions e) = 1)"
  by code_simp

lemma offline_not_fetched:
  "\<nexists>prices. fetched (memEpsClient None) (mainRegistry offline) (epsAt (6 * hour)) (demoEPS eneverSpec) (demoSources eneverSpec) prices"
proof -
  have p: "registryGet (mainRegistry offline) ''enever'' eneverSpec token = Inr provider \<Longrightarrow> provider zone t \<noteq> Inr prices" for token provider zone t prices
    by (auto simp: registryGet_def mainRegistry_def Register_def NewRegistry_def eneverFactory_def eneverNew_def eneverProviderName_def
        energyzeroProviderName_def eneverSpec_def eneverFetchPrices_def fetchDay_def newRequest_def httpDo_def offline_def demoWeb_def Let_def
        split: if_splits)
  show ?thesis using p by (auto simp: fetched_def demoEPS_def eneverSpec_def)
qed

theorem eps_retry_waits_for_schedule_witness:
  "reconcileEPS (memEpsClient None) wrapText sixHourly (mainRegistry offline) (epsAt (6 * hour + 5 * minute)) ''ns'' ''prices'' (snd offlineRun) =
     ((requeueAfter (6 * hour - 5 * minute), None), snd offlineRun)"
proof -
  obtain res s1 e1 where run: "offlineRun = (res, s1)" "memSources s1 (''ns'', ''prices'') = Some e1"
    using offlineRun_eval by (auto split: prod.splits option.splits)
  have r: "reconcileEPS (memEpsClient None) wrapText sixHourly (mainRegistry offline) (epsAt (6 * hour)) ''ns'' ''prices''
      (demoSources eneverSpec) = (res, s1)"
    using run(1) by (simp add: offlineRun_def)
  have "reconcileEPS (memEpsClient None) wrapText sixHourly (mainRegistry offline) (epsAt (6 * hour + 5 * minute)) ''ns'' ''prices'' s1 =
     ((requeueAfter (time_Sub ((\<lambda>t. (t div (6 * hour) + 1) * (6 * hour)) (ckFire (epsAt (6 * hour + 5 * minute)) - second))
        (ckFireRequeue (epsAt (6 * hour + 5 * minute)))), None), s1)"
  proof (rule eps_retry_waits_for_schedule [where sources = memSources and s = "demoSources eneverSpec" and e = "demoEPS eneverSpec"
        and eNow = e1 and res = res and clk = "epsAt (6 * hour)"])
    show "eps_api (memEpsClient None) memSources" by (rule memEps.eps_api_axioms)
    show "memSources (demoSources eneverSpec) (''ns'', ''prices'') = Some (demoEPS eneverSpec)" by (rule demoSources_stored)
    show "reconcileEPS (memEpsClient None) wrapText sixHourly (mainRegistry offline) (epsAt (6 * hour)) ''ns'' ''prices''
        (demoSources eneverSpec) = (res, s1)" by (rule r)
    show "\<nexists>prices. fetched (memEpsClient None) (mainRegistry offline) (epsAt (6 * hour)) (demoEPS eneverSpec) (demoSources eneverSpec) prices"
      by (rule offline_not_fetched)
    show "getEPS (memEpsClient None) ''ns'' ''prices'' s1 = Inr e1" using run(2) by (simp add: memEpsClient_def)
  qed (simp_all add: cached_def demoEPS_def sixHourly_def epsAt_def go_defs)
  then show ?thesis by (simp add: run(1) epsAt_def go_defs)
qed

text \<open>
  C40: A network failure reveals the enever token: the error of the HTTP client quotes the request URL,
  which holds the token, every layer wraps it (a token that needs no escape in a quoted string), and the controller stores its text as the message of
  the Ready condition.
\<close>

theorem eps_status_reveals_token:
  assumes "eps_api C sources" "reconcileEPS C wrapf cronParse (mainRegistry W) clk ns n s = ((r, None), s')"
    and "getEPS C ns n s = Inr e" "due cronParse clk e"
    and "spProvider (psSpec e) = eneverProviderName" "spEnever (psSpec e) = Some cfg" "nvSupplier cfg = ''''"
    and "getSecret C ns (skName (nvSecretRef cfg)) s = Inr secret" "secret (skKey (nvSecretRef cfg)) = Some token"
    and "token \<noteq> ''''" "CHR ''#'' \<notin> set token \<and> list_all plainChar token"
    and "\<And>u. badURL W u = None" "\<And>rq. send W rq = Inl cause"
    and "\<And>err m. \<exists>a b. perrText (wrapf err m) = a @ perrText err @ b"
  shows "\<exists>e' c a b. sources s' (ns, n) = Some e' \<and> findCondition (psConditions e') conditionTypeReady = Some c \<and>
    cMessage c = a @ token @ b"
proof -
  have stored: "sources s (ns, n) = Some e" using eps_api.get_source [OF assms(1,3)] .
  then have key: "ekey e = (ns, n)" and own: "psNamespace e = ns" using eps_api.source_key [OF assms(1)] by (auto simp: ekey_def)
  define err where "err = Wrap ''fetching today's enever prices'' (Wrap ''fetching vandaag prices''
    (UrlError ''Get'' (eneverURL token ''vandaag'') cause))"
  have "resolveToken C e s = Inr token"
    using assms(5,6,8,9) own by (simp add: resolveToken_def readSecretKey_def eneverProviderName_def customProviderName_def entsoeProviderName_def Let_def)
  moreover have "registryGet (mainRegistry W) (spProvider (psSpec e)) (psSpec e) token = Inr (eneverFetchPrices W token '''')"
    using assms(5-7,10) by (simp add: registryGet_def mainRegistry_def Register_def eneverProviderName_def energyzeroProviderName_def eneverFactory_def eneverNew_def ToUpper_def Let_def)
  moreover have "eneverFetchPrices W token '''' zone t = Inl err" for zone t
    using assms(11-13) by (simp add: eneverFetchPrices_def fetchDay_def newRequest_def httpDo_def urlString_eneverURL err_def)
  ultimately have ref: "refresh C wrapf (mainRegistry W) clk schedule e s =
      setErrorCondition C clk e e (wrapf err (''fetching prices from provider '' @ Quote (spProvider (psSpec e)))) s" for schedule
    by (simp add: refresh_def)
  obtain m where m: "setErrorCondition C clk e e (wrapf err m) s = ((r, None), s')"
    using reconcileEPS_due [OF assms(3,4), of wrapf "mainRegistry W"] assms(2) ref by metis
  have saved: "sources s' (ns, n) = Some (failedStatus clk e (wrapf err m))"
    using eps_api.failure_any [OF assms(1) m] stored key by auto
  obtain a b where ab: "perrText (wrapf err m) = a @ perrText err @ b" using assms(14) by blast
  obtain p q where pq: "Quote (eneverURL token ''vandaag'') = p @ token @ q"
    unfolding eneverURL_def using Quote_infix [of token "eneverBaseURL @ ''/stroomprijs_vandaag.php?token=''" "''&resolution=15''"] assms(11) by auto
  have "perrText err = (''fetching today's enever prices: fetching vandaag prices: Get '' @ p) @ token @ (q @ '': '' @ cause)"
    by (simp add: err_def pq)
  then obtain x y where "perrText err = x @ token @ y" by blast
  with ab have "perrText (wrapf err m) = (a @ x) @ token @ (y @ b)" by simp
  moreover have "\<exists>c. findCondition (psConditions (failedStatus clk e (wrapf err m))) conditionTypeReady = Some c \<and>
      cMessage c = perrText (wrapf err m)"
    by (simp add: failedStatus_def findCondition_setCondition)
  ultimately show ?thesis using saved by metis
qed

lemma wrapText_keeps_text: "\<exists>a b. perrText (wrapText err m) = a @ perrText err @ b"
  by (rule exI [of _ "m @ '': ''"], rule exI [of _ "''''"]) (simp add: wrapText_def)

theorem eps_status_reveals_token_witness:
  "\<exists>e' c a b. memSources (snd offlineRun) (''ns'', ''prices'') = Some e' \<and>
     findCondition (psConditions e') conditionTypeReady = Some c \<and> cMessage c = a @ ''s3cret'' @ b"
proof -
  obtain res s1 where run: "offlineRun = (res, s1)" "res = (requeueAfter retryError, None)"
    using offlineRun_eval by (auto split: prod.splits)
  have r: "reconcileEPS (memEpsClient None) wrapText sixHourly (mainRegistry offline) (epsAt (6 * hour)) ''ns'' ''prices''
      (demoSources eneverSpec) = ((requeueAfter retryError, None), s1)"
    using run by (simp add: offlineRun_def)
  have "\<exists>e' c a b. memSources s1 (''ns'', ''prices'') = Some e' \<and>
     findCondition (psConditions e') conditionTypeReady = Some c \<and> cMessage c = a @ ''s3cret'' @ b"
  proof (rule eps_status_reveals_token [where e = "demoEPS eneverSpec" and sources = memSources and C = "memEpsClient None"
        and s = "demoSources eneverSpec" and wrapf = wrapText and cronParse = sixHourly and W = offline and clk = "epsAt (6 * hour)"
        and r = "requeueAfter retryError"])
    show "eps_api (memEpsClient None) memSources" by (rule memEps.eps_api_axioms)
    show "reconcileEPS (memEpsClient None) wrapText sixHourly (mainRegistry offline) (epsAt (6 * hour)) ''ns'' ''prices''
        (demoSources eneverSpec) = ((requeueAfter retryError, None), s1)" by (rule r)
    show "getEPS (memEpsClient None) ''ns'' ''prices'' (demoSources eneverSpec) = Inr (demoEPS eneverSpec)"
      using demoSources_stored [of eneverSpec] by (simp add: memEpsClient_def)
    show "due sixHourly (epsAt (6 * hour)) (demoEPS eneverSpec)"
      by (simp add: due_def cached_def demoEPS_def sixHourly_def epsAt_def go_defs)
    show "spEnever (psSpec (demoEPS eneverSpec)) = Some \<lparr>nvSecretRef = \<lparr>skName = ''creds'', skKey = ''token''\<rparr>, nvSupplier = ''''\<rparr>"
      by (simp add: demoEPS_def eneverSpec_def)
    show "getSecret (memEpsClient None) ''ns'' (skName (nvSecretRef \<lparr>nvSecretRef = \<lparr>skName = ''creds'', skKey = ''token''\<rparr>, nvSupplier = ''''\<rparr>))
        (demoSources eneverSpec) = Inr [''token'' \<mapsto> ''s3cret'']"
      by (simp add: memEpsClient_def demoSources_def)
    show "\<And>rq. send offline rq = Inl ''connection refused''" by (simp add: offline_def)
    show "\<And>err m. \<exists>a b. perrText (wrapText err m) = a @ perrText err @ b"
      by (rule wrapText_keeps_text)
  qed (simp_all add: demoEPS_def eneverSpec_def eneverProviderName_def offline_def demoWeb_def plainChar_def quoteChar_def)
  then show ?thesis by (simp add: run(1))
qed

end
