(* ===== verification/Metrics.thy ===== *)
theory Metrics
  imports Price_Source
begin

text \<open>
  The Prometheus collector of the EnergyPriceSources, \<open>internal/controller/energypricesource_metrics.go\<close>.

  What \<open>Collect\<close> sends on its channel is a list, each element the constructor of the Prometheus client
  with its arguments. The constructor panics when the number of label values is not that of the
  descriptor, and the registry rejects a scrape with two series of the same name and labels.
\<close>

section \<open>Definitions\<close>

definition metricsLabelNamespace :: string where "metricsLabelNamespace = ''namespace''"
definition metricsLabelName :: string where "metricsLabelName = ''name''"
definition metricsLabelProvider :: string where "metricsLabelProvider = ''provider''"
definition metricsLabelBiddingZone :: string where "metricsLabelBiddingZone = ''bidding_zone''"

definition energyPriceSourceMetricLabels :: "string list" where
  "energyPriceSourceMetricLabels =
     [metricsLabelNamespace, metricsLabelName, metricsLabelProvider, metricsLabelBiddingZone]"

text \<open>\<open>prometheus.NewDesc\<close>, without the help text.\<close>

record promDesc =
  dName :: string
  dLabels :: "string list"

datatype sent =
    MustNewConstMetric promDesc gofloat "string list"
  | NewInvalidMetric promDesc string

text \<open>A nil \<open>Reader\<close> or \<open>Now\<close> is \<^const>\<open>None\<close>; \<open>Now\<close> is the instant its call gives.\<close>

record 's collector =
  Reader :: "('s \<Rightarrow> string + eps list) option"
  Now :: "time option"
  infoDesc :: promDesc
  pricePointsDesc :: promDesc
  lastUpdatedDesc :: promDesc
  currentPriceDesc :: promDesc

definition NewEnergyPriceSourceMetricsCollector :: "('s \<Rightarrow> string + eps list) option \<Rightarrow> time \<Rightarrow> 's collector" where
  "NewEnergyPriceSourceMetricsCollector reader timeNow =
     \<lparr>Reader = reader, Now = Some timeNow,
      infoDesc = \<lparr>dName = ''kube_greencosts_energy_price_source_info'', dLabels = energyPriceSourceMetricLabels\<rparr>,
      pricePointsDesc = \<lparr>dName = ''kube_greencosts_energy_price_source_price_points'', dLabels = energyPriceSourceMetricLabels\<rparr>,
      lastUpdatedDesc = \<lparr>dName = ''kube_greencosts_energy_price_source_last_updated_timestamp_seconds'',
        dLabels = energyPriceSourceMetricLabels\<rparr>,
      currentPriceDesc = \<lparr>dName = ''kube_greencosts_energy_price_source_current_price_eur_per_mwh'',
        dLabels = energyPriceSourceMetricLabels\<rparr>\<rparr>"

definition RegisterEnergyPriceSourceMetrics ::
  "('s collector \<Rightarrow> 'r \<Rightarrow> string option \<times> 'r) \<Rightarrow> ('s \<Rightarrow> string + eps list) option \<Rightarrow> time \<Rightarrow> 'r \<Rightarrow> string option \<times> 'r" where
  "RegisterEnergyPriceSourceMetrics register reader timeNow registry =
     (case register (NewEnergyPriceSourceMetricsCollector reader timeNow) registry of
        (Some e, registry') \<Rightarrow> (Some (''registering EnergyPriceSource metrics: '' @ e), registry')
      | (None, registry') \<Rightarrow> (None, registry'))"

definition Describe :: "('s, 'm) collector_scheme \<Rightarrow> promDesc list" where
  "Describe c = [infoDesc c, pricePointsDesc c, lastUpdatedDesc c, currentPriceDesc c]"

text \<open>The prices as the decoder of the API objects gives them: JSON numbers, all finite.\<close>

definition pricesOf :: "fpoint list \<Rightarrow> pricePoint list" where
  "pricesOf ps = map (\<lambda>p. \<lparr>At = fAt p, EurPerMWh = (case fPrice p of Finite q \<Rightarrow> q | _ \<Rightarrow> 0)\<rparr>) ps"

definition sourceLabels :: "eps \<Rightarrow> string list" where
  "sourceLabels e = [psNamespace e, psName e, spProvider (psSpec e), spBiddingZone (psSpec e)]"

text \<open>The body of the loop; \<open>toFloat\<close> is the conversion of an integer.\<close>

definition collectSource :: "('s, 'm) collector_scheme \<Rightarrow> (int \<Rightarrow> gofloat) \<Rightarrow> time \<Rightarrow> eps \<Rightarrow> sent list" where
  "collectSource c toFloat now e =
     [MustNewConstMetric (infoDesc c) (Finite 1) (sourceLabels e),
      MustNewConstMetric (pricePointsDesc c) (toFloat (int (length (psPrices e)))) (sourceLabels e)] @
     (case psLastUpdated e of
        None \<Rightarrow> []
      | Some t \<Rightarrow> [MustNewConstMetric (lastUpdatedDesc c) (toFloat (Unix t)) (sourceLabels e)]) @
     (case currentPricePoint (pricesOf (psPrices e)) now of
        None \<Rightarrow> []
      | Some p \<Rightarrow> [MustNewConstMetric (currentPriceDesc c) (Finite (EurPerMWh p)) (sourceLabels e)])"

definition CollectMetrics :: "('s, 'm) collector_scheme \<Rightarrow> (int \<Rightarrow> gofloat) \<Rightarrow> time \<Rightarrow> 's \<Rightarrow> sent list" where
  "CollectMetrics c toFloat timeNow s =
     (case Reader c of
        None \<Rightarrow> [NewInvalidMetric (infoDesc c) ''reader is nil'']
      | Some list \<Rightarrow>
          (case list s of
             Inl e \<Rightarrow> [NewInvalidMetric (infoDesc c) (''listing EnergyPriceSources: '' @ e)]
           | Inr items \<Rightarrow>
               (let now = (case Now c of Some t \<Rightarrow> t | None \<Rightarrow> timeNow)
                in concat (map (collectSource c toFloat now) items))))"

section \<open>Lemmas\<close>

fun sentDesc :: "sent \<Rightarrow> promDesc" where
  "sentDesc (MustNewConstMetric d v ls) = d"
| "sentDesc (NewInvalidMetric d e) = d"

fun labelsFit :: "sent \<Rightarrow> bool" where
  "labelsFit (MustNewConstMetric d v ls) \<longleftrightarrow> length ls = length (dLabels d)"
| "labelsFit (NewInvalidMetric d e) \<longleftrightarrow> True"

text \<open>The name and labels of a series.\<close>

fun series :: "sent \<Rightarrow> (string \<times> string list) option" where
  "series (MustNewConstMetric d v ls) = Some (dName d, ls)"
| "series (NewInvalidMetric d e) = None"

lemma collectSource_descs: "m \<in> set (collectSource c toFloat now e) \<Longrightarrow> sentDesc m \<in> set (Describe c)"
  by (auto simp: collectSource_def Describe_def split: option.splits)

lemma collectSource_labels:
  "m \<in> set (collectSource c toFloat now e) \<Longrightarrow> \<exists>d v. m = MustNewConstMetric d v (sourceLabels e) \<and> d \<in> set (Describe c)"
  by (auto simp: collectSource_def Describe_def split: option.splits)

lemma collectSource_distinct:
  assumes "distinct (map dName (Describe c))"
  shows "distinct (map series (collectSource c toFloat now e))"
  using assms by (auto simp: collectSource_def Describe_def split: option.splits)

lemma distinct_collected:
  assumes "distinct (map dName (Describe c))" "distinct (map ekey items)"
  shows "distinct (map series (concat (map (collectSource c toFloat now) items)))"
  using assms(2)
proof (induction items)
  case (Cons e items)
  have "series m \<noteq> series m'" if "m \<in> set (collectSource c toFloat now e)" "e' \<in> set items"
    "m' \<in> set (collectSource c toFloat now e')" for m e' m'
  proof -
    have "ekey e \<noteq> ekey e'" using Cons.prems that(2) by auto
    then have "sourceLabels e \<noteq> sourceLabels e'" by (auto simp: sourceLabels_def ekey_def)
    then show ?thesis using collectSource_labels [OF that(1)] collectSource_labels [OF that(3)] by auto
  qed
  then have "series ` set (collectSource c toFloat now e) \<inter>
      (\<Union>e' \<in> set items. series ` set (collectSource c toFloat now e')) = {}" by blast
  then show ?case using Cons collectSource_distinct [OF assms(1)] by (auto simp: image_UN)
qed simp

section \<open>Properties\<close>

text \<open>
  C14: Every scrape is well formed. All metrics use a descriptor that \<open>Describe\<close> announced, each has as
  many label values as its descriptor has names, so the constructor cannot panic, and no two have the
  same name and labels.
\<close>

theorem collect_well_formed:
  fixes items :: "'s \<Rightarrow> string + eps list" and now :: time
  assumes "\<And>s es. items s = Inr es \<Longrightarrow> distinct (map ekey es)"
  defines "c \<equiv> NewEnergyPriceSourceMetricsCollector (Some items) now"
  shows "distinct (map series (CollectMetrics c toFloat timeNow s)) \<and>
    list_all (\<lambda>m. sentDesc m \<in> set (Describe c) \<and> labelsFit m) (CollectMetrics c toFloat timeNow s)"
proof -
  have names: "distinct (map dName (Describe c))"
    by (simp add: c_def Describe_def NewEnergyPriceSourceMetricsCollector_def)
  have four: "d \<in> set (Describe c) \<Longrightarrow> length (dLabels d) = 4" for d
    by (auto simp: c_def Describe_def NewEnergyPriceSourceMetricsCollector_def energyPriceSourceMetricLabels_def)
  show ?thesis
  proof (cases "items s")
    case (Inl e)
    then have "CollectMetrics c toFloat timeNow s = [NewInvalidMetric (infoDesc c) (''listing EnergyPriceSources: '' @ e)]"
      by (simp add: CollectMetrics_def c_def NewEnergyPriceSourceMetricsCollector_def)
    then show ?thesis by (simp add: Describe_def)
  next
    case (Inr es)
    then have run: "CollectMetrics c toFloat timeNow s = concat (map (collectSource c toFloat now) es)"
      by (simp add: CollectMetrics_def c_def NewEnergyPriceSourceMetricsCollector_def)
    have "sentDesc m \<in> set (Describe c) \<and> labelsFit m" if "m \<in> set (collectSource c toFloat now e)" for m e
      using collectSource_labels [OF that] four by (auto simp: sourceLabels_def)
    then show ?thesis
      unfolding run using distinct_collected [OF names assms(1) [OF Inr]] by (auto simp: list_all_iff)
  qed
qed

text \<open>Two sources with the same provider, one of them with prices.\<close>

definition twoSources :: "eps list" where
  "twoSources =
     [demoEPS eneverSpec,
      (demoEPS customSpec)\<lparr>psName := ''spot'', psLastUpdated := Some (2 * hour),
        psPrices := [\<lparr>fAt = 0, fPrice = Finite 30\<rparr>, \<lparr>fAt = hour, fPrice = Finite 20\<rparr>, \<lparr>fAt = 2 * hour, fPrice = Finite 10\<rparr>]\<rparr>]"

lemma twoSources_keys: "distinct (map ekey twoSources)"
  by (simp add: twoSources_def ekey_def demoEPS_def)

lemma twoSources_scrape:
  "map series (CollectMetrics (NewEnergyPriceSourceMetricsCollector (Some (\<lambda>_::unit. Inr twoSources)) (90 * minute)) (\<lambda>n. Finite (of_int n)) 0 ()) =
   [Some (''kube_greencosts_energy_price_source_info'', [''ns'', ''prices'', ''enever'', ''NL'']),
    Some (''kube_greencosts_energy_price_source_price_points'', [''ns'', ''prices'', ''enever'', ''NL'']),
    Some (''kube_greencosts_energy_price_source_info'', [''ns'', ''spot'', ''customProvider'', ''NL'']),
    Some (''kube_greencosts_energy_price_source_price_points'', [''ns'', ''spot'', ''customProvider'', ''NL'']),
    Some (''kube_greencosts_energy_price_source_last_updated_timestamp_seconds'', [''ns'', ''spot'', ''customProvider'', ''NL'']),
    Some (''kube_greencosts_energy_price_source_current_price_eur_per_mwh'', [''ns'', ''spot'', ''customProvider'', ''NL''])]"
  by code_simp

theorem collect_well_formed_witness:
  "let c = NewEnergyPriceSourceMetricsCollector (Some (\<lambda>_::unit. Inr twoSources)) (90 * minute);
       ms = CollectMetrics c (\<lambda>n. Finite (of_int n)) 0 ()
   in length ms = 6 \<and> distinct (map series ms) \<and> list_all (\<lambda>m. sentDesc m \<in> set (Describe c) \<and> labelsFit m) ms"
proof -
  note ok = collect_well_formed [where items = "\<lambda>_::unit. Inr twoSources" and now = "90 * minute"
      and toFloat = "\<lambda>n. Finite (of_int n)" and timeNow = 0 and s = "()"]
  show ?thesis using ok arg_cong [OF twoSources_scrape, of length] twoSources_keys by (simp add: Let_def)
qed

end
