(* ===== verification/Price_Flow.thy ===== *)
theory Price_Flow
  imports Metrics
begin

text \<open>
  The way of a price from the provider through the status of its source to the metrics. For the two
  providers that sort their points, the stored prices are chronological and finite in every state the
  controller and its users can reach, which \<open>currentPricePoint\<close> and the selection of a slot rely on.
\<close>

section \<open>Reachable states\<close>

definition sortingProvider :: "epsSpec \<Rightarrow> bool" where
  "sortingProvider spec \<longleftrightarrow> spProvider spec = customProviderName \<or> spProvider spec = energyzeroProviderName"

text \<open>
  The sources start without prices. The controller reconciles any of them, at any clock and with any
  outcome; users create, edit and delete them, but do not write prices.
\<close>

inductive epsReach ::
  "('s, 'm) epsClient_scheme \<Rightarrow> ('s \<Rightarrow> string \<times> string \<rightharpoonup> eps) \<Rightarrow> web \<Rightarrow> 's \<Rightarrow> bool"
  for C sources W where
  epsReach_start: "(\<And>key e. sources s key = Some e \<Longrightarrow> sortingProvider (psSpec e) \<and> psPrices e = []) \<Longrightarrow>
    epsReach C sources W s"
| epsReach_reconcile: "epsReach C sources W s \<Longrightarrow>
    reconcileEPS C wrapf cronParse (mainRegistry W) clk ns n s = (res, s') \<Longrightarrow> epsReach C sources W s'"
| epsReach_outside: "epsReach C sources W s \<Longrightarrow>
    (\<And>key e'. sources s' key = Some e' \<Longrightarrow> sortingProvider (psSpec e') \<and>
      (psPrices e' = [] \<or> (\<exists>e. sources s key = Some e \<and> psPrices e' = psPrices e))) \<Longrightarrow>
    epsReach C sources W s'"

text \<open>The invariant.\<close>

definition orderedSource :: "eps \<Rightarrow> bool" where
  "orderedSource e \<longleftrightarrow> sortingProvider (psSpec e) \<and> sorted (map fAt (psPrices e)) \<and> finitePrices (psPrices e)"

section \<open>Sorted prices\<close>

lemma sorted_customFetchPrices:
  assumes "sortsPoints W" "customFetchPrices W u token zone date = Inr ps"
  shows "sorted (map fAt ps)"
  using assms(2) sorted_convertIntervals [OF assms(1)]
  by (auto simp: customFetchPrices_def split: sum.splits if_splits)

lemma sorted_energyzeroFetchPrices:
  assumes "sortsPoints W" "energyzeroFetchPrices W u zone date = Inr ps"
  shows "sorted (map fAt ps)"
  using assms by (auto simp: energyzeroFetchPrices_def parseResponse_def sortsPoints_time split: sum.splits if_splits prod.splits)

lemma registryGet_Inr: "registryGet r name spec token = Inr p \<longleftrightarrow> (\<exists>f. r name = Some f \<and> f spec token = Inr p)"
  by (auto simp: registryGet_def split: option.splits sum.splits)

lemma sorted_fetched:
  assumes "sortsPoints W" "sortingProvider (psSpec e)" "fetched C (mainRegistry W) clk e s prices"
  shows "sorted (map fAt prices)"
  using assms(2,3) sorted_customFetchPrices [OF assms(1)] sorted_energyzeroFetchPrices [OF assms(1)]
  by (auto simp: fetched_def sortingProvider_def registryGet_Inr mainRegistry_def Register_def NewRegistry_def
      customProviderName_def energyzeroProviderName_def eneverProviderName_def entsoeProviderName_def
      customFactory_def energyzeroFactory_def Let_def split: option.splits if_splits)

lemma mono_wholeSeconds: "mono wholeSeconds"
  by (auto intro!: monoI zdiv_mono1 mult_right_mono simp: wholeSeconds_def Unix_def go_defs)

lemma sorted_saved: "sorted (map fAt (psPrices e)) \<Longrightarrow> sorted (map fAt (psPrices (savedEPS e)))"
  using sorted_map_mono [of "map fAt (psPrices e)" wholeSeconds] mono_wholeSeconds
  by (simp add: savedEPS_def comp_def monotone_on_subset)

lemma finitePrices_saved [simp]: "finitePrices (psPrices (savedEPS e)) = finitePrices (psPrices e)"
  by (simp add: savedEPS_def finitePrices_def list_all_iff)

lemma orderedSource_refreshed:
  assumes "sortingProvider (psSpec e)" "sorted (map fAt prices)" "finitePrices prices"
  shows "orderedSource (savedEPS (refreshedStatus clk e prices))"
  using assms sorted_saved [of "refreshedStatus clk e prices"] by (simp add: orderedSource_def) (simp add: refreshedStatus_def)

context eps_api
begin

lemma reconcile_ordered:
  assumes "sortsPoints W" "reconcileEPS C wrapf cronParse (mainRegistry W) clk ns n s = (res, s')"
    and "\<And>key e. sources s key = Some e \<Longrightarrow> orderedSource e" "sources s' key = Some e'"
  shows "orderedSource e'"
proof (cases "sources s (ns, n)")
  case None
  then obtain x where "getEPS C ns n s = Inl x" using get_source [of ns n s] by (cases "getEPS C ns n s") auto
  then show ?thesis using assms(2-4) by (simp add: reconcileEPS_def)
next
  case (Some e)
  have ord: "orderedSource e" using assms(3) [OF Some] .
  from reconcileEPS_any [of wrapf cronParse "mainRegistry W" clk ns n s "fst res" "snd res" s' e] assms(2) Some
  consider "sources s' = sources s" | err where "sources s' = (sources s)((ns, n) \<mapsto> failedStatus clk e err)"
    | prices where "fetched C (mainRegistry W) clk e s prices" "finitePrices prices"
      "sources s' = (sources s)((ns, n) \<mapsto> savedEPS (refreshedStatus clk e prices))" by auto
  then show ?thesis
  proof cases
    case 2
    then show ?thesis using ord assms(3,4) by (auto simp: orderedSource_def split: if_splits)
  next
    case 3
    have "orderedSource (savedEPS (refreshedStatus clk e prices))"
      using orderedSource_refreshed sorted_fetched [OF assms(1) _ 3(1)] 3(2) ord by (simp add: orderedSource_def)
    then show ?thesis using 3(3) assms(3,4) by (auto split: if_splits)
  qed (use assms(3,4) in auto)
qed

lemma reach_ordered:
  assumes "epsReach C sources W s" "sortsPoints W" "sources s key = Some e"
  shows "orderedSource e"
  using assms
proof (induction arbitrary: key e rule: epsReach.induct)
  case (epsReach_start s)
  then show ?case by (auto simp: orderedSource_def finitePrices_def)
next
  case (epsReach_reconcile s wrapf cronParse clk ns n res s')
  show ?case
    using reconcile_ordered [OF epsReach_reconcile.prems(1) epsReach_reconcile.hyps(2)] epsReach_reconcile.IH epsReach_reconcile.prems
    by blast
next
  case (epsReach_outside s s')
  then show ?case by (fastforce simp: orderedSource_def finitePrices_def)
qed

end

section \<open>The price in force\<close>

lemma currentPricePointLoop_latest:
  assumes "sorted (map At ps)" "currentPricePointLoop ps now (Some a) = Some p"
    and "\<forall>q \<in> set ps. At a \<le> At q" "q \<in> insert a (set ps)" "At q \<le> now"
  shows "At q \<le> At p"
  using assms
proof (induction ps arbitrary: a q)
  case (Cons b ps)
  show ?case
  proof (cases "At b > now")
    case True
    then have "p = a" "\<forall>x \<in> set (b # ps). now < At x" using Cons.prems by auto
    then show ?thesis using Cons.prems(4,5) by auto
  next
    case False
    then have "At x \<le> At p" if "x \<in> insert b (set ps)" "At x \<le> now" for x
      using Cons.IH [of b x] Cons.prems that by simp
    from this [of b] this [of q] show ?thesis using False Cons.prems(3-5) by auto
  qed
qed auto

lemma currentPricePoint_latest:
  assumes "sorted (map At ps)" "currentPricePoint ps now = Some p" "q \<in> set ps" "At q \<le> now"
  shows "At q \<le> At p"
proof (cases ps)
  case (Cons b bs)
  then have "\<not> At b > now" using assms(2) by (auto simp: currentPricePoint_def)
  then show ?thesis using currentPricePointLoop_latest [of bs now b p q] assms Cons by (simp add: currentPricePoint_def)
qed (use assms(3) in simp)

lemma pricesOf_simps [simp]: "map At (pricesOf ps) = map fAt ps"
  by (simp add: pricesOf_def)

text \<open>The current price series of a chronological source.\<close>

lemma collected_price:
  assumes "orderedSource e" "distinct (map dName (Describe c))"
    and "MustNewConstMetric (currentPriceDesc c) v ls \<in> set (collectSource c toFloat now e)"
  shows "\<exists>p \<in> set (psPrices e). fPrice p = v \<and> fAt p \<le> now \<and> (\<forall>q \<in> set (psPrices e). fAt q \<le> now \<longrightarrow> fAt q \<le> fAt p)"
proof -
  from assms(2,3) obtain q where q: "currentPricePoint (pricesOf (psPrices e)) now = Some q" "v = Finite (EurPerMWh q)"
    by (cases "currentPricePoint (pricesOf (psPrices e)) now") (auto simp: collectSource_def Describe_def split: option.splits)
  have "q \<in> set (pricesOf (psPrices e))" "At q \<le> now" using currentPricePoint_Some [OF q(1)] by auto
  then obtain p where p: "p \<in> set (psPrices e)" "fAt p = At q" "EurPerMWh q = (case fPrice p of Finite r \<Rightarrow> r | _ \<Rightarrow> 0)"
    by (auto simp: pricesOf_def)
  moreover have "isFinite (fPrice p)" using assms(1) p(1) by (auto simp: orderedSource_def finitePrices_def list_all_iff)
  then have "fPrice p = v" using p(3) q(2) by (auto simp: isFinite_def split: gofloat.splits)
  moreover have "fAt x \<le> fAt p" if "x \<in> set (psPrices e)" "fAt x \<le> now" for x
    using currentPricePoint_latest [OF _ q(1), of "\<lparr>At = fAt x, EurPerMWh = (case fPrice x of Finite r \<Rightarrow> r | _ \<Rightarrow> 0)\<rparr>"]
      that p(2) assms(1) by (auto simp: orderedSource_def pricesOf_def comp_def)
  ultimately show ?thesis using \<open>At q \<le> now\<close> by metis
qed

text \<open>No series means that every known price lies ahead.\<close>

lemma no_current_price:
  assumes "orderedSource e" "currentPricePoint (pricesOf (psPrices e)) now = None" "q \<in> set (psPrices e)"
  shows "now < fAt q"
proof (cases "psPrices e")
  case (Cons p ps)
  have acc: "currentPricePointLoop xs t (Some a) \<noteq> None" for xs t a
    by (induction xs arbitrary: a) auto
  have "now < fAt p"
    using assms(2) by (simp add: Cons pricesOf_def currentPricePoint_def acc split: if_splits)
  moreover have "fAt p \<le> fAt q" using assms(1,3) by (auto simp: orderedSource_def Cons)
  ultimately show ?thesis by simp
qed (use assms(3) in simp)

end
