(* ===== verification/Metrics_Client.thy ===== *)
theory Metrics_Client
  imports Providers
begin

text \<open>
  The runtime metrics of a namespace, \<open>internal/metrics/client.go\<close>: CPU from the metrics-server,
  network and ingress traffic from Prometheus.

  Parameters: the clients of both servers, and \<open>resource.Quantity\<close> of the Kubernetes API machinery,
  whose values are a type \<open>'q\<close> with the zero quantities, \<open>Add\<close> and \<open>NewMilliQuantity\<close> the code uses.
  Tracing is left out.
\<close>

section \<open>Durations as text\<close>

text \<open>
  \<open>Duration.String\<close>. \<open>fracDigits\<close> writes \<open>v\<close> as \<open>n\<close> digits after a point, without trailing zeros
  and without the point when nothing is left.
\<close>

fun fixedDigits :: "nat \<Rightarrow> nat \<Rightarrow> string" where
  "fixedDigits 0 v = ''''"
| "fixedDigits (Suc n) v = fixedDigits n (v div 10) @ [digit (v mod 10)]"

definition fracDigits :: "nat \<Rightarrow> nat \<Rightarrow> string" where
  "fracDigits n v = (let ds = TrimRight (fixedDigits n v) ''0'' in if ds = '''' then '''' else CHR ''.'' # ds)"

definition durationAbs :: "nat \<Rightarrow> string" where
  "durationAbs u =
     (if u = 0 then ''0s''
      else if u < 1000 then natDigits u @ ''ns''
      else if u < 1000000 then natDigits (u div 1000) @ fracDigits 3 (u mod 1000) @ [CHR 0xC2, CHR 0xB5, CHR ''s'']
      else if u < 1000000000 then natDigits (u div 1000000) @ fracDigits 6 (u mod 1000000) @ ''ms''
      else (let s = u div 1000000000; m = s div 60; h = m div 60;
                seconds = natDigits (s mod 60) @ fracDigits 9 (u mod 1000000000) @ ''s''
            in if m = 0 then seconds
               else if h = 0 then natDigits m @ ''m'' @ seconds
               else natDigits h @ ''h'' @ natDigits (m mod 60) @ ''m'' @ seconds))"

definition DurationString :: "duration \<Rightarrow> string" where
  "DurationString d = (if d < 0 then CHR ''-'' # durationAbs (nat (- d)) else durationAbs (nat d))"

definition promDuration :: "duration \<Rightarrow> string" where
  "promDuration d = DurationString d"

section \<open>Definitions\<close>

text \<open>\<open>model.Value\<close>: a scalar, a vector of samples, or another type.\<close>

datatype promValue = Scalar gofloat | Vector "gofloat list" | OtherValue

definition scalarValue :: "promValue \<Rightarrow> gofloat" where
  "scalarValue val = (case val of Scalar v \<Rightarrow> v | Vector [v] \<Rightarrow> v | _ \<Rightarrow> Finite 0)"

text \<open>Usage of a container: the CPU entry, \<^const>\<open>None\<close> for the nil pointer.\<close>

record 'q podMetrics =
  pmContainers :: "'q option list"

record 'q quantities =
  qtyZero :: 'q
  milliZero :: 'q
  qtyAdd :: "'q \<Rightarrow> 'q \<Rightarrow> 'q"
  newMilliBinary :: "int \<Rightarrow> 'q"

type_synonym promAPI = "string \<Rightarrow> time \<Rightarrow> string + promValue"

record 'q compositeClient =
  metricsClient :: "string \<Rightarrow> string + 'q podMetrics list"
  promAPI :: "promAPI option"

definition NewClient ::
  "(string \<Rightarrow> string + promAPI) \<Rightarrow> (string \<Rightarrow> string + 'q podMetrics list) \<Rightarrow> string \<Rightarrow> string + 'q compositeClient" where
  "NewClient promNew listPods prometheusURL =
     (if prometheusURL \<noteq> '''' then
        (case promNew prometheusURL of
           Inl e \<Rightarrow> Inl (''creating prometheus client for '' @ Quote prometheusURL @ '': '' @ e)
         | Inr api \<Rightarrow> Inr \<lparr>metricsClient = listPods, promAPI = Some api\<rparr>)
      else Inr \<lparr>metricsClient = listPods, promAPI = None\<rparr>)"

fun addContainers :: "'q quantities \<Rightarrow> 'q \<Rightarrow> 'q option list \<Rightarrow> 'q" where
  "addContainers Q acc [] = acc"
| "addContainers Q acc (None # cs) = addContainers Q acc cs"
| "addContainers Q acc (Some cpu # cs) = addContainers Q (qtyAdd Q acc cpu) cs"

definition addPodCPU :: "'q quantities \<Rightarrow> 'q \<Rightarrow> 'q podMetrics \<Rightarrow> 'q" where
  "addPodCPU Q acc pm = addContainers Q acc (pmContainers pm)"

definition QueryNamespaceCPU :: "'q quantities \<Rightarrow> 'q compositeClient \<Rightarrow> string \<Rightarrow> string + 'q" where
  "QueryNamespaceCPU Q c namespace =
     (case metricsClient c namespace of
        Inl e \<Rightarrow> Inl (''listing pod metrics for namespace '' @ Quote namespace @ '': '' @ e)
      | Inr items \<Rightarrow> Inr (foldl (addPodCPU Q) (milliZero Q) items))"

definition networkQuery :: "string \<Rightarrow> duration \<Rightarrow> string" where
  "networkQuery namespace window =
     ''sum(rate(container_network_transmit_bytes_total{namespace='' @ Quote namespace @ ''}['' @ promDuration window @
     '']) + rate(container_network_receive_bytes_total{namespace='' @ Quote namespace @ ''}['' @ promDuration window @ '']))''"

text \<open>\<open>toInt64\<close> is the conversion \<open>int64(x)\<close>, \<open>times1000\<close> the product in \<open>float64\<close>.\<close>

definition QueryNamespaceNetwork ::
  "'q quantities \<Rightarrow> web \<Rightarrow> (gofloat \<Rightarrow> int) \<Rightarrow> 'q compositeClient \<Rightarrow> time \<Rightarrow> string \<Rightarrow> duration \<Rightarrow> string + 'q" where
  "QueryNamespaceNetwork Q W toInt64 c now namespace window =
     (case promAPI c of
        None \<Rightarrow> Inr (qtyZero Q)
      | Some query \<Rightarrow>
          (case query (networkQuery namespace window) now of
             Inl e \<Rightarrow> Inl (''querying network bytes for namespace '' @ Quote namespace @ '': '' @ e)
           | Inr val \<Rightarrow> Inr (newMilliBinary Q (toInt64 (times1000 W (scalarValue val))))))"

definition ingressQuery :: "string \<Rightarrow> duration \<Rightarrow> string" where
  "ingressQuery namespace window =
     ''sum(rate(nginx_ingress_controller_requests{namespace='' @ Quote namespace @ ''}['' @ promDuration window @ '']))''"

definition QueryNamespaceIngressRPS :: "'q compositeClient \<Rightarrow> time \<Rightarrow> string \<Rightarrow> duration \<Rightarrow> string + gofloat" where
  "QueryNamespaceIngressRPS c now namespace window =
     (case promAPI c of
        None \<Rightarrow> Inr (Finite 0)
      | Some query \<Rightarrow>
          (case query (ingressQuery namespace window) now of
             Inl e \<Rightarrow> Inl (''querying ingress RPS for namespace '' @ Quote namespace @ '': '' @ e)
           | Inr val \<Rightarrow> Inr (scalarValue val)))"

section \<open>Lemmas\<close>

text \<open>The sum over all containers that report CPU, in any order.\<close>

lemma addContainers_foldl: "addContainers Q acc cs = foldl (qtyAdd Q) acc (List.map_filter id cs)"
  by (induction Q acc cs rule: addContainers.induct) (simp_all add: map_filter_simps)

lemma QueryNamespaceCPU_sum:
  assumes "metricsClient c namespace = Inr items"
  shows "QueryNamespaceCPU Q c namespace =
    Inr (foldl (qtyAdd Q) (milliZero Q) (concat (map (\<lambda>pm. List.map_filter id (pmContainers pm)) items)))"
proof -
  have "foldl (addPodCPU Q) t items = foldl (qtyAdd Q) t (concat (map (\<lambda>pm. List.map_filter id (pmContainers pm)) items))" for t
    by (induction items arbitrary: t) (simp_all add: addPodCPU_def addContainers_foldl)
  then show ?thesis using assms by (simp add: QueryNamespaceCPU_def)
qed

text \<open>Without a Prometheus URL the traffic queries answer zero and send nothing.\<close>

lemma no_prometheus_zero:
  assumes "NewClient promNew listPods '''' = Inr c"
  shows "QueryNamespaceNetwork Q W toInt64 c now ns window = Inr (qtyZero Q)"
    and "QueryNamespaceIngressRPS c now ns window = Inr (Finite 0)"
  using assms by (auto simp: NewClient_def QueryNamespaceNetwork_def QueryNamespaceIngressRPS_def)

lemma TrimRight_zeros: "TrimRight (fixedDigits n 0) ''0'' = ''''"
proof -
  have "digit 0 = CHR ''0''" by code_simp
  then show ?thesis by (induction n) (simp_all add: TrimRight_def)
qed

text \<open>A window of whole seconds is written as hours, minutes and seconds, the form Prometheus reads.\<close>

lemma promDuration_whole:
  assumes "0 < s"
  shows "promDuration (int s * second) =
    (if s < 60 then '''' else if s < 3600 then natDigits (s div 60) @ ''m''
     else natDigits (s div 3600) @ ''h'' @ natDigits (s div 60 mod 60) @ ''m'') @ natDigits (s mod 60) @ ''s''"
proof -
  have n: "nat (int s * second) = s * 1000000000" by (simp add: go_defs nat_mult_distrib)
  have h: "s div 60 div 60 = s div 3600" by (simp add: div_mult2_eq)
  show ?thesis
    using assms unfolding promDuration_def DurationString_def n durationAbs_def
    by (auto simp: go_defs Let_def fracDigits_def TrimRight_zeros h)
qed

end
