(* ===== verification/Startup.thy ===== *)
theory Startup
  imports Providers
begin

text \<open>
  The start of the program: \<open>internal/telemetry/setup.go\<close> and \<open>main\<close> of \<open>cmd/main.go\<close>.

  The calls into Kubernetes, OpenTelemetry and the certificate watcher are the parameter \<open>fails\<close>, which
  gives the error of each named step, if it fails. The TLS options of the two servers are Go slices
  that share a backing array, so they are modelled in a store of arrays; how much room \<open>append\<close> adds
  when it allocates is left to the Go implementation and is the parameter \<open>grow\<close>.
\<close>

section \<open>Tracing\<close>

datatype sampler =
    AlwaysSample
  | NeverSample
  | TraceIDRatioBased gofloat
  | ParentBased sampler

definition samplerTraceIDRatio :: string where "samplerTraceIDRatio = ''traceidratio''"
definition samplerParentBasedTraceIDRatio :: string where "samplerParentBasedTraceIDRatio = ''parentbased_traceidratio''"

text \<open>\<open>r < 0 || r > 1\<close> on \<open>float64\<close>: both comparisons are false for NaN.\<close>

definition outsideUnit :: "gofloat \<Rightarrow> bool" where
  "outsideUnit r = (case r of Finite q \<Rightarrow> q < 0 \<or> q > 1 | NaN \<Rightarrow> False | Inf _ \<Rightarrow> True)"

definition parseRatio :: "web \<Rightarrow> string \<Rightarrow> gofloat \<Rightarrow> gofloat" where
  "parseRatio W s def =
     (if s = '''' then def
      else case parseFloat W s of
          Inl _ \<Rightarrow> def
        | Inr r \<Rightarrow> if outsideUnit r then def else r)"

definition samplerFromEnv :: "web \<Rightarrow> (string \<Rightarrow> string) \<Rightarrow> sampler" where
  "samplerFromEnv W getenv =
     (let name = getenv ''OTEL_TRACES_SAMPLER''; arg = getenv ''OTEL_TRACES_SAMPLER_ARG'' in
      if name = ''always_off'' then NeverSample
      else if name = samplerTraceIDRatio then TraceIDRatioBased (parseRatio W arg (Finite 1))
      else if name = ''parentbased_always_on'' then ParentBased AlwaysSample
      else if name = ''parentbased_always_off'' then ParentBased NeverSample
      else if name = samplerParentBasedTraceIDRatio then ParentBased (TraceIDRatioBased (parseRatio W arg (Finite 1)))
      else AlwaysSample)"

text \<open>The global state of the OpenTelemetry package that \<open>Setup\<close> writes.\<close>

record otelState =
  propagators :: "string list"
  tracerProvider :: "sampler option"

datatype shutdown = NoopShutdown | ProviderShutdown

definition setPropagator :: "otelState \<Rightarrow> otelState" where
  "setPropagator ot = ot\<lparr>propagators := [''TraceContext'', ''Baggage'']\<rparr>"

definition telemetrySetup ::
  "web \<Rightarrow> (string \<Rightarrow> string) \<Rightarrow> (string \<Rightarrow> string option) \<Rightarrow> otelState \<Rightarrow> (string + shutdown) \<times> otelState" where
  "telemetrySetup W getenv fails ot =
     (let ot1 = setPropagator ot in
      if getenv ''OTEL_EXPORTER_OTLP_ENDPOINT'' = '''' then (Inr NoopShutdown, ot1)
      else case fails ''otlptracegrpc.New'' of
          Some e \<Rightarrow> (Inl (''creating OTLP gRPC trace exporter: '' @ e), ot1)
        | None \<Rightarrow>
            (case fails ''sdkresource.New'' of
               Some e \<Rightarrow> (Inl (''building OTel resource: '' @ e), ot1)
             | None \<Rightarrow> (Inr ProviderShutdown, ot1\<lparr>tracerProvider := Some (samplerFromEnv W getenv)\<rparr>)))"

section \<open>Slices\<close>

text \<open>A slice is an array of the store, a length and a capacity; \<open>nil\<close> has capacity zero.\<close>

record slice =
  slArray :: nat
  slLen :: nat
  slCap :: nat

type_synonym 'a arrays = "'a list list"

definition nilSlice :: slice where "nilSlice = \<lparr>slArray = 0, slLen = 0, slCap = 0\<rparr>"

definition sliceElems :: "'a arrays \<Rightarrow> slice \<Rightarrow> 'a list" where
  "sliceElems h s = (if slCap s = 0 then [] else take (slLen s) (h ! slArray s))"

text \<open>
  \<open>append(s, x)\<close>: with room it writes behind the last element of the shared array, else it copies to
  a new array of \<open>grow n\<close> elements, \<open>n\<close> the new length; \<open>zero\<close> fills the room.
\<close>

definition sliceAppend :: "(nat \<Rightarrow> nat) \<Rightarrow> 'a \<Rightarrow> 'a arrays \<Rightarrow> slice \<Rightarrow> 'a \<Rightarrow> slice \<times> 'a arrays" where
  "sliceAppend grow zero h s x =
     (if slLen s < slCap s
      then (s\<lparr>slLen := slLen s + 1\<rparr>, h[slArray s := (h ! slArray s)[slLen s := x]])
      else (\<lparr>slArray = length h, slLen = slLen s + 1, slCap = grow (slLen s + 1)\<rparr>,
            h @ [sliceElems h s @ x # replicate (grow (slLen s + 1) - slLen s - 1) zero]))"

section \<open>main\<close>

record flags =
  metricsAddr :: string
  metricsCertPath :: string
  metricsCertName :: string
  metricsCertKey :: string
  webhookCertPath :: string
  webhookCertName :: string
  webhookCertKey :: string
  enableLeaderElection :: bool
  probeAddr :: string
  prometheusURL :: string
  secureMetrics :: bool
  enableHTTP2 :: bool

text \<open>The defaults of the \<open>flag\<close> declarations.\<close>

definition defaultFlags :: flags where
  "defaultFlags = \<lparr>metricsAddr = ''0'', metricsCertPath = '''', metricsCertName = ''tls.crt'', metricsCertKey = ''tls.key'',
     webhookCertPath = '''', webhookCertName = ''tls.crt'', webhookCertKey = ''tls.key'', enableLeaderElection = False,
     probeAddr = '':8081'', prometheusURL = '''', secureMetrics = True, enableHTTP2 = False\<rparr>"

datatype server = MetricsServer | WebhookServer

text \<open>The functions in the option slices; a nil function is never called.\<close>

datatype tlsOpt = DisableHTTP2 | GetCertificate server | NilOpt

record serverOptions =
  webhookTLS :: slice
  metricsTLS :: slice
  metricsFilter :: bool
  metricsBind :: string

text \<open>
  The TLS part of \<open>main\<close>: the shared options, the webhook server with its certificate, then the metrics
  server with its own.
\<close>

definition serverSetup :: "(nat \<Rightarrow> nat) \<Rightarrow> flags \<Rightarrow> serverOptions \<times> tlsOpt arrays" where
  "serverSetup grow f =
     (let (tlsOpts, h1) = (if \<not> enableHTTP2 f then sliceAppend grow NilOpt [] nilSlice DisableHTTP2 else (nilSlice, []));
          (webhookTLSOpts, h2) = (if webhookCertPath f \<noteq> '''' then sliceAppend grow NilOpt h1 tlsOpts (GetCertificate WebhookServer)
                                  else (tlsOpts, h1));
          (metricsTLSOpts, h3) = (if metricsCertPath f \<noteq> '''' then sliceAppend grow NilOpt h2 tlsOpts (GetCertificate MetricsServer)
                                  else (tlsOpts, h2))
      in (\<lparr>webhookTLS = webhookTLSOpts, metricsTLS = metricsTLSOpts, metricsFilter = secureMetrics f, metricsBind = metricsAddr f\<rparr>, h3))"

text \<open>The options of the manager.\<close>

record managerOptions =
  moServers :: serverOptions
  moHealthProbeBindAddress :: string
  moLeaderElection :: bool
  moLeaderElectionID :: string

definition newManagerOptions :: "flags \<Rightarrow> serverOptions \<Rightarrow> managerOptions" where
  "newManagerOptions f opts = \<lparr>moServers = opts, moHealthProbeBindAddress = probeAddr f,
     moLeaderElection = enableLeaderElection f, moLeaderElectionID = ''563838c3.greencosts.hstr.nl''\<rparr>"

text \<open>The steps of \<open>main\<close> in order, each with the log line of its failure.\<close>

definition setupSteps :: "flags \<Rightarrow> (string \<times> string) list" where
  "setupSteps f =
     (if webhookCertPath f \<noteq> '''' then [(''webhook certwatcher'', ''Failed to initialize webhook certificate watcher'')] else []) @
     (if metricsCertPath f \<noteq> '''' then [(''metrics certwatcher'', ''to initialize metrics certificate watcher'')] else []) @
     [(''manager'', ''unable to start manager''),
      (''metrics EnergyPriceSource'', ''unable to register metrics''),
      (''controller EnergyPriceSource'', ''unable to create controller''),
      (''controller EnergyAwareCronJob'', ''unable to create controller''),
      (''controller HibernatePolicy'', ''unable to create controller''),
      (''controller ClusterHibernatePolicy'', ''unable to create controller''),
      (''webhook EnergyAwareCronJob'', ''unable to create webhook''),
      (''webhook HibernatePolicy'', ''unable to create webhook''),
      (''webhook ClusterHibernatePolicy'', ''unable to create webhook'')] @
     (if metricsCertPath f \<noteq> '''' then [(''add metrics certwatcher'', ''unable to add metrics certificate watcher to manager'')] else []) @
     (if webhookCertPath f \<noteq> '''' then [(''add webhook certwatcher'', ''unable to add webhook certificate watcher to manager'')] else []) @
     [(''healthz'', ''unable to set up health check''),
      (''readyz'', ''unable to set up ready check'')]"

fun runSteps :: "(string \<Rightarrow> string option) \<Rightarrow> (string \<times> string) list \<Rightarrow> string list \<Rightarrow> string + string list" where
  "runSteps fails [] performed = Inr performed"
| "runSteps fails ((step, msg) # rest) performed =
     (case fails step of Some e \<Rightarrow> Inl msg | None \<Rightarrow> runSteps fails rest (performed @ [step]))"

text \<open>
  How the process ends: \<open>os.Exit(1)\<close>, which skips deferred calls, or the return of \<open>main\<close>, which flushes
  the traces. \<open>fails ''start''\<close> is the error of \<open>mgr.Start\<close>.
\<close>

datatype ending = ExitOne string | Returned shutdown

record mainRun =
  ending :: ending
  registered :: "string list"
  started :: bool

definition mainProgram ::
  "web \<Rightarrow> (string \<Rightarrow> string) \<Rightarrow> (string \<Rightarrow> string option) \<Rightarrow> flags \<Rightarrow> mainRun" where
  "mainProgram W getenv fails f =
     (case fst (telemetrySetup W getenv fails \<lparr>propagators = [], tracerProvider = None\<rparr>) of
        Inl e \<Rightarrow> \<lparr>ending = ExitOne ''failed to initialise OpenTelemetry'', registered = [], started = False\<rparr>
      | Inr otelShutdown \<Rightarrow>
          (case runSteps fails (setupSteps f) [] of
             Inl msg \<Rightarrow> \<lparr>ending = ExitOne msg, registered = [], started = False\<rparr>
           | Inr performed \<Rightarrow>
               (case fails ''start'' of
                  Some e \<Rightarrow> \<lparr>ending = ExitOne ''problem running manager'', registered = performed, started = True\<rparr>
                | None \<Rightarrow> \<lparr>ending = Returned otelShutdown, registered = performed, started = True\<rparr>)))"

section \<open>Lemmas\<close>

text \<open>A ratio sampler gets a ratio between 0 and 1, unless the environment says NaN.\<close>

lemma parseRatio_range:
  assumes "parseRatio W s (Finite 1) = r"
  shows "r = NaN \<or> (\<exists>q. r = Finite q \<and> 0 \<le> q \<and> q \<le> 1)"
  using assms by (cases r) (auto simp: parseRatio_def outsideUnit_def split: if_splits sum.splits gofloat.splits)

lemma runSteps_Inr:
  "runSteps fails steps performed = Inr all \<longleftrightarrow>
     (\<forall>(step, msg) \<in> set steps. fails step = None) \<and> all = performed @ map fst steps"
  by (induction fails steps performed rule: runSteps.induct) (auto split: option.splits)

lemma runSteps_started:
  "(\<exists>all. runSteps fails steps [] = Inr all) \<longleftrightarrow> (\<forall>(step, msg) \<in> set steps. fails step = None)"
  by (simp add: runSteps_Inr)

text \<open>
  The manager runs exactly when tracing and every step succeeded, and then all controllers and webhooks
  are registered.
\<close>

lemma mainProgram_started:
  "started (mainProgram W getenv fails f) \<longleftrightarrow>
     (\<exists>sd. fst (telemetrySetup W getenv fails \<lparr>propagators = [], tracerProvider = None\<rparr>) = Inr sd) \<and>
     (\<forall>(step, msg) \<in> set (setupSteps f). fails step = None)"
proof (cases "fst (telemetrySetup W getenv fails \<lparr>propagators = [], tracerProvider = None\<rparr>)")
  case (Inr sd)
  show ?thesis unfolding runSteps_started [symmetric]
    by (auto simp: mainProgram_def Inr split: sum.splits option.splits)
qed (simp add: mainProgram_def)

lemma mainProgram_registered:
  "started (mainProgram W getenv fails f) \<Longrightarrow> registered (mainProgram W getenv fails f) = map fst (setupSteps f)"
  by (cases "runSteps fails (setupSteps f) []")
    (auto simp: mainProgram_def dest: runSteps_Inr [THEN iffD1] split: sum.splits option.splits)

lemma sliceElems_append:
  assumes "slCap s = 0 \<or> slArray s < length h \<and> length (h ! slArray s) = slCap s" "slLen s \<le> slCap s" "slLen s < grow (slLen s + 1)"
    and "sliceAppend grow z h s x = (s', h')"
  shows "sliceElems h' s' = sliceElems h s @ [x]"
  using assms by (auto simp: sliceAppend_def sliceElems_def nth_append take_Suc_conv_app_nth split: if_splits)

text \<open>The options each server should have.\<close>

definition sharedOpts :: "flags \<Rightarrow> tlsOpt list" where
  "sharedOpts f = (if enableHTTP2 f then [] else [DisableHTTP2])"

definition ownOpts :: "server \<Rightarrow> string \<Rightarrow> tlsOpt list" where
  "ownOpts srv certPath = (if certPath = '''' then [] else [GetCertificate srv])"

section \<open>Properties\<close>

text \<open>
  C15: Each server gets the shared TLS options and its own certificate. The metrics server always does.
  The webhook server does, too, unless HTTP/2 is disabled, both certificates are configured and the
  Go implementation leaves room behind the first appended element: then the second \<open>append\<close> to the
  shared slice replaces the webhook certificate by that of the metrics server.
\<close>

theorem servers_keep_certificates:
  assumes "\<And>n. n \<le> grow n" "serverSetup grow f = (opts, h)"
  shows "sliceElems h (metricsTLS opts) = sharedOpts f @ ownOpts MetricsServer (metricsCertPath f) \<and>
    (sliceElems h (webhookTLS opts) = sharedOpts f @ ownOpts WebhookServer (webhookCertPath f) \<longleftrightarrow>
      enableHTTP2 f \<or> webhookCertPath f = '''' \<or> metricsCertPath f = '''' \<or> grow 1 = 1)"
proof -
  have g: "Suc 0 \<le> grow (Suc 0)" "2 \<le> grow 2" using assms(1) by auto
  then obtain m where m: "grow (Suc 0) = Suc m" by (metis Suc_le_D)
  obtain k where k: "grow 2 = Suc (Suc k)" using g(2) by (metis Suc_le_D numeral_2_eq_2 Suc_le_mono)
  show ?thesis
    using assms(2) m k
    by (cases m) (auto simp: serverSetup_def sliceAppend_def sliceElems_def nilSlice_def sharedOpts_def ownOpts_def Let_def
        numeral_2_eq_2 split: if_splits)
qed

theorem servers_keep_certificates_witness:
  "case serverSetup (\<lambda>n. n) (defaultFlags\<lparr>webhookCertPath := ''/w'', metricsCertPath := ''/m''\<rparr>) of (opts, h) \<Rightarrow>
     sliceElems h (metricsTLS opts) = [DisableHTTP2, GetCertificate MetricsServer] \<and>
     sliceElems h (webhookTLS opts) = [DisableHTTP2, GetCertificate WebhookServer]"
proof -
  obtain opts h where r: "serverSetup (\<lambda>n. n) (defaultFlags\<lparr>webhookCertPath := ''/w'', metricsCertPath := ''/m''\<rparr>) = (opts, h)"
    by fastforce
  show ?thesis unfolding r using servers_keep_certificates [OF _ r] by (simp add: defaultFlags_def sharedOpts_def ownOpts_def)
qed

end
