(* ===== verification/Watches.thy ===== *)
theory Watches
  imports Cluster_Policy Cron_Runs
begin

text \<open>
  Which events start a reconciliation: \<open>SetupWithManager\<close> of the four controllers in
  \<open>internal/controller\<close>, with the two map functions \<open>annotationMapper\<close> and \<open>energyPriceSourceToEACJs\<close>. The
  queueing of requests is controller-runtime's and a parameter (locale \<open>event_source\<close>): a watch with
  \<open>For\<close> requests the object itself, one with \<open>Owns\<close> the controlling owner, one with a map function what the
  function returns, for the old and the new object of an update.
\<close>

section \<open>Registrations\<close>

datatype objKind =
    EnergyPriceSourceK | EnergyAwareCronJobK | HibernatePolicyK | ClusterHibernatePolicyK
  | JobK | NamespaceK | WorkloadK wkind

text \<open>\<open>client.Object\<close>; the controlling owner is given when it is of a kind of this program. Cluster-wide objects have no namespace.\<close>

record clientObject =
  obKind :: objKind
  obNamespace :: string
  obName :: string
  obAnnotations :: annotations
  obController :: "(objKind \<times> string) option"

type_synonym request = "string \<times> string"

record controller =
  ctlName :: string
  ctlFor :: objKind
  ctlOwns :: "objKind list"
  ctlWatches :: "(objKind \<times> (clientObject \<Rightarrow> request list)) list"

definition EnergyPriceSource_Setup :: controller where
  "EnergyPriceSource_Setup =
     \<lparr>ctlName = ''energypricesource'', ctlFor = EnergyPriceSourceK, ctlOwns = [], ctlWatches = []\<rparr>"

definition HibernatePolicy_Setup :: controller where
  "HibernatePolicy_Setup =
     \<lparr>ctlName = ''hibernatepolicy'', ctlFor = HibernatePolicyK, ctlOwns = [], ctlWatches = []\<rparr>"

text \<open>The map function of the policies names a cluster-wide object.\<close>

definition policyRequests :: "clientObject \<Rightarrow> request list" where
  "policyRequests obj = map (\<lambda>name. ('''', name)) (annotationMapper (obAnnotations obj))"

definition ClusterHibernatePolicy_Setup :: controller where
  "ClusterHibernatePolicy_Setup =
     \<lparr>ctlName = ''clusterhibernatepolicy'', ctlFor = ClusterHibernatePolicyK, ctlOwns = [],
      ctlWatches = [(WorkloadK Deployment, policyRequests), (WorkloadK StatefulSet, policyRequests),
        (WorkloadK DaemonSet, policyRequests), (WorkloadK ReplicaSet, policyRequests), (NamespaceK, policyRequests)]\<rparr>"

text \<open>The map function of the cron jobs lists them in the cluster state \<open>s\<close> of the event.\<close>

definition EnergyAwareCronJob_Setup :: "('s, 'm) cjClient_scheme \<Rightarrow> 's \<Rightarrow> controller" where
  "EnergyAwareCronJob_Setup C s =
     \<lparr>ctlName = ''energyawarecronjob'', ctlFor = EnergyAwareCronJobK, ctlOwns = [JobK],
      ctlWatches = [(EnergyPriceSourceK, \<lambda>obj. energyPriceSourceToEACJs C (obNamespace obj) (obName obj) s)]\<rparr>"

section \<open>Events\<close>

datatype event = Created clientObject | Updated clientObject clientObject | Deleted clientObject

fun eventObjects :: "event \<Rightarrow> clientObject list" where
  "eventObjects (Created x) = [x]"
| "eventObjects (Updated x y) = [x, y]"
| "eventObjects (Deleted x) = [x]"

definition objectRequests :: "controller \<Rightarrow> clientObject \<Rightarrow> request set" where
  "objectRequests ctl x =
     (if obKind x = ctlFor ctl then {(obNamespace x, obName x)} else {}) \<union>
     (case obController x of
        Some (k, n) \<Rightarrow> if obKind x \<in> set (ctlOwns ctl) \<and> k = ctlFor ctl then {(obNamespace x, n)} else {}
      | None \<Rightarrow> {}) \<union>
     (\<Union>(k, f) \<in> set (ctlWatches ctl). if obKind x = k then set (f x) else {})"

text \<open>What the code relies on of controller-runtime: the requests a controller gets for an event.\<close>

locale event_source =
  fixes enqueue :: "controller \<Rightarrow> event \<Rightarrow> request list"
  assumes enqueue_set: "set (enqueue ctl ev) = (\<Union>x \<in> set (eventObjects ev). objectRequests ctl x)"
begin

lemma policy_requests:
  assumes "\<And>x. x \<in> set (eventObjects ev) \<Longrightarrow> obKind x = NamespaceK \<or> (\<exists>k. obKind x = WorkloadK k)"
  shows "set (enqueue ClusterHibernatePolicy_Setup ev) =
    Pair '''' ` (\<lambda>x. ann (obAnnotations x) AnnotationClusterHibernatePolicy) ` set (eventObjects ev) - {('''', '''')}"
proof -
  have "objectRequests ClusterHibernatePolicy_Setup x =
      (if ann (obAnnotations x) AnnotationClusterHibernatePolicy = '''' then {}
       else {('''', ann (obAnnotations x) AnnotationClusterHibernatePolicy)})" if "x \<in> set (eventObjects ev)" for x
    using assms [OF that]
  proof (elim disjE exE)
    fix k assume "obKind x = WorkloadK k"
    then show ?thesis by (cases k)
        (auto simp: objectRequests_def ClusterHibernatePolicy_Setup_def policyRequests_def annotationMapper_def Let_def
          split: option.splits)
  qed (auto simp: objectRequests_def ClusterHibernatePolicy_Setup_def policyRequests_def annotationMapper_def Let_def
          split: option.splits)
  then show ?thesis by (auto simp: enqueue_set)
qed

end

text \<open>A queue: the requests in the order of the objects and watches.\<close>

definition enqueueObject :: "controller \<Rightarrow> clientObject \<Rightarrow> request list" where
  "enqueueObject ctl x =
     (if obKind x = ctlFor ctl then [(obNamespace x, obName x)] else []) @
     (case obController x of
        Some (k, n) \<Rightarrow> if obKind x \<in> set (ctlOwns ctl) \<and> k = ctlFor ctl then [(obNamespace x, n)] else []
      | None \<Rightarrow> []) @
     concat (map (\<lambda>(k, f). if obKind x = k then f x else []) (ctlWatches ctl))"

definition enqueueAll :: "controller \<Rightarrow> event \<Rightarrow> request list" where
  "enqueueAll ctl ev = concat (map (enqueueObject ctl) (eventObjects ev))"

lemma set_enqueueObject: "set (enqueueObject ctl x) = objectRequests ctl x"
proof -
  have "set (case kf of (k, f) \<Rightarrow> if obKind x = k then f x else []) = (case kf of (k, f) \<Rightarrow> if obKind x = k then set (f x) else {})"
    for kf :: "objKind \<times> (clientObject \<Rightarrow> request list)" by (cases kf) simp
  then show ?thesis by (auto simp: enqueueObject_def objectRequests_def split: option.split)
qed

interpretation queue: event_source enqueueAll
  by unfold_locales (simp add: enqueueAll_def set_enqueueObject)

section \<open>The scheme\<close>

text \<open>
  The types of the API group, \<open>api/v1alpha1\<close>: each \<open>init\<close> registers a kind and its list with
  \<open>SchemeBuilder\<close>, and \<open>main\<close> adds them to the scheme of the manager. A controller can watch a kind of the
  program only when the scheme knows it.
\<close>

definition GroupVersion :: "string \<times> string" where
  "GroupVersion = (''greencosts.hstr.nl'', ''v1alpha1'')"

type_synonym scheme = "((string \<times> string) \<times> string) set"

definition RegisterTypes :: "string list \<Rightarrow> scheme \<Rightarrow> scheme" where
  "RegisterTypes kinds sch = sch \<union> Pair GroupVersion ` set kinds"

definition ClusterHibernatePolicy_init :: "scheme \<Rightarrow> scheme" where
  "ClusterHibernatePolicy_init = RegisterTypes [''ClusterHibernatePolicy'', ''ClusterHibernatePolicyList'']"

definition EnergyAwareCronJob_init :: "scheme \<Rightarrow> scheme" where
  "EnergyAwareCronJob_init = RegisterTypes [''EnergyAwareCronJob'', ''EnergyAwareCronJobList'']"

definition EnergyPriceSource_init :: "scheme \<Rightarrow> scheme" where
  "EnergyPriceSource_init = RegisterTypes [''EnergyPriceSource'', ''EnergyPriceSourceList'']"

definition HibernatePolicy_init :: "scheme \<Rightarrow> scheme" where
  "HibernatePolicy_init = RegisterTypes [''HibernatePolicy'', ''HibernatePolicyList'']"

text \<open>\<open>clientgo\<close> are the kinds of the Kubernetes API, from \<open>clientgoscheme.AddToScheme\<close>.\<close>

definition main_init :: "scheme \<Rightarrow> scheme" where
  "main_init clientgo =
     (HibernatePolicy_init \<circ> EnergyPriceSource_init \<circ> EnergyAwareCronJob_init \<circ> ClusterHibernatePolicy_init) clientgo"

fun kindName :: "objKind \<Rightarrow> (string \<times> string) \<times> string" where
  "kindName EnergyPriceSourceK = (GroupVersion, ''EnergyPriceSource'')"
| "kindName EnergyAwareCronJobK = (GroupVersion, ''EnergyAwareCronJob'')"
| "kindName HibernatePolicyK = (GroupVersion, ''HibernatePolicy'')"
| "kindName ClusterHibernatePolicyK = (GroupVersion, ''ClusterHibernatePolicy'')"
| "kindName JobK = ((''batch'', ''v1''), ''Job'')"
| "kindName NamespaceK = (('''', ''v1''), ''Namespace'')"
| "kindName (WorkloadK k) = ((''apps'', ''v1''), workloadKind k)"

definition controllers :: "('s, 'm) cjClient_scheme \<Rightarrow> 's \<Rightarrow> controller list" where
  "controllers C s = [EnergyPriceSource_Setup, EnergyAwareCronJob_Setup C s, HibernatePolicy_Setup, ClusterHibernatePolicy_Setup]"

text \<open>Every kind a controller asks for is known, given the Jobs, namespaces and workloads of Kubernetes.\<close>

lemma main_init_has:
  "clientgo \<subseteq> main_init clientgo" "(GroupVersion, ''EnergyPriceSource'') \<in> main_init clientgo"
  "(GroupVersion, ''EnergyAwareCronJob'') \<in> main_init clientgo" "(GroupVersion, ''HibernatePolicy'') \<in> main_init clientgo"
  "(GroupVersion, ''ClusterHibernatePolicy'') \<in> main_init clientgo"
  by (simp_all add: main_init_def HibernatePolicy_init_def EnergyPriceSource_init_def EnergyAwareCronJob_init_def
      ClusterHibernatePolicy_init_def RegisterTypes_def subset_insertI2)

lemma watched_kinds_registered:
  assumes "kindName JobK \<in> clientgo" "kindName NamespaceK \<in> clientgo" "\<And>w. kindName (WorkloadK w) \<in> clientgo"
    and "ctl \<in> set (controllers C s)" "k \<in> {ctlFor ctl} \<union> set (ctlOwns ctl) \<union> fst ` set (ctlWatches ctl)"
  shows "kindName k \<in> main_init clientgo"
  using assms(1-3) main_init_has(1) by (cases k) (simp_all only: kindName.simps main_init_has(2-) subset_iff)

section \<open>Changes\<close>

text \<open>A change of one object of the cluster: created (no old object), updated or deleted (no new one).\<close>

datatype change =
    WorkloadChange wkind "workload option" "workload option"
  | NamespaceChange string "annotations option" "annotations option"

definition workloadObject :: "wkind \<Rightarrow> workload \<Rightarrow> clientObject" where
  "workloadObject k w = \<lparr>obKind = WorkloadK k, obNamespace = wNamespace w, obName = wName w,
     obAnnotations = wAnnotations w, obController = None\<rparr>"

definition namespaceObject :: "string \<Rightarrow> annotations \<Rightarrow> clientObject" where
  "namespaceObject n a = \<lparr>obKind = NamespaceK, obNamespace = '''', obName = n, obAnnotations = a, obController = None\<rparr>"

definition changeEvent :: "clientObject option \<Rightarrow> clientObject option \<Rightarrow> event option" where
  "changeEvent old new = (case (old, new) of
     (None, None) \<Rightarrow> None | (None, Some y) \<Rightarrow> Some (Created y)
   | (Some x, Some y) \<Rightarrow> Some (Updated x y) | (Some x, None) \<Rightarrow> Some (Deleted x))"

fun eventOf :: "change \<Rightarrow> event option" where
  "eventOf (WorkloadChange k old new) = changeEvent (map_option (workloadObject k) old) (map_option (workloadObject k) new)"
| "eventOf (NamespaceChange n old new) = changeEvent (map_option (namespaceObject n) old) (map_option (namespaceObject n) new)"

text \<open>The workloads and namespaces before and after.\<close>

fun applied :: "change \<Rightarrow> (wkey \<rightharpoonup> workload) \<Rightarrow> (string \<times> annotations) set \<Rightarrow>
    (wkey \<rightharpoonup> workload) \<Rightarrow> (string \<times> annotations) set \<Rightarrow> bool" where
  "applied (WorkloadChange k old new) m nss m' nss' \<longleftrightarrow>
     (\<exists>ns n. m (k, ns, n) = old \<and> m' = m((k, ns, n) := new)) \<and> nss' = nss"
| "applied (NamespaceChange n old new) m nss m' nss' \<longleftrightarrow>
     m' = m \<and> nss - {n} \<times> UNIV = nss' - {n} \<times> UNIV \<and>
     {a. (n, a) \<in> nss} = set_option old \<and> {a. (n, a) \<in> nss'} = set_option new"

text \<open>The workload that changes belongs to the policy through its namespace only.\<close>

fun inherited :: "clusterHibernatePolicy \<Rightarrow> (string \<times> annotations) set \<Rightarrow> change \<Rightarrow> bool" where
  "inherited chp nss (WorkloadChange k old new) \<longleftrightarrow>
     (\<exists>w a. (old = Some w \<or> new = Some w) \<and> policyOf w = '''' \<and>
       (wNamespace w, a) \<in> nss \<and> ann a AnnotationClusterHibernatePolicy = chpName chp)"
| "inherited chp nss (NamespaceChange n old new) \<longleftrightarrow> False"

lemma changeEvent_objects:
  "changeEvent old new = Some ev \<Longrightarrow> set (eventObjects ev) = set_option old \<union> set_option new"
  by (auto simp: changeEvent_def split: option.splits)

lemma changeEvent_Some: "old \<noteq> None \<or> new \<noteq> None \<Longrightarrow> \<exists>ev. changeEvent old new = Some ev"
  by (auto simp: changeEvent_def split: option.splits)

lemma refsWhere_same:
  "(\<And>k ns n w. m (k, ns, n) = Some w \<and> P k ns w \<longleftrightarrow> m' (k, ns, n) = Some w \<and> P k ns w) \<Longrightarrow> refsWhere m P = refsWhere m' P"
  by (simp add: refsWhere_def)

text \<open>A change of what is governed comes from an object that names the policy, before or after.\<close>

lemma governed_workload_change:
  assumes "refsWhere m (governs chp nss) \<noteq> refsWhere (m((k, ns, n) := new)) (governs chp nss)"
    and "\<And>w. m (k, ns, n) = Some w \<or> new = Some w \<Longrightarrow> wNamespace w = ns"
    and "\<not> inherited chp nss (WorkloadChange k (m (k, ns, n)) new)"
  shows "\<exists>w. (m (k, ns, n) = Some w \<or> new = Some w) \<and> policyOf w = chpName chp"
proof (rule ccontr)
  assume none: "\<not> ?thesis"
  have "\<not> governs chp nss k ns w" if "m (k, ns, n) = Some w \<or> new = Some w" for w
    using that none assms(2) [OF that] assms(3) by (auto simp: governs_def)
  then have "refsWhere m (governs chp nss) = refsWhere (m((k, ns, n) := new)) (governs chp nss)"
    by (intro refsWhere_same) auto
  with assms(1) show False by simp
qed

lemma governed_namespace_change:
  assumes "refsWhere m (governs chp nss) \<noteq> refsWhere m (governs chp nss')"
    and "applied (NamespaceChange n old new) m nss m nss'"
  shows "\<exists>a \<in> set_option old \<union> set_option new. ann a AnnotationClusterHibernatePolicy = chpName chp"
proof (rule ccontr)
  assume none: "\<not> ?thesis"
  have "(x, a) \<in> nss \<longleftrightarrow> (x, a) \<in> nss'" if "ann a AnnotationClusterHibernatePolicy = chpName chp" for x a
    using that none assms(2) by (cases "x = n") auto
  then have "governs chp nss = governs chp nss'" by (intro ext) (auto simp: governs_def)
  with assms(1) show False by simp
qed

text \<open>The objects of the event of a change, and the policies they ask for.\<close>

lemma event_requests:
  assumes "event_source enqueue" "eventOf ch = Some ev"
  shows "set (enqueue ClusterHibernatePolicy_Setup ev) = Pair '''' `
    (case ch of
       WorkloadChange k old new \<Rightarrow> policyOf ` (set_option old \<union> set_option new)
     | NamespaceChange n old new \<Rightarrow> (\<lambda>a. ann a AnnotationClusterHibernatePolicy) ` (set_option old \<union> set_option new)) - {('''', '''')}"
proof (cases ch)
  case (WorkloadChange k old new)
  then have objects: "set (eventObjects ev) = workloadObject k ` (set_option old \<union> set_option new)"
    using changeEvent_objects assms(2) by (fastforce simp: option.set_map image_Un)
  have "set (enqueue ClusterHibernatePolicy_Setup ev) =
    Pair '''' ` (\<lambda>x. ann (obAnnotations x) AnnotationClusterHibernatePolicy) ` set (eventObjects ev) - {('''', '''')}"
    by (rule event_source.policy_requests [OF assms(1)]) (auto simp: objects workloadObject_def)
  then show ?thesis by (simp add: objects image_image WorkloadChange workloadObject_def policyOf_def)
next
  case (NamespaceChange n old new)
  then have objects: "set (eventObjects ev) = namespaceObject n ` (set_option old \<union> set_option new)"
    using changeEvent_objects assms(2) by (fastforce simp: option.set_map image_Un)
  have "set (enqueue ClusterHibernatePolicy_Setup ev) =
    Pair '''' ` (\<lambda>x. ann (obAnnotations x) AnnotationClusterHibernatePolicy) ` set (eventObjects ev) - {('''', '''')}"
    by (rule event_source.policy_requests [OF assms(1)]) (auto simp: objects namespaceObject_def)
  then show ?thesis by (simp add: objects image_image NamespaceChange namespaceObject_def)
qed

section \<open>Properties\<close>

text \<open>
  C18: When one workload or namespace is created, changed or deleted, and a ClusterHibernatePolicy governs
  other workloads after that (\<open>collectWorkloads\<close> returns other references), then the event of the change
  requests a reconciliation of that policy, unless the workload names no policy itself and falls under
  the policy through the annotation of its namespace (there the periodic run of at most five minutes is
  what finds it).
\<close>

theorem governance_change_is_requested:
  assumes "chp_api C stored storedHPA namespaces" "event_source enqueue" "chpName chp \<noteq> ''''"
    and "slashFreeStore (stored s)" "slashFreeStore (stored s')"
    and "applied ch (stored s) (namespaces s) (stored s') (namespaces s')" "\<not> inherited chp (namespaces s) ch"
    and "collectWorkloads C (chpName chp) chp s = Inr refs" "collectWorkloads C (chpName chp) chp s' = Inr refs'"
    and "set refs \<noteq> set refs'"
  shows "\<exists>ev. eventOf ch = Some ev \<and> ('''', chpName chp) \<in> set (enqueue ClusterHibernatePolicy_Setup ev)"
proof -
  note exact = chp_api.collect_exact [OF assms(1,8,4)] chp_api.collect_exact [OF assms(1,9,5)]
  note key = workload_api.stored_key [OF chp_api.axioms(1) [OF assms(1)]]
  have "\<exists>ev. eventOf ch = Some ev \<and> chpName chp \<in> (case ch of
       WorkloadChange k old new \<Rightarrow> policyOf ` (set_option old \<union> set_option new)
     | NamespaceChange n old new \<Rightarrow> (\<lambda>a. ann a AnnotationClusterHibernatePolicy) ` (set_option old \<union> set_option new))"
  proof (cases ch)
    case (WorkloadChange k old new)
    then obtain ns n where ch: "stored s (k, ns, n) = old" "stored s' = (stored s)((k, ns, n) := new)"
      "namespaces s' = namespaces s" using assms(6) by auto
    have ns: "wNamespace w = ns" if "stored s (k, ns, n) = Some w \<or> new = Some w" for w
      using key [of s k ns n w] key [of s' k ns n w] that ch(2) by auto
    have "refsWhere (stored s) (governs chp (namespaces s)) \<noteq>
        refsWhere ((stored s)((k, ns, n) := new)) (governs chp (namespaces s))"
      using exact assms(10) unfolding ch(2,3) by metis
    from governed_workload_change [OF this ns] obtain w where w: "old = Some w \<or> new = Some w" "policyOf w = chpName chp"
      using assms(7) ch(1) WorkloadChange by blast
    then have "\<exists>ev. eventOf ch = Some ev" by (auto simp: WorkloadChange intro!: changeEvent_Some)
    with w show ?thesis by (force simp: WorkloadChange)
  next
    case (NamespaceChange n old new)
    then obtain a where a: "a \<in> set_option old \<union> set_option new" "ann a AnnotationClusterHibernatePolicy = chpName chp"
      using governed_namespace_change [of "stored s" chp "namespaces s" "namespaces s'" n old new] exact assms(6,10) by auto
    then have "\<exists>ev. eventOf ch = Some ev" by (auto simp: NamespaceChange intro!: changeEvent_Some)
    with a show ?thesis by (force simp: NamespaceChange)
  qed
  then show ?thesis using event_requests [OF assms(2)] assms(3) by blast
qed

definition simBefore :: workload where
  "simBefore = (plainWorkload ''sim'' (Some 4) None)\<lparr>wNamespace := ''lab'', wAnnotations := namesPolicy ''quiet''\<rparr>"

definition simAfter :: workload where
  "simAfter = simBefore\<lparr>wAnnotations := Map.empty\<rparr>"

definition quietWithoutSim :: chpMemState where
  "quietWithoutSim = quietCluster\<lparr>mWorkloads := alistPut (Deployment, ''lab'', ''sim'') simAfter (mWorkloads quietCluster)\<rparr>"

lemma sim_removed:
  "memStored quietCluster (Deployment, ''lab'', ''sim'') = Some simBefore"
  "memStored quietWithoutSim = (memStored quietCluster)((Deployment, ''lab'', ''sim'') \<mapsto> simAfter)"
proof -
  have sim: "wkey Deployment simBefore = (Deployment, ''lab'', ''sim'')" "wkey Deployment simAfter = wkey Deployment simBefore"
    by (simp_all add: wkey_def simAfter_def simBefore_def plainWorkload_def)
  show before: "memStored quietCluster (Deployment, ''lab'', ''sim'') = Some simBefore"
    by (simp add: memStored_def quietCluster_def simBefore_def plainWorkload_def)
  show "memStored quietWithoutSim = (memStored quietCluster)((Deployment, ''lab'', ''sim'') \<mapsto> simAfter)"
    using memStored_put [OF _ sim(2), of quietCluster] before by (simp add: quietWithoutSim_def sim(1))
qed

lemma quietWithoutSim_slashFree: "slashFreeStore (memStored quietWithoutSim)"
  using quietCluster_slashFree by (auto simp: slashFreeStore_def sim_removed(2))

theorem governance_change_is_requested_witness:
  "collectWorkloads (memChpClient noFault) ''quiet'' quietPolicy quietCluster \<noteq>
     collectWorkloads (memChpClient noFault) ''quiet'' quietPolicy quietWithoutSim \<and>
   (\<exists>ev. eventOf (WorkloadChange Deployment (Some simBefore) (Some simAfter)) = Some ev \<and>
     ('''', ''quiet'') \<in> set (enqueueAll ClusterHibernatePolicy_Setup ev))"
proof -
  let ?web = "\<lparr>rNamespace = ''shop'', rKind = ''Deployment'', rName = ''web''\<rparr>"
  let ?sim = "\<lparr>rNamespace = ''lab'', rKind = ''Deployment'', rName = ''sim''\<rparr>"
  have runs: "collectWorkloads (memChpClient noFault) ''quiet'' quietPolicy quietCluster = Inr [?web, ?sim]"
    "collectWorkloads (memChpClient noFault) ''quiet'' quietPolicy quietWithoutSim = Inr [?web]"
    by code_simp+
  have name: "chpName quietPolicy = ''quiet''" by (simp add: quietPolicy_def)
  have "applied (WorkloadChange Deployment (Some simBefore) (Some simAfter)) (memStored quietCluster)
      ((set \<circ> mNamespaces) quietCluster) (memStored quietWithoutSim) ((set \<circ> mNamespaces) quietWithoutSim)"
    using sim_removed by (auto simp: quietWithoutSim_def)
  moreover have "\<not> inherited quietPolicy ((set \<circ> mNamespaces) quietCluster)
      (WorkloadChange Deployment (Some simBefore) (Some simAfter))"
    by (auto simp: quietCluster_def simAfter_def simBefore_def name ann_def)
  ultimately show ?thesis
    using governance_change_is_requested [OF memChp.chp_api_axioms queue.event_source_axioms, of quietPolicy quietCluster
        quietWithoutSim "WorkloadChange Deployment (Some simBefore) (Some simAfter)" noFault "[?web, ?sim]" "[?web]"]
      quietCluster_slashFree quietWithoutSim_slashFree runs name by simp
qed

text \<open>The exception: an unannotated workload in a governed namespace starts no reconciliation.\<close>

lemma inherited_change_not_requested:
  assumes "event_source enqueue" "eventOf (WorkloadChange k old new) = Some ev"
    and "\<And>w. old = Some w \<or> new = Some w \<Longrightarrow> policyOf w = ''''"
  shows "enqueue ClusterHibernatePolicy_Setup ev = []"
proof -
  have "set (enqueue ClusterHibernatePolicy_Setup ev) = {}"
    using event_requests [OF assms(1,2)] assms(3) by auto
  then show ?thesis by simp
qed

definition jobObject :: "job \<Rightarrow> clientObject" where
  "jobObject j = \<lparr>obKind = JobK, obNamespace = jNamespace j, obName = jName j, obAnnotations = jAnnotations j,
     obController = map_option (Pair EnergyAwareCronJobK) (jController j)\<rparr>"

text \<open>
  C20: An event of an EnergyPriceSource requests a reconciliation of exactly the cron jobs of its namespace
  that use it (when they can be listed), and an update of a Job, its completion for one, of exactly the
  cron job that controls it.
\<close>

theorem cron_job_events:
  assumes "event_source enqueue" "listEACJs C ns s = Inr items"
    and "\<And>x. x \<in> set (eventObjects ev) \<Longrightarrow> obKind x = EnergyPriceSourceK \<and> obNamespace x = ns \<and> obName x = source"
    and "jNamespace j' = jNamespace j" "jController j = Some n" "jController j' = Some n"
  shows "set (enqueue (EnergyAwareCronJob_Setup C s) ev) =
      (\<lambda>e. (eNamespace e, eName e)) ` {e \<in> set items. ePriceSource e = source} \<and>
    set (enqueue (EnergyAwareCronJob_Setup C s) (Updated (jobObject j) (jobObject j'))) = {(jNamespace j, n)}"
proof
  have "objectRequests (EnergyAwareCronJob_Setup C s) x =
      (\<lambda>e. (eNamespace e, eName e)) ` {e \<in> set items. ePriceSource e = source}" if "x \<in> set (eventObjects ev)" for x
    using assms(2) assms(3) [OF that]
    by (auto simp: objectRequests_def EnergyAwareCronJob_Setup_def energyPriceSourceToEACJs_def split: option.splits)
  moreover have "set (eventObjects ev) \<noteq> {}" by (cases ev) auto
  ultimately show "set (enqueue (EnergyAwareCronJob_Setup C s) ev) =
      (\<lambda>e. (eNamespace e, eName e)) ` {e \<in> set items. ePriceSource e = source}"
    by (simp add: event_source.enqueue_set [OF assms(1)])
  show "set (enqueue (EnergyAwareCronJob_Setup C s) (Updated (jobObject j) (jobObject j'))) = {(jNamespace j, n)}"
    using assms(4-6) by (simp add: event_source.enqueue_set [OF assms(1)] objectRequests_def EnergyAwareCronJob_Setup_def jobObject_def)
qed

definition pricesObject :: clientObject where
  "pricesObject = \<lparr>obKind = EnergyPriceSourceK, obNamespace = ''ns'', obName = ''prices'', obAnnotations = Map.empty, obController = None\<rparr>"

definition reportJob :: "(string \<times> string) list \<Rightarrow> job" where
  "reportJob conds = (buildJob demoCron 0)\<lparr>jController := Some ''report'', jConditions := conds\<rparr>"

theorem cron_job_events_witness:
  "set (enqueueAll (EnergyAwareCronJob_Setup (memCjClient (\<lambda>_. None)) demoStart) (Created pricesObject)) = {(''ns'', ''report'')} \<and>
   set (enqueueAll (EnergyAwareCronJob_Setup (memCjClient (\<lambda>_. None)) demoStart)
     (Updated (jobObject (reportJob [])) (jobObject (reportJob [(''Complete'', ''True'')])))) = {(''ns'', ''report'')}"
proof -
  have "listEACJs (memCjClient (\<lambda>_. None)) ''ns'' demoStart = Inr [demoCron]"
    by (simp add: memCjClient_def demoStart_def)
  moreover have "{e \<in> set [demoCron]. ePriceSource e = ''prices''} = {demoCron}"
    "eNamespace demoCron = ''ns''" "eName demoCron = ''report''" "jNamespace (reportJob c) = ''ns''"
    "jController (reportJob c) = Some ''report''" for c
    by (auto simp: demoCron_def reportJob_def buildJob_def)
  ultimately show ?thesis
    using cron_job_events [OF queue.event_source_axioms, of "memCjClient (\<lambda>_. None)" "''ns''" demoStart "[demoCron]"
        "Created pricesObject" "''prices''" "reportJob [(''Complete'', ''True'')]" "reportJob []" "''report''"]
    by (simp add: pricesObject_def)
qed

end
