(* ===== verification/Go_Heap.thy ===== *)
theory Go_Heap
  imports Prelude
begin

text \<open>
  Pointers and slices of Go, and what a deep copy is.

  A heap is the list of the arrays allocated so far; an address is an index and allocation appends. A
  cell holds an array; a variable that a pointer points to is an array of one element. A slice is the
  address of its array and its length; the capacity is the length of the array. A nil pointer or slice
  is \<^const>\<open>None\<close>. The type \<open>'c\<close> of the cells is fixed by the program; \<open>arr\<close> and \<open>mk\<close> read and
  make a cell for one element type.
\<close>

type_synonym addr = nat
type_synonym pref = "addr option"
type_synonym sref = "(addr \<times> nat) option"
type_synonym 'c heap = "'c list"

section \<open>Copying\<close>

text \<open>
  \<open>*out = make([]T, len(*in))\<close> and the loop \<open>(*in)[i].DeepCopyInto(&(*out)[i])\<close>: the new array has its
  address before the elements allocate theirs. With \<open>copyValue\<close> for the elements it is \<open>copy(*out, *in)\<close>.
\<close>

definition copyValue :: "'a \<Rightarrow> 'c heap \<Rightarrow> 'a \<times> 'c heap" where
  "copyValue x h = (x, h)"

fun copyElems :: "('a \<Rightarrow> 'c heap \<Rightarrow> 'a \<times> 'c heap) \<Rightarrow> 'a list \<Rightarrow> 'c heap \<Rightarrow> 'a list \<times> 'c heap" where
  "copyElems into [] h = ([], h)"
| "copyElems into (x # xs) h =
     (case into x h of (y, h1) \<Rightarrow> case copyElems into xs h1 of (ys, h2) \<Rightarrow> (y # ys, h2))"

definition copySlice ::
  "('a \<Rightarrow> 'c heap \<Rightarrow> 'a \<times> 'c heap) \<Rightarrow> ('c \<Rightarrow> 'a list) \<Rightarrow> ('a list \<Rightarrow> 'c) \<Rightarrow> sref \<Rightarrow> 'c heap \<Rightarrow> sref \<times> 'c heap" where
  "copySlice into arr mk s h =
     (case s of
        None \<Rightarrow> (None, h)
      | Some (a, n) \<Rightarrow>
          (case copyElems into (take n (arr (h ! a))) (h @ [mk []]) of
             (ys, h1) \<Rightarrow> (Some (length h, n), h1[length h := mk ys])))"

text \<open>\<open>*out = new(T)\<close> followed by \<open>(*in).DeepCopyInto(*out)\<close>; also the body of every \<open>DeepCopy\<close>.\<close>

definition copyPointer ::
  "('a \<Rightarrow> 'c heap \<Rightarrow> 'a \<times> 'c heap) \<Rightarrow> ('c \<Rightarrow> 'a list) \<Rightarrow> ('a list \<Rightarrow> 'c) \<Rightarrow> pref \<Rightarrow> 'c heap \<Rightarrow> pref \<times> 'c heap" where
  "copyPointer into arr mk p h =
     (case p of
        None \<Rightarrow> (None, h)
      | Some a \<Rightarrow>
          (case into (hd (arr (h ! a))) (h @ [mk []]) of
             (y, h1) \<Rightarrow> (Some (length h), h1[length h := mk [y]])))"

section \<open>Reading\<close>

text \<open>The value behind a slice or pointer, and the addresses it is reached through.\<close>

definition viewSlice :: "('a \<Rightarrow> 'c heap \<Rightarrow> 'v) \<Rightarrow> ('c \<Rightarrow> 'a list) \<Rightarrow> sref \<Rightarrow> 'c heap \<Rightarrow> 'v list option" where
  "viewSlice v arr s h = (case s of None \<Rightarrow> None | Some (a, n) \<Rightarrow> Some (map (\<lambda>x. v x h) (take n (arr (h ! a)))))"

definition refsSlice :: "('a \<Rightarrow> 'c heap \<Rightarrow> addr set) \<Rightarrow> ('c \<Rightarrow> 'a list) \<Rightarrow> sref \<Rightarrow> 'c heap \<Rightarrow> addr set" where
  "refsSlice r arr s h = (case s of None \<Rightarrow> {} | Some (a, n) \<Rightarrow> insert a (\<Union>x \<in> set (take n (arr (h ! a))). r x h))"

definition viewPointer :: "('a \<Rightarrow> 'c heap \<Rightarrow> 'v) \<Rightarrow> ('c \<Rightarrow> 'a list) \<Rightarrow> pref \<Rightarrow> 'c heap \<Rightarrow> 'v option" where
  "viewPointer v arr p h = (case p of None \<Rightarrow> None | Some a \<Rightarrow> Some (v (hd (arr (h ! a))) h))"

definition refsPointer :: "('a \<Rightarrow> 'c heap \<Rightarrow> addr set) \<Rightarrow> ('c \<Rightarrow> 'a list) \<Rightarrow> pref \<Rightarrow> 'c heap \<Rightarrow> addr set" where
  "refsPointer r arr p h = (case p of None \<Rightarrow> {} | Some a \<Rightarrow> insert a (r (hd (arr (h ! a))) h))"

definition viewValue :: "'a \<Rightarrow> 'c heap \<Rightarrow> 'a" where "viewValue x h = x"
definition refsValue :: "'a \<Rightarrow> 'c heap \<Rightarrow> addr set" where "refsValue x h = {}"

text \<open>Pairs, for the fields of a struct one after the other.\<close>

definition copyPair ::
  "('a \<Rightarrow> 'c heap \<Rightarrow> 'a \<times> 'c heap) \<Rightarrow> ('b \<Rightarrow> 'c heap \<Rightarrow> 'b \<times> 'c heap) \<Rightarrow> 'a \<times> 'b \<Rightarrow> 'c heap \<Rightarrow> ('a \<times> 'b) \<times> 'c heap" where
  "copyPair c1 c2 xy h = (case c1 (fst xy) h of (a, h1) \<Rightarrow> case c2 (snd xy) h1 of (b, h2) \<Rightarrow> ((a, b), h2))"

section \<open>Deep copies\<close>

definition agree :: "addr set \<Rightarrow> 'c heap \<Rightarrow> 'c heap \<Rightarrow> bool" where
  "agree A h h' \<longleftrightarrow> (\<forall>a \<in> A. a < length h \<and> a < length h' \<and> h' ! a = h ! a)"

definition inHeap :: "addr set \<Rightarrow> 'c heap \<Rightarrow> bool" where
  "inHeap A h \<longleftrightarrow> (\<forall>a \<in> A. a < length h)"

text \<open>
  The contract: the value depends on the cells it is reached through only, and the copy has the same
  value, leaves the old cells alone and is reached through new cells only.
\<close>

locale deep_copy =
  fixes copy :: "'a \<Rightarrow> 'c heap \<Rightarrow> 'a \<times> 'c heap"
    and view :: "'a \<Rightarrow> 'c heap \<Rightarrow> 'v"
    and refs :: "'a \<Rightarrow> 'c heap \<Rightarrow> addr set"
  assumes frame: "agree (refs x h) h h' \<Longrightarrow> view x h' = view x h \<and> refs x h' = refs x h"
    and copy_law: "copy x h = (y, h') \<Longrightarrow> inHeap (refs x h) h \<Longrightarrow>
      (\<exists>new. h' = h @ new) \<and> view y h' = view x h \<and> refs y h' \<subseteq> {length h..<length h'}"
begin

lemma view_agree: "agree (refs x h) h h' \<Longrightarrow> view x h' = view x h"
  and refs_agree: "agree (refs x h) h h' \<Longrightarrow> refs x h' = refs x h"
  using frame by blast+

lemma original_extended:
  assumes "inHeap (refs x h) h"
  shows "view x (h @ new) = view x h" "refs x (h @ new) = refs x h" "inHeap (refs x (h @ new)) (h @ new)"
proof -
  have "agree (refs x h) h (h @ new)" using assms by (auto simp: agree_def inHeap_def nth_append)
  then show "view x (h @ new) = view x h" "refs x (h @ new) = refs x h" using frame by blast+
  then show "inHeap (refs x (h @ new)) (h @ new)" using assms by (auto simp: inHeap_def)
qed

text \<open>A write to a cell the value does not use.\<close>

lemma unrelated_write:
  assumes "inHeap (refs x h) h" "a \<notin> refs x h"
  shows "view x (h[a := c]) = view x h" "refs x (h[a := c]) = refs x h"
proof -
  have "agree (refs x h) h (h[a := c])" using assms by (auto simp: agree_def inHeap_def intro!: nth_list_update_neq)
  then show "view x (h[a := c]) = view x h" "refs x (h[a := c]) = refs x h" using frame by blast+
qed

lemma copied:
  assumes "copy x h = (y, h')" "inHeap (refs x h) h"
  obtains new where "h' = h @ new" "view y h' = view x h" "refs y h' \<subseteq> {length h..<length h'}" "inHeap (refs y h') h'"
  using copy_law [OF assms] by (fastforce simp: inHeap_def)

text \<open>
  Original and copy are independent: whatever happens to the cells that are older than the copy, and
  whatever is allocated later, the copy keeps its value; and the original keeps its own, whatever happens
  to the cells the copy allocated.
\<close>

lemma isolated:
  assumes "copy x h = (y, h')" "inHeap (refs x h) h" "length h' \<le> length h''"
  shows "(\<And>a. length h \<le> a \<Longrightarrow> a < length h' \<Longrightarrow> h'' ! a = h' ! a) \<Longrightarrow> view y h'' = view x h"
    and "(\<And>a. a < length h \<Longrightarrow> h'' ! a = h ! a) \<Longrightarrow> view x h'' = view x h"
proof -
  from copied [OF assms(1,2)] obtain new where new: "h' = h @ new" "view y h' = view x h"
    "refs y h' \<subseteq> {length h..<length h'}" .
  show "view y h'' = view x h" if "\<And>a. length h \<le> a \<Longrightarrow> a < length h' \<Longrightarrow> h'' ! a = h' ! a"
  proof -
    have "agree (refs y h') h' h''" using new(3) assms(3) that by (force simp: agree_def)
    then show ?thesis using view_agree new(2) by simp
  qed
  show "view x h'' = view x h" if "\<And>a. a < length h \<Longrightarrow> h'' ! a = h ! a"
  proof -
    have "agree (refs x h) h h''" using assms(2,3) new(1) that by (auto simp: agree_def inHeap_def)
    then show ?thesis by (rule view_agree)
  qed
qed

end

section \<open>Composition\<close>

lemma deep_copy_value: "deep_copy copyValue viewValue refsValue"
  by unfold_locales (auto simp: copyValue_def viewValue_def refsValue_def)

lemma agree_Un [simp]: "agree (A \<union> B) h h' \<longleftrightarrow> agree A h h' \<and> agree B h h'"
  by (auto simp: agree_def)

lemma inHeap_Un [simp]: "inHeap (A \<union> B) h \<longleftrightarrow> inHeap A h \<and> inHeap B h"
  by (auto simp: inHeap_def)

lemma agree_insert [simp]: "agree (insert a A) h h' \<longleftrightarrow> a < length h \<and> a < length h' \<and> h' ! a = h ! a \<and> agree A h h'"
  by (auto simp: agree_def)

lemma inHeap_insert [simp]: "inHeap (insert a A) h \<longleftrightarrow> a < length h \<and> inHeap A h"
  by (auto simp: inHeap_def)

lemma deep_copy_pair:
  assumes "deep_copy c1 v1 r1" "deep_copy c2 v2 r2"
  shows "deep_copy (copyPair c1 c2) (\<lambda>xy h. (v1 (fst xy) h, v2 (snd xy) h)) (\<lambda>xy h. r1 (fst xy) h \<union> r2 (snd xy) h)"
proof (unfold_locales, goal_cases)
  case (1 xy h h')
  then show ?case
    using deep_copy.frame [OF assms(1), of "fst xy" h h'] deep_copy.frame [OF assms(2), of "snd xy" h h'] by simp
next
  case (2 xy h p h')
  obtain a h1 b where run: "c1 (fst xy) h = (a, h1)" "c2 (snd xy) h1 = (b, h')" "p = (a, b)"
    using 2(1) by (auto simp: copyPair_def split: prod.splits)
  from deep_copy.copied [OF assms(1) run(1)] 2(2) obtain n1 where 1: "h1 = h @ n1" "v1 a h1 = v1 (fst xy) h"
    "r1 a h1 \<subseteq> {length h..<length h1}" "inHeap (r1 a h1) h1" by auto
  have 3: "v2 (snd xy) h1 = v2 (snd xy) h" "inHeap (r2 (snd xy) h1) h1"
    using deep_copy.original_extended [OF assms(2)] 2(2) 1(1) by auto
  from deep_copy.copied [OF assms(2) run(2) 3(2)] obtain n2 where 4: "h' = h1 @ n2" "v2 b h' = v2 (snd xy) h1"
    "r2 b h' \<subseteq> {length h1..<length h'}" by auto
  have 5: "v1 a h' = v1 a h1" "r1 a h' = r1 a h1" using deep_copy.original_extended [OF assms(1) 1(4)] 4(1) by auto
  show ?case using 1 3 4 5 by (auto simp: run(3))
qed

text \<open>A struct: its parts with references, and the rest, which \<open>*out = *in\<close> copies.\<close>

lemma deep_copy_struct:
  assumes "deep_copy c v r" "\<And>s p. get (put s p) = p" "\<And>s p. g (put s p) = g s"
    and "\<And>s h. copy s h = (case c (get s) h of (p, h') \<Rightarrow> (put s p, h'))"
    and "\<And>s h. view s h = g s (v (get s) h)" "\<And>s h. refs s h = r (get s) h"
  shows "deep_copy copy view refs"
proof (unfold_locales, goal_cases)
  case (1 s h h')
  then show ?case using deep_copy.frame [OF assms(1)] by (simp add: assms(5,6))
next
  case (2 s h y h')
  then show ?case using deep_copy.copy_law [OF assms(1), of "get s" h] by (auto simp: assms split: prod.splits)
qed

lemma copyElems_law:
  assumes "deep_copy into v r" "copyElems into xs h = (ys, h')" "\<And>x. x \<in> set xs \<Longrightarrow> inHeap (r x h) h"
  shows "(\<exists>new. h' = h @ new) \<and> map (\<lambda>y. v y h') ys = map (\<lambda>x. v x h) xs \<and>
    (\<Union>y \<in> set ys. r y h') \<subseteq> {length h..<length h'}"
  using assms(2,3)
proof (induction xs arbitrary: h ys)
  case (Cons x xs)
  obtain y h1 zs where run: "into x h = (y, h1)" "copyElems into xs h1 = (zs, h')" "ys = y # zs"
    using Cons.prems(1) by (auto split: prod.splits)
  from deep_copy.copied [OF assms(1) run(1) Cons.prems(2)] obtain n1 where 1: "h1 = h @ n1" "v y h1 = v x h"
    "r y h1 \<subseteq> {length h..<length h1}" "inHeap (r y h1) h1" by auto
  have rest: "v z h1 = v z h" "inHeap (r z h1) h1" if "z \<in> set xs" for z
    using deep_copy.original_extended [OF assms(1), of z h n1] Cons.prems(2) [of z] that 1(1) by auto
  from Cons.IH [OF run(2) rest(2)] obtain n2 where 2: "h' = h1 @ n2" "map (\<lambda>y. v y h') zs = map (\<lambda>x. v x h1) xs"
    "(\<Union>y \<in> set zs. r y h') \<subseteq> {length h1..<length h'}" by auto
  have 3: "v y h' = v y h1" "r y h' = r y h1" using deep_copy.original_extended [OF assms(1) 1(4)] 2(1) by auto
  have "map (\<lambda>x. v x h1) xs = map (\<lambda>x. v x h) xs" using rest(1) by simp
  then show ?case using 1 2 3 by (auto simp: run(3))
qed simp

lemma deep_copy_slice:
  assumes "deep_copy into v r" "\<And>xs. arr (mk xs) = xs"
  shows "deep_copy (copySlice into arr mk) (viewSlice v arr) (refsSlice r arr)"
proof (unfold_locales, goal_cases)
  case (1 s h h')
  show ?case
  proof (cases s)
    case (Some an)
    obtain a n where s: "s = Some (a, n)" using Some by (cases an) auto
    have same: "h' ! a = h ! a" and sub: "agree (r x h) h h'" if "x \<in> set (take n (arr (h ! a)))" for x
      using 1 that by (auto simp: s refsSlice_def agree_def)
    have "h' ! a = h ! a" using 1 by (simp add: s refsSlice_def)
    then show ?thesis using deep_copy.frame [OF assms(1) sub] by (auto simp: s viewSlice_def refsSlice_def)
  qed (simp add: viewSlice_def refsSlice_def)
next
  case (2 s h t h')
  show ?case
  proof (cases s)
    case (Some an)
    obtain a n where s: "s = Some (a, n)" using Some by (cases an) auto
    define xs where "xs = take n (arr (h ! a))"
    obtain ys h1 where run: "copyElems into xs (h @ [mk []]) = (ys, h1)" by fastforce
    have t: "t = Some (length h, n)" "h' = h1[length h := mk ys]"
      using 2(1) run by (simp_all add: s copySlice_def xs_def)
    have "inHeap (r x h) h" if "x \<in> set xs" for x
      using 2(2) that by (auto simp: s refsSlice_def xs_def inHeap_def)
    note old = deep_copy.original_extended [OF assms(1) this, of _ "[mk []]"]
    from copyElems_law [OF assms(1) run old(3)] obtain new where
      1: "h1 = (h @ [mk []]) @ new" "map (\<lambda>y. v y h1) ys = map (\<lambda>x. v x (h @ [mk []])) xs"
      "(\<Union>y \<in> set ys. r y h1) \<subseteq> {length (h @ [mk []])..<length h1}" by auto
    have 3: "v y h' = v y h1" "r y h' = r y h1" if "y \<in> set ys" for y
    proof -
      have "inHeap (r y h1) h1" "length h \<notin> r y h1" using 1(3) that by (force simp: inHeap_def)+
      then show "v y h' = v y h1" "r y h' = r y h1" unfolding t(2) using deep_copy.unrelated_write [OF assms(1)] by blast+
    qed
    have 4: "Suc (length h) \<le> x \<and> x < length h1" if "y \<in> set ys" "x \<in> r y h1" for x y using 1(3) that by force
    have "map (\<lambda>x. v x (h @ [mk []])) xs = map (\<lambda>x. v x h) xs" using old(1) by simp
    moreover have "length ys = length xs" using 1(2) map_eq_imp_length_eq by blast
    then have "take n ys = ys" by (simp add: xs_def)
    moreover have "h' ! length h = mk ys" "h' = h @ mk ys # new" using 1(1) by (simp_all add: t(2) list_update_append)
    ultimately show ?thesis
      using 1(1,2) 3 4 by (fastforce simp: s t(1) viewSlice_def refsSlice_def assms(2) xs_def cong: map_cong)
  qed (use 2 in \<open>simp add: copySlice_def viewSlice_def refsSlice_def\<close>)
qed

lemma deep_copy_pointer:
  assumes "deep_copy into v r" "\<And>xs. arr (mk xs) = xs"
  shows "deep_copy (copyPointer into arr mk) (viewPointer v arr) (refsPointer r arr)"
proof (unfold_locales, goal_cases)
  case (1 p h h')
  then show ?case
    using deep_copy.frame [OF assms(1)] by (fastforce simp: viewPointer_def refsPointer_def split: option.splits)
next
  case (2 p h q h')
  show ?case
  proof (cases p)
    case p: (Some a)
    define x where "x = hd (arr (h ! a))"
    obtain y h1 where run: "into x (h @ [mk []]) = (y, h1)" by fastforce
    have q: "q = Some (length h)" "h' = h1[length h := mk [y]]" using 2(1) run by (simp_all add: p copyPointer_def x_def)
    have "inHeap (r x h) h" using 2(2) by (simp add: p refsPointer_def x_def)
    note old = deep_copy.original_extended [OF assms(1) this, of "[mk []]"]
    from deep_copy.copied [OF assms(1) run old(3)] obtain new where 3: "h1 = (h @ [mk []]) @ new"
      "v y h1 = v x (h @ [mk []])" "r y h1 \<subseteq> {length (h @ [mk []])..<length h1}" "inHeap (r y h1) h1" .
    have "length h \<notin> r y h1" using 3(3) by auto
    from deep_copy.unrelated_write [OF assms(1) 3(4) this, of "mk [y]"] have 4: "v y h' = v y h1" "r y h' = r y h1"
      by (simp_all add: q(2))
    have "h' ! length h = mk [y]" "h' = h @ mk [y] # new" using 3(1) by (simp_all add: q(2) list_update_append)
    then show ?thesis
      using 3 4 old(1) by (auto simp: p q(1) viewPointer_def refsPointer_def assms(2) x_def)
  qed (use 2 in \<open>simp add: copyPointer_def viewPointer_def refsPointer_def\<close>)
qed

section \<open>Appending and writing through a slice\<close>

text \<open>
  \<open>append(s, x)\<close>: in place when the array has room behind the last element, else into a new array of
  \<open>grow n\<close> elements for a slice of length \<open>n\<close>; the room is filled with the zero value \<open>z\<close>.
\<close>

definition appendSlice ::
  "('c \<Rightarrow> 'a list) \<Rightarrow> ('a list \<Rightarrow> 'c) \<Rightarrow> (nat \<Rightarrow> nat) \<Rightarrow> 'a \<Rightarrow> sref \<Rightarrow> 'a \<Rightarrow> 'c heap \<Rightarrow> sref \<times> 'c heap" where
  "appendSlice arr mk grow z s x h =
     (case s of
        None \<Rightarrow> (Some (length h, 1), h @ [mk (x # replicate (grow 1 - 1) z)])
      | Some (a, n) \<Rightarrow>
          if n < length (arr (h ! a)) then (Some (a, n + 1), h[a := mk ((arr (h ! a))[n := x])])
          else (Some (length h, n + 1), h @ [mk (take n (arr (h ! a)) @ x # replicate (grow (n + 1) - (n + 1)) z)]))"

text \<open>\<open>s[i] = x\<close>.\<close>

definition writeSlice :: "('c \<Rightarrow> 'a list) \<Rightarrow> ('a list \<Rightarrow> 'c) \<Rightarrow> addr \<Rightarrow> nat \<Rightarrow> 'a \<Rightarrow> 'c heap \<Rightarrow> 'c heap" where
  "writeSlice arr mk a i x h = h[a := mk ((arr (h ! a))[i := x])]"

end
