(* ===== verification/Deep_Copy.thy ===== *)
theory Deep_Copy
  imports Go_Heap Cron_Job Providers
begin

text \<open>
  The deep copies of the API types, \<open>api/v1alpha1/zz_generated.deepcopy.go\<close>, on a heap with pointers and
  slices. Every reconciler takes \<open>base := obj.DeepCopy()\<close>, changes \<open>obj\<close> in place and patches with
  \<open>client.MergeFrom(base)\<close>; the patch is right only when \<open>base\<close> keeps the old values. The models of the
  controllers treat objects as values, and this theory shows that they may.

  The records are parametric in what stands for a pointer or slice: a reference on the heap, the value
  behind it in a view. Structs of the Kubernetes libraries with references of their own (\<open>ObjectMeta\<close>,
  \<open>ListMeta\<close>, \<open>SecretKeySelector\<close>, \<open>CronJobSpec\<close>) are a type \<open>'e\<close> whose copy functions are a parameter
  (\<open>goLib\<close>), with the law \<open>deep_copy\<close>. \<open>metav1.Time\<close>, \<open>metav1.Condition\<close> and \<open>corev1.ObjectReference\<close> hold
  values only.
\<close>

section \<open>Types\<close>

record 's windowG =
  gWeekdays :: 's
  gFrom :: string
  gUntil :: string
  gTimezone :: string

record 'p actionG =
  gSleepDaemonSet :: bool
  gMaxReplicas :: 'p

record ('s, 'w, 'a) hpSpecG =
  gWorkloadTypes :: 's
  gWindows :: 'w
  gAction :: 'a

record ('w, 'a, 's) chpSpecG =
  gCWindows :: 'w
  gCAction :: 'a
  gIncluded :: 's
  gExcluded :: 's

record ('s, 'c) policyStatusG =
  gHibernated :: 's
  gConditions :: 'c

record 'k customG =
  gURL :: string
  gCustomSecret :: 'k

record 'e entsoeG =
  gEntsoeSecret :: 'e
  gAreaCode :: string

record 'e eneverG =
  gEneverSecret :: 'e
  gSupplier :: string

record ('c, 't, 'n) providerG =
  gCustom :: 'c
  gEntsoe :: 't
  gEnever :: 'n

record 'p epsSpecG =
  gProvider :: string
  gBiddingZone :: string
  gRefreshSchedule :: string
  gCacheTTL :: duration
  gProviders :: 'p

record ('t, 'p, 'c) epsStatusG =
  gLastUpdated :: 't
  gPrices :: 'p
  gEpsConditions :: 'c

record strategyG =
  gStrategy :: string
  gEstimatedDuration :: duration
  gScheduleWindow :: duration

record 'j eacjSpecG =
  gPriceSource :: string
  gEnergyStrategy :: strategyG
  gCronJob :: 'j

record ('r, 't, 'c) eacjStatusG =
  gActive :: 'r
  gLastScheduleTime :: 't
  gNextCronWindow :: 't
  gNextScheduledTime :: 't
  gLastSuccessfulTime :: 't
  gCjConditions :: 'c

text \<open>The four kinds of object, and their lists.\<close>

record ('m, 'sp, 'st) objectG =
  gTypeMeta :: "string \<times> string"
  gObjectMeta :: 'm
  gSpec :: 'sp
  gStatus :: 'st

record ('m, 'i) listG =
  gListTypeMeta :: "string \<times> string"
  gListMeta :: 'm
  gItems :: 'i

text \<open>On the heap.\<close>

type_synonym window = "sref windowG"
type_synonym action = "pref actionG"
type_synonym hpSpec = "(sref, sref, action) hpSpecG"
type_synonym chpSpec = "(sref, action, sref) chpSpecG"
type_synonym policyStatus = "(sref, sref) policyStatusG"
type_synonym custom = "pref customG"
type_synonym providers = "(pref, pref, pref) providerG"
type_synonym epsSpecH = "providers epsSpecG"
type_synonym epsStatus = "(pref, sref, sref) epsStatusG"
type_synonym 'e eacjSpec = "'e eacjSpecG"
type_synonym eacjStatus = "(sref, pref, sref) eacjStatusG"
type_synonym 'e hpObject = "('e, hpSpec, policyStatus) objectG"
type_synonym 'e chpObject = "('e, chpSpec, policyStatus) objectG"
type_synonym 'e epsObject = "('e, epsSpecH, epsStatus) objectG"
type_synonym 'e eacjObject = "('e, 'e eacjSpec, eacjStatus) objectG"
type_synonym 'e listH = "('e, sref) listG"

text \<open>The arrays of the heap, one constructor per element type.\<close>

datatype 'e cell =
    StringArr (stringArr: "string list")
  | IntArr (intArr: "(32 word) list")
  | TimeArr (timeArr: "time list")
  | CondArr (condArr: "condition list")
  | PointArr (pointArr: "fpoint list")
  | RefArr (refArr: "objectRef list")
  | LibArr (libArr: "'e list")
  | WindowArr (windowArr: "window list")
  | ActionArr (actionArr: "action list")
  | CustomArr (customArr: "custom list")
  | EntsoeArr (entsoeArr: "('e entsoeG) list")
  | EneverArr (eneverArr: "('e eneverG) list")
  | ProviderArr (providerArr: "providers list")
  | HpSpecArr (hpSpecArr: "hpSpec list")
  | ChpSpecArr (chpSpecArr: "chpSpec list")
  | PolicyStatusArr (policyStatusArr: "policyStatus list")
  | EpsSpecArr (epsSpecArr: "epsSpecH list")
  | EpsStatusArr (epsStatusArr: "epsStatus list")
  | StrategyArr (strategyArr: "strategyG list")
  | EacjSpecArr (eacjSpecArr: "('e eacjSpec) list")
  | EacjStatusArr (eacjStatusArr: "eacjStatus list")
  | HpArr (hpArr: "('e hpObject) list")
  | ChpArr (chpArr: "('e chpObject) list")
  | EpsArr (epsArr: "('e epsObject) list")
  | EacjArr (eacjArr: "('e eacjObject) list")
  | ListArr (listArr: "('e listH) list")

datatype libType = ObjectMeta | ListMeta | SecretKeySelector | CronJobSpec

record ('e, 'v) goLib =
  libCopy :: "libType \<Rightarrow> 'e \<Rightarrow> 'e cell heap \<Rightarrow> 'e \<times> 'e cell heap"
  libView :: "libType \<Rightarrow> 'e \<Rightarrow> 'e cell heap \<Rightarrow> 'v"
  libRefs :: "libType \<Rightarrow> 'e \<Rightarrow> 'e cell heap \<Rightarrow> addr set"

section \<open>DeepCopyInto\<close>

text \<open>Each function gives the value of \<open>*out\<close>; fields it does not name come from \<open>*out = *in\<close>.\<close>

definition AvailabilityWindow_DeepCopyInto :: "window \<Rightarrow> 'e cell heap \<Rightarrow> window \<times> 'e cell heap" where
  "AvailabilityWindow_DeepCopyInto x h =
     (case copySlice copyValue stringArr StringArr (gWeekdays x) h of (a, h1) \<Rightarrow>
      (x\<lparr>gWeekdays := a\<rparr>, h1))"

definition HibernateAction_DeepCopyInto :: "action \<Rightarrow> 'e cell heap \<Rightarrow> action \<times> 'e cell heap" where
  "HibernateAction_DeepCopyInto x h =
     (case copyPointer copyValue intArr IntArr (gMaxReplicas x) h of (a, h1) \<Rightarrow>
      (x\<lparr>gMaxReplicas := a\<rparr>, h1))"

definition HibernatePolicySpec_DeepCopyInto :: "hpSpec \<Rightarrow> 'e cell heap \<Rightarrow> hpSpec \<times> 'e cell heap" where
  "HibernatePolicySpec_DeepCopyInto x h =
     (case copySlice copyValue stringArr StringArr (gWorkloadTypes x) h of (a, h1) \<Rightarrow>
      case copySlice AvailabilityWindow_DeepCopyInto windowArr WindowArr (gWindows x) h1 of (b, h2) \<Rightarrow>
      case HibernateAction_DeepCopyInto (gAction x) h2 of (c, h3) \<Rightarrow>
      (x\<lparr>gWorkloadTypes := a, gWindows := b, gAction := c\<rparr>, h3))"

definition HibernatePolicyStatus_DeepCopyInto :: "policyStatus \<Rightarrow> 'e cell heap \<Rightarrow> policyStatus \<times> 'e cell heap" where
  "HibernatePolicyStatus_DeepCopyInto x h =
     (case copySlice copyValue stringArr StringArr (gHibernated x) h of (a, h1) \<Rightarrow>
      case copySlice copyValue condArr CondArr (gConditions x) h1 of (b, h2) \<Rightarrow>
      (x\<lparr>gHibernated := a, gConditions := b\<rparr>, h2))"

definition ClusterHibernatePolicySpec_DeepCopyInto :: "chpSpec \<Rightarrow> 'e cell heap \<Rightarrow> chpSpec \<times> 'e cell heap" where
  "ClusterHibernatePolicySpec_DeepCopyInto x h =
     (case copySlice AvailabilityWindow_DeepCopyInto windowArr WindowArr (gCWindows x) h of (a, h1) \<Rightarrow>
      case HibernateAction_DeepCopyInto (gCAction x) h1 of (b, h2) \<Rightarrow>
      case copySlice copyValue stringArr StringArr (gIncluded x) h2 of (c, h3) \<Rightarrow>
      case copySlice copyValue stringArr StringArr (gExcluded x) h3 of (d, h4) \<Rightarrow>
      (x\<lparr>gCWindows := a, gCAction := b, gIncluded := c, gExcluded := d\<rparr>, h4))"

definition ClusterHibernatePolicyStatus_DeepCopyInto :: "policyStatus \<Rightarrow> 'e cell heap \<Rightarrow> policyStatus \<times> 'e cell heap" where
  "ClusterHibernatePolicyStatus_DeepCopyInto x h =
     (case copySlice copyValue stringArr StringArr (gHibernated x) h of (a, h1) \<Rightarrow>
      case copySlice copyValue condArr CondArr (gConditions x) h1 of (b, h2) \<Rightarrow>
      (x\<lparr>gHibernated := a, gConditions := b\<rparr>, h2))"

definition CustomProviderConfig_DeepCopyInto :: "('e, 'v) goLib \<Rightarrow> custom \<Rightarrow> 'e cell heap \<Rightarrow> custom \<times> 'e cell heap" where
  "CustomProviderConfig_DeepCopyInto L x h =
     (case copyPointer (libCopy L SecretKeySelector) libArr LibArr (gCustomSecret x) h of (a, h1) \<Rightarrow>
      (x\<lparr>gCustomSecret := a\<rparr>, h1))"

definition EntsoeConfig_DeepCopyInto :: "('e, 'v) goLib \<Rightarrow> 'e entsoeG \<Rightarrow> 'e cell heap \<Rightarrow> 'e entsoeG \<times> 'e cell heap" where
  "EntsoeConfig_DeepCopyInto L x h =
     (case libCopy L SecretKeySelector (gEntsoeSecret x) h of (a, h1) \<Rightarrow>
      (x\<lparr>gEntsoeSecret := a\<rparr>, h1))"

definition EneverConfig_DeepCopyInto :: "('e, 'v) goLib \<Rightarrow> 'e eneverG \<Rightarrow> 'e cell heap \<Rightarrow> 'e eneverG \<times> 'e cell heap" where
  "EneverConfig_DeepCopyInto L x h =
     (case libCopy L SecretKeySelector (gEneverSecret x) h of (a, h1) \<Rightarrow>
      (x\<lparr>gEneverSecret := a\<rparr>, h1))"

definition ProviderConfig_DeepCopyInto :: "('e, 'v) goLib \<Rightarrow> providers \<Rightarrow> 'e cell heap \<Rightarrow> providers \<times> 'e cell heap" where
  "ProviderConfig_DeepCopyInto L x h =
     (case copyPointer (CustomProviderConfig_DeepCopyInto L) customArr CustomArr (gCustom x) h of (a, h1) \<Rightarrow>
      case copyPointer (EntsoeConfig_DeepCopyInto L) entsoeArr EntsoeArr (gEntsoe x) h1 of (b, h2) \<Rightarrow>
      case copyPointer (EneverConfig_DeepCopyInto L) eneverArr EneverArr (gEnever x) h2 of (c, h3) \<Rightarrow>
      (x\<lparr>gCustom := a, gEntsoe := b, gEnever := c\<rparr>, h3))"

definition EnergyPriceSourceSpec_DeepCopyInto :: "('e, 'v) goLib \<Rightarrow> epsSpecH \<Rightarrow> 'e cell heap \<Rightarrow> epsSpecH \<times> 'e cell heap" where
  "EnergyPriceSourceSpec_DeepCopyInto L x h =
     (case (ProviderConfig_DeepCopyInto L) (gProviders x) h of (a, h1) \<Rightarrow>
      (x\<lparr>gProviders := a\<rparr>, h1))"

definition PricePoint_DeepCopyInto :: "fpoint \<Rightarrow> 'e cell heap \<Rightarrow> fpoint \<times> 'e cell heap" where
  "PricePoint_DeepCopyInto x h = copyValue x h"

definition EnergyStrategySpec_DeepCopyInto :: "strategyG \<Rightarrow> 'e cell heap \<Rightarrow> strategyG \<times> 'e cell heap" where
  "EnergyStrategySpec_DeepCopyInto x h = copyValue x h"

definition EnergyPriceSourceStatus_DeepCopyInto :: "epsStatus \<Rightarrow> 'e cell heap \<Rightarrow> epsStatus \<times> 'e cell heap" where
  "EnergyPriceSourceStatus_DeepCopyInto x h =
     (case copyPointer copyValue timeArr TimeArr (gLastUpdated x) h of (a, h1) \<Rightarrow>
      case copySlice PricePoint_DeepCopyInto pointArr PointArr (gPrices x) h1 of (b, h2) \<Rightarrow>
      case copySlice copyValue condArr CondArr (gEpsConditions x) h2 of (c, h3) \<Rightarrow>
      (x\<lparr>gLastUpdated := a, gPrices := b, gEpsConditions := c\<rparr>, h3))"

definition EnergyAwareCronJobSpec_DeepCopyInto :: "('e, 'v) goLib \<Rightarrow> 'e eacjSpec \<Rightarrow> 'e cell heap \<Rightarrow> 'e eacjSpec \<times> 'e cell heap" where
  "EnergyAwareCronJobSpec_DeepCopyInto L x h =
     (case libCopy L CronJobSpec (gCronJob x) h of (a, h1) \<Rightarrow>
      (x\<lparr>gCronJob := a\<rparr>, h1))"

definition EnergyAwareCronJobStatus_DeepCopyInto :: "eacjStatus \<Rightarrow> 'e cell heap \<Rightarrow> eacjStatus \<times> 'e cell heap" where
  "EnergyAwareCronJobStatus_DeepCopyInto x h =
     (case copySlice copyValue refArr RefArr (gActive x) h of (a, h1) \<Rightarrow>
      case copyPointer copyValue timeArr TimeArr (gLastScheduleTime x) h1 of (b, h2) \<Rightarrow>
      case copyPointer copyValue timeArr TimeArr (gNextCronWindow x) h2 of (c, h3) \<Rightarrow>
      case copyPointer copyValue timeArr TimeArr (gNextScheduledTime x) h3 of (d, h4) \<Rightarrow>
      case copyPointer copyValue timeArr TimeArr (gLastSuccessfulTime x) h4 of (e, h5) \<Rightarrow>
      case copySlice copyValue condArr CondArr (gCjConditions x) h5 of (f, h6) \<Rightarrow>
      (x\<lparr>gActive := a, gLastScheduleTime := b, gNextCronWindow := c, gNextScheduledTime := d, gLastSuccessfulTime := e, gCjConditions := f\<rparr>, h6))"

definition HibernatePolicy_DeepCopyInto :: "('e, 'v) goLib \<Rightarrow> 'e hpObject \<Rightarrow> 'e cell heap \<Rightarrow> 'e hpObject \<times> 'e cell heap" where
  "HibernatePolicy_DeepCopyInto L x h =
     (case libCopy L ObjectMeta (gObjectMeta x) h of (a, h1) \<Rightarrow>
      case HibernatePolicySpec_DeepCopyInto (gSpec x) h1 of (b, h2) \<Rightarrow>
      case HibernatePolicyStatus_DeepCopyInto (gStatus x) h2 of (c, h3) \<Rightarrow>
      (x\<lparr>gObjectMeta := a, gSpec := b, gStatus := c\<rparr>, h3))"

definition HibernatePolicyList_DeepCopyInto :: "('e, 'v) goLib \<Rightarrow> 'e listH \<Rightarrow> 'e cell heap \<Rightarrow> 'e listH \<times> 'e cell heap" where
  "HibernatePolicyList_DeepCopyInto L x h =
     (case libCopy L ListMeta (gListMeta x) h of (a, h1) \<Rightarrow>
      case copySlice (HibernatePolicy_DeepCopyInto L) hpArr HpArr (gItems x) h1 of (b, h2) \<Rightarrow>
      (x\<lparr>gListMeta := a, gItems := b\<rparr>, h2))"

definition ClusterHibernatePolicy_DeepCopyInto :: "('e, 'v) goLib \<Rightarrow> 'e chpObject \<Rightarrow> 'e cell heap \<Rightarrow> 'e chpObject \<times> 'e cell heap" where
  "ClusterHibernatePolicy_DeepCopyInto L x h =
     (case libCopy L ObjectMeta (gObjectMeta x) h of (a, h1) \<Rightarrow>
      case ClusterHibernatePolicySpec_DeepCopyInto (gSpec x) h1 of (b, h2) \<Rightarrow>
      case ClusterHibernatePolicyStatus_DeepCopyInto (gStatus x) h2 of (c, h3) \<Rightarrow>
      (x\<lparr>gObjectMeta := a, gSpec := b, gStatus := c\<rparr>, h3))"

definition ClusterHibernatePolicyList_DeepCopyInto :: "('e, 'v) goLib \<Rightarrow> 'e listH \<Rightarrow> 'e cell heap \<Rightarrow> 'e listH \<times> 'e cell heap" where
  "ClusterHibernatePolicyList_DeepCopyInto L x h =
     (case libCopy L ListMeta (gListMeta x) h of (a, h1) \<Rightarrow>
      case copySlice (ClusterHibernatePolicy_DeepCopyInto L) chpArr ChpArr (gItems x) h1 of (b, h2) \<Rightarrow>
      (x\<lparr>gListMeta := a, gItems := b\<rparr>, h2))"

definition EnergyPriceSource_DeepCopyInto :: "('e, 'v) goLib \<Rightarrow> 'e epsObject \<Rightarrow> 'e cell heap \<Rightarrow> 'e epsObject \<times> 'e cell heap" where
  "EnergyPriceSource_DeepCopyInto L x h =
     (case libCopy L ObjectMeta (gObjectMeta x) h of (a, h1) \<Rightarrow>
      case (EnergyPriceSourceSpec_DeepCopyInto L) (gSpec x) h1 of (b, h2) \<Rightarrow>
      case EnergyPriceSourceStatus_DeepCopyInto (gStatus x) h2 of (c, h3) \<Rightarrow>
      (x\<lparr>gObjectMeta := a, gSpec := b, gStatus := c\<rparr>, h3))"

definition EnergyPriceSourceList_DeepCopyInto :: "('e, 'v) goLib \<Rightarrow> 'e listH \<Rightarrow> 'e cell heap \<Rightarrow> 'e listH \<times> 'e cell heap" where
  "EnergyPriceSourceList_DeepCopyInto L x h =
     (case libCopy L ListMeta (gListMeta x) h of (a, h1) \<Rightarrow>
      case copySlice (EnergyPriceSource_DeepCopyInto L) epsArr EpsArr (gItems x) h1 of (b, h2) \<Rightarrow>
      (x\<lparr>gListMeta := a, gItems := b\<rparr>, h2))"

definition EnergyAwareCronJob_DeepCopyInto :: "('e, 'v) goLib \<Rightarrow> 'e eacjObject \<Rightarrow> 'e cell heap \<Rightarrow> 'e eacjObject \<times> 'e cell heap" where
  "EnergyAwareCronJob_DeepCopyInto L x h =
     (case libCopy L ObjectMeta (gObjectMeta x) h of (a, h1) \<Rightarrow>
      case (EnergyAwareCronJobSpec_DeepCopyInto L) (gSpec x) h1 of (b, h2) \<Rightarrow>
      case EnergyAwareCronJobStatus_DeepCopyInto (gStatus x) h2 of (c, h3) \<Rightarrow>
      (x\<lparr>gObjectMeta := a, gSpec := b, gStatus := c\<rparr>, h3))"

definition EnergyAwareCronJobList_DeepCopyInto :: "('e, 'v) goLib \<Rightarrow> 'e listH \<Rightarrow> 'e cell heap \<Rightarrow> 'e listH \<times> 'e cell heap" where
  "EnergyAwareCronJobList_DeepCopyInto L x h =
     (case libCopy L ListMeta (gListMeta x) h of (a, h1) \<Rightarrow>
      case copySlice (EnergyAwareCronJob_DeepCopyInto L) eacjArr EacjArr (gItems x) h1 of (b, h2) \<Rightarrow>
      (x\<lparr>gListMeta := a, gItems := b\<rparr>, h2))"

section \<open>DeepCopy\<close>

text \<open>A nil receiver gives nil; else \<open>out := new(T)\<close>, \<open>in.DeepCopyInto(out)\<close>.\<close>

definition AvailabilityWindow_DeepCopy :: "pref \<Rightarrow> 'e cell heap \<Rightarrow> pref \<times> 'e cell heap" where
  "AvailabilityWindow_DeepCopy = copyPointer AvailabilityWindow_DeepCopyInto windowArr WindowArr"

definition HibernateAction_DeepCopy :: "pref \<Rightarrow> 'e cell heap \<Rightarrow> pref \<times> 'e cell heap" where
  "HibernateAction_DeepCopy = copyPointer HibernateAction_DeepCopyInto actionArr ActionArr"

definition HibernatePolicySpec_DeepCopy :: "pref \<Rightarrow> 'e cell heap \<Rightarrow> pref \<times> 'e cell heap" where
  "HibernatePolicySpec_DeepCopy = copyPointer HibernatePolicySpec_DeepCopyInto hpSpecArr HpSpecArr"

definition HibernatePolicyStatus_DeepCopy :: "pref \<Rightarrow> 'e cell heap \<Rightarrow> pref \<times> 'e cell heap" where
  "HibernatePolicyStatus_DeepCopy = copyPointer HibernatePolicyStatus_DeepCopyInto policyStatusArr PolicyStatusArr"

definition ClusterHibernatePolicySpec_DeepCopy :: "pref \<Rightarrow> 'e cell heap \<Rightarrow> pref \<times> 'e cell heap" where
  "ClusterHibernatePolicySpec_DeepCopy = copyPointer ClusterHibernatePolicySpec_DeepCopyInto chpSpecArr ChpSpecArr"

definition ClusterHibernatePolicyStatus_DeepCopy :: "pref \<Rightarrow> 'e cell heap \<Rightarrow> pref \<times> 'e cell heap" where
  "ClusterHibernatePolicyStatus_DeepCopy = copyPointer ClusterHibernatePolicyStatus_DeepCopyInto policyStatusArr PolicyStatusArr"

definition CustomProviderConfig_DeepCopy :: "('e, 'v) goLib \<Rightarrow> pref \<Rightarrow> 'e cell heap \<Rightarrow> pref \<times> 'e cell heap" where
  "CustomProviderConfig_DeepCopy L = copyPointer (CustomProviderConfig_DeepCopyInto L) customArr CustomArr"

definition EntsoeConfig_DeepCopy :: "('e, 'v) goLib \<Rightarrow> pref \<Rightarrow> 'e cell heap \<Rightarrow> pref \<times> 'e cell heap" where
  "EntsoeConfig_DeepCopy L = copyPointer (EntsoeConfig_DeepCopyInto L) entsoeArr EntsoeArr"

definition EneverConfig_DeepCopy :: "('e, 'v) goLib \<Rightarrow> pref \<Rightarrow> 'e cell heap \<Rightarrow> pref \<times> 'e cell heap" where
  "EneverConfig_DeepCopy L = copyPointer (EneverConfig_DeepCopyInto L) eneverArr EneverArr"

definition ProviderConfig_DeepCopy :: "('e, 'v) goLib \<Rightarrow> pref \<Rightarrow> 'e cell heap \<Rightarrow> pref \<times> 'e cell heap" where
  "ProviderConfig_DeepCopy L = copyPointer (ProviderConfig_DeepCopyInto L) providerArr ProviderArr"

definition EnergyPriceSourceSpec_DeepCopy :: "('e, 'v) goLib \<Rightarrow> pref \<Rightarrow> 'e cell heap \<Rightarrow> pref \<times> 'e cell heap" where
  "EnergyPriceSourceSpec_DeepCopy L = copyPointer (EnergyPriceSourceSpec_DeepCopyInto L) epsSpecArr EpsSpecArr"

definition PricePoint_DeepCopy :: "pref \<Rightarrow> 'e cell heap \<Rightarrow> pref \<times> 'e cell heap" where
  "PricePoint_DeepCopy = copyPointer PricePoint_DeepCopyInto pointArr PointArr"

definition EnergyStrategySpec_DeepCopy :: "pref \<Rightarrow> 'e cell heap \<Rightarrow> pref \<times> 'e cell heap" where
  "EnergyStrategySpec_DeepCopy = copyPointer EnergyStrategySpec_DeepCopyInto strategyArr StrategyArr"

definition EnergyPriceSourceStatus_DeepCopy :: "pref \<Rightarrow> 'e cell heap \<Rightarrow> pref \<times> 'e cell heap" where
  "EnergyPriceSourceStatus_DeepCopy = copyPointer EnergyPriceSourceStatus_DeepCopyInto epsStatusArr EpsStatusArr"

definition EnergyAwareCronJobSpec_DeepCopy :: "('e, 'v) goLib \<Rightarrow> pref \<Rightarrow> 'e cell heap \<Rightarrow> pref \<times> 'e cell heap" where
  "EnergyAwareCronJobSpec_DeepCopy L = copyPointer (EnergyAwareCronJobSpec_DeepCopyInto L) eacjSpecArr EacjSpecArr"

definition EnergyAwareCronJobStatus_DeepCopy :: "pref \<Rightarrow> 'e cell heap \<Rightarrow> pref \<times> 'e cell heap" where
  "EnergyAwareCronJobStatus_DeepCopy = copyPointer EnergyAwareCronJobStatus_DeepCopyInto eacjStatusArr EacjStatusArr"

definition HibernatePolicy_DeepCopy :: "('e, 'v) goLib \<Rightarrow> pref \<Rightarrow> 'e cell heap \<Rightarrow> pref \<times> 'e cell heap" where
  "HibernatePolicy_DeepCopy L = copyPointer (HibernatePolicy_DeepCopyInto L) hpArr HpArr"

definition ClusterHibernatePolicy_DeepCopy :: "('e, 'v) goLib \<Rightarrow> pref \<Rightarrow> 'e cell heap \<Rightarrow> pref \<times> 'e cell heap" where
  "ClusterHibernatePolicy_DeepCopy L = copyPointer (ClusterHibernatePolicy_DeepCopyInto L) chpArr ChpArr"

definition EnergyPriceSource_DeepCopy :: "('e, 'v) goLib \<Rightarrow> pref \<Rightarrow> 'e cell heap \<Rightarrow> pref \<times> 'e cell heap" where
  "EnergyPriceSource_DeepCopy L = copyPointer (EnergyPriceSource_DeepCopyInto L) epsArr EpsArr"

definition EnergyAwareCronJob_DeepCopy :: "('e, 'v) goLib \<Rightarrow> pref \<Rightarrow> 'e cell heap \<Rightarrow> pref \<times> 'e cell heap" where
  "EnergyAwareCronJob_DeepCopy L = copyPointer (EnergyAwareCronJob_DeepCopyInto L) eacjArr EacjArr"

definition HibernatePolicyList_DeepCopy :: "('e, 'v) goLib \<Rightarrow> pref \<Rightarrow> 'e cell heap \<Rightarrow> pref \<times> 'e cell heap" where
  "HibernatePolicyList_DeepCopy L = copyPointer (HibernatePolicyList_DeepCopyInto L) listArr ListArr"

definition ClusterHibernatePolicyList_DeepCopy :: "('e, 'v) goLib \<Rightarrow> pref \<Rightarrow> 'e cell heap \<Rightarrow> pref \<times> 'e cell heap" where
  "ClusterHibernatePolicyList_DeepCopy L = copyPointer (ClusterHibernatePolicyList_DeepCopyInto L) listArr ListArr"

definition EnergyPriceSourceList_DeepCopy :: "('e, 'v) goLib \<Rightarrow> pref \<Rightarrow> 'e cell heap \<Rightarrow> pref \<times> 'e cell heap" where
  "EnergyPriceSourceList_DeepCopy L = copyPointer (EnergyPriceSourceList_DeepCopyInto L) listArr ListArr"

definition EnergyAwareCronJobList_DeepCopy :: "('e, 'v) goLib \<Rightarrow> pref \<Rightarrow> 'e cell heap \<Rightarrow> pref \<times> 'e cell heap" where
  "EnergyAwareCronJobList_DeepCopy L = copyPointer (EnergyAwareCronJobList_DeepCopyInto L) listArr ListArr"

text \<open>\<open>DeepCopyObject\<close> returns an interface: the type with the pointer, or the nil interface.\<close>

definition asObject :: "string \<Rightarrow> pref \<times> 'e cell heap \<Rightarrow> (string \<times> addr) option \<times> 'e cell heap" where
  "asObject kind c = (case c of (None, h) \<Rightarrow> (None, h) | (Some a, h) \<Rightarrow> (Some (kind, a), h))"

definition HibernatePolicy_DeepCopyObject ::
  "('e, 'v) goLib \<Rightarrow> pref \<Rightarrow> 'e cell heap \<Rightarrow> (string \<times> addr) option \<times> 'e cell heap" where
  "HibernatePolicy_DeepCopyObject L p h = asObject ''HibernatePolicy'' (HibernatePolicy_DeepCopy L p h)"

definition HibernatePolicyList_DeepCopyObject ::
  "('e, 'v) goLib \<Rightarrow> pref \<Rightarrow> 'e cell heap \<Rightarrow> (string \<times> addr) option \<times> 'e cell heap" where
  "HibernatePolicyList_DeepCopyObject L p h = asObject ''HibernatePolicyList'' (HibernatePolicyList_DeepCopy L p h)"

definition ClusterHibernatePolicy_DeepCopyObject ::
  "('e, 'v) goLib \<Rightarrow> pref \<Rightarrow> 'e cell heap \<Rightarrow> (string \<times> addr) option \<times> 'e cell heap" where
  "ClusterHibernatePolicy_DeepCopyObject L p h = asObject ''ClusterHibernatePolicy'' (ClusterHibernatePolicy_DeepCopy L p h)"

definition ClusterHibernatePolicyList_DeepCopyObject ::
  "('e, 'v) goLib \<Rightarrow> pref \<Rightarrow> 'e cell heap \<Rightarrow> (string \<times> addr) option \<times> 'e cell heap" where
  "ClusterHibernatePolicyList_DeepCopyObject L p h = asObject ''ClusterHibernatePolicyList'' (ClusterHibernatePolicyList_DeepCopy L p h)"

definition EnergyPriceSource_DeepCopyObject ::
  "('e, 'v) goLib \<Rightarrow> pref \<Rightarrow> 'e cell heap \<Rightarrow> (string \<times> addr) option \<times> 'e cell heap" where
  "EnergyPriceSource_DeepCopyObject L p h = asObject ''EnergyPriceSource'' (EnergyPriceSource_DeepCopy L p h)"

definition EnergyPriceSourceList_DeepCopyObject ::
  "('e, 'v) goLib \<Rightarrow> pref \<Rightarrow> 'e cell heap \<Rightarrow> (string \<times> addr) option \<times> 'e cell heap" where
  "EnergyPriceSourceList_DeepCopyObject L p h = asObject ''EnergyPriceSourceList'' (EnergyPriceSourceList_DeepCopy L p h)"

definition EnergyAwareCronJob_DeepCopyObject ::
  "('e, 'v) goLib \<Rightarrow> pref \<Rightarrow> 'e cell heap \<Rightarrow> (string \<times> addr) option \<times> 'e cell heap" where
  "EnergyAwareCronJob_DeepCopyObject L p h = asObject ''EnergyAwareCronJob'' (EnergyAwareCronJob_DeepCopy L p h)"

definition EnergyAwareCronJobList_DeepCopyObject ::
  "('e, 'v) goLib \<Rightarrow> pref \<Rightarrow> 'e cell heap \<Rightarrow> (string \<times> addr) option \<times> 'e cell heap" where
  "EnergyAwareCronJobList_DeepCopyObject L p h = asObject ''EnergyAwareCronJobList'' (EnergyAwareCronJobList_DeepCopy L p h)"

section \<open>Views\<close>

text \<open>The value of a struct: the same record with the values behind its references; and the addresses used.\<close>

definition viewWindow where
  "viewWindow x h = \<lparr>gWeekdays = viewSlice viewValue stringArr (gWeekdays x) h,
     gFrom = gFrom x,
     gUntil = gUntil x,
     gTimezone = gTimezone x\<rparr>"

definition refsWindow where
  "refsWindow x h = refsSlice refsValue stringArr (gWeekdays x) h"

definition viewAction where
  "viewAction x h = \<lparr>gSleepDaemonSet = gSleepDaemonSet x,
     gMaxReplicas = viewPointer viewValue intArr (gMaxReplicas x) h\<rparr>"

definition refsAction where
  "refsAction x h = refsPointer refsValue intArr (gMaxReplicas x) h"

definition viewHpSpec where
  "viewHpSpec x h = \<lparr>gWorkloadTypes = viewSlice viewValue stringArr (gWorkloadTypes x) h,
     gWindows = viewSlice viewWindow windowArr (gWindows x) h,
     gAction = viewAction (gAction x) h\<rparr>"

definition refsHpSpec where
  "refsHpSpec x h = refsSlice refsValue stringArr (gWorkloadTypes x) h \<union> (refsSlice refsWindow windowArr (gWindows x) h \<union> refsAction (gAction x) h)"

definition viewHpStatus where
  "viewHpStatus x h = \<lparr>gHibernated = viewSlice viewValue stringArr (gHibernated x) h,
     gConditions = viewSlice viewValue condArr (gConditions x) h\<rparr>"

definition refsHpStatus where
  "refsHpStatus x h = refsSlice refsValue stringArr (gHibernated x) h \<union> refsSlice refsValue condArr (gConditions x) h"

definition viewChpSpec where
  "viewChpSpec x h = \<lparr>gCWindows = viewSlice viewWindow windowArr (gCWindows x) h,
     gCAction = viewAction (gCAction x) h,
     gIncluded = viewSlice viewValue stringArr (gIncluded x) h,
     gExcluded = viewSlice viewValue stringArr (gExcluded x) h\<rparr>"

definition refsChpSpec where
  "refsChpSpec x h = refsSlice refsWindow windowArr (gCWindows x) h \<union> (refsAction (gCAction x) h \<union> (refsSlice refsValue stringArr (gIncluded x) h \<union> refsSlice refsValue stringArr (gExcluded x) h))"

definition viewChpStatus where
  "viewChpStatus x h = \<lparr>gHibernated = viewSlice viewValue stringArr (gHibernated x) h,
     gConditions = viewSlice viewValue condArr (gConditions x) h\<rparr>"

definition refsChpStatus where
  "refsChpStatus x h = refsSlice refsValue stringArr (gHibernated x) h \<union> refsSlice refsValue condArr (gConditions x) h"

definition viewCustom where
  "viewCustom L x h = \<lparr>gURL = gURL x,
     gCustomSecret = viewPointer (libView L SecretKeySelector) libArr (gCustomSecret x) h\<rparr>"

definition refsCustom where
  "refsCustom L x h = refsPointer (libRefs L SecretKeySelector) libArr (gCustomSecret x) h"

definition viewEntsoe where
  "viewEntsoe L x h = \<lparr>gEntsoeSecret = libView L SecretKeySelector (gEntsoeSecret x) h,
     gAreaCode = gAreaCode x\<rparr>"

definition refsEntsoe where
  "refsEntsoe L x h = libRefs L SecretKeySelector (gEntsoeSecret x) h"

definition viewEnever where
  "viewEnever L x h = \<lparr>gEneverSecret = libView L SecretKeySelector (gEneverSecret x) h,
     gSupplier = gSupplier x\<rparr>"

definition refsEnever where
  "refsEnever L x h = libRefs L SecretKeySelector (gEneverSecret x) h"

definition viewProviders where
  "viewProviders L x h = \<lparr>gCustom = viewPointer (viewCustom L) customArr (gCustom x) h,
     gEntsoe = viewPointer (viewEntsoe L) entsoeArr (gEntsoe x) h,
     gEnever = viewPointer (viewEnever L) eneverArr (gEnever x) h\<rparr>"

definition refsProviders where
  "refsProviders L x h = refsPointer (refsCustom L) customArr (gCustom x) h \<union> (refsPointer (refsEntsoe L) entsoeArr (gEntsoe x) h \<union> refsPointer (refsEnever L) eneverArr (gEnever x) h)"

definition viewEpsSpec where
  "viewEpsSpec L x h = \<lparr>gProvider = gProvider x,
     gBiddingZone = gBiddingZone x,
     gRefreshSchedule = gRefreshSchedule x,
     gCacheTTL = gCacheTTL x,
     gProviders = (viewProviders L) (gProviders x) h\<rparr>"

definition refsEpsSpec where
  "refsEpsSpec L x h = (refsProviders L) (gProviders x) h"

definition viewEpsStatus where
  "viewEpsStatus x h = \<lparr>gLastUpdated = viewPointer viewValue timeArr (gLastUpdated x) h,
     gPrices = viewSlice viewValue pointArr (gPrices x) h,
     gEpsConditions = viewSlice viewValue condArr (gEpsConditions x) h\<rparr>"

definition refsEpsStatus where
  "refsEpsStatus x h = refsPointer refsValue timeArr (gLastUpdated x) h \<union> (refsSlice refsValue pointArr (gPrices x) h \<union> refsSlice refsValue condArr (gEpsConditions x) h)"

definition viewEacjSpec where
  "viewEacjSpec L x h = \<lparr>gPriceSource = gPriceSource x,
     gEnergyStrategy = gEnergyStrategy x,
     gCronJob = libView L CronJobSpec (gCronJob x) h\<rparr>"

definition refsEacjSpec where
  "refsEacjSpec L x h = libRefs L CronJobSpec (gCronJob x) h"

definition viewEacjStatus where
  "viewEacjStatus x h = \<lparr>gActive = viewSlice viewValue refArr (gActive x) h,
     gLastScheduleTime = viewPointer viewValue timeArr (gLastScheduleTime x) h,
     gNextCronWindow = viewPointer viewValue timeArr (gNextCronWindow x) h,
     gNextScheduledTime = viewPointer viewValue timeArr (gNextScheduledTime x) h,
     gLastSuccessfulTime = viewPointer viewValue timeArr (gLastSuccessfulTime x) h,
     gCjConditions = viewSlice viewValue condArr (gCjConditions x) h\<rparr>"

definition refsEacjStatus where
  "refsEacjStatus x h = refsSlice refsValue refArr (gActive x) h \<union> (refsPointer refsValue timeArr (gLastScheduleTime x) h \<union> (refsPointer refsValue timeArr (gNextCronWindow x) h \<union> (refsPointer refsValue timeArr (gNextScheduledTime x) h \<union> (refsPointer refsValue timeArr (gLastSuccessfulTime x) h \<union> refsSlice refsValue condArr (gCjConditions x) h))))"

definition viewHp where
  "viewHp L x h = \<lparr>gTypeMeta = gTypeMeta x,
     gObjectMeta = libView L ObjectMeta (gObjectMeta x) h,
     gSpec = viewHpSpec (gSpec x) h,
     gStatus = viewHpStatus (gStatus x) h\<rparr>"

definition refsHp where
  "refsHp L x h = libRefs L ObjectMeta (gObjectMeta x) h \<union> (refsHpSpec (gSpec x) h \<union> refsHpStatus (gStatus x) h)"

definition viewHpList where
  "viewHpList L x h = \<lparr>gListTypeMeta = gListTypeMeta x,
     gListMeta = libView L ListMeta (gListMeta x) h,
     gItems = viewSlice (viewHp L) hpArr (gItems x) h\<rparr>"

definition refsHpList where
  "refsHpList L x h = libRefs L ListMeta (gListMeta x) h \<union> refsSlice (refsHp L) hpArr (gItems x) h"

definition viewChp where
  "viewChp L x h = \<lparr>gTypeMeta = gTypeMeta x,
     gObjectMeta = libView L ObjectMeta (gObjectMeta x) h,
     gSpec = viewChpSpec (gSpec x) h,
     gStatus = viewChpStatus (gStatus x) h\<rparr>"

definition refsChp where
  "refsChp L x h = libRefs L ObjectMeta (gObjectMeta x) h \<union> (refsChpSpec (gSpec x) h \<union> refsChpStatus (gStatus x) h)"

definition viewChpList where
  "viewChpList L x h = \<lparr>gListTypeMeta = gListTypeMeta x,
     gListMeta = libView L ListMeta (gListMeta x) h,
     gItems = viewSlice (viewChp L) chpArr (gItems x) h\<rparr>"

definition refsChpList where
  "refsChpList L x h = libRefs L ListMeta (gListMeta x) h \<union> refsSlice (refsChp L) chpArr (gItems x) h"

definition viewEps where
  "viewEps L x h = \<lparr>gTypeMeta = gTypeMeta x,
     gObjectMeta = libView L ObjectMeta (gObjectMeta x) h,
     gSpec = (viewEpsSpec L) (gSpec x) h,
     gStatus = viewEpsStatus (gStatus x) h\<rparr>"

definition refsEps where
  "refsEps L x h = libRefs L ObjectMeta (gObjectMeta x) h \<union> ((refsEpsSpec L) (gSpec x) h \<union> refsEpsStatus (gStatus x) h)"

definition viewEpsList where
  "viewEpsList L x h = \<lparr>gListTypeMeta = gListTypeMeta x,
     gListMeta = libView L ListMeta (gListMeta x) h,
     gItems = viewSlice (viewEps L) epsArr (gItems x) h\<rparr>"

definition refsEpsList where
  "refsEpsList L x h = libRefs L ListMeta (gListMeta x) h \<union> refsSlice (refsEps L) epsArr (gItems x) h"

definition viewEacj where
  "viewEacj L x h = \<lparr>gTypeMeta = gTypeMeta x,
     gObjectMeta = libView L ObjectMeta (gObjectMeta x) h,
     gSpec = (viewEacjSpec L) (gSpec x) h,
     gStatus = viewEacjStatus (gStatus x) h\<rparr>"

definition refsEacj where
  "refsEacj L x h = libRefs L ObjectMeta (gObjectMeta x) h \<union> ((refsEacjSpec L) (gSpec x) h \<union> refsEacjStatus (gStatus x) h)"

definition viewEacjList where
  "viewEacjList L x h = \<lparr>gListTypeMeta = gListTypeMeta x,
     gListMeta = libView L ListMeta (gListMeta x) h,
     gItems = viewSlice (viewEacj L) eacjArr (gItems x) h\<rparr>"

definition refsEacjList where
  "refsEacjList L x h = libRefs L ListMeta (gListMeta x) h \<union> refsSlice (refsEacj L) eacjArr (gItems x) h"

section \<open>Every copy is a deep copy\<close>

named_theorems deep_copies \<open>the laws of the copy functions\<close>

lemmas [deep_copies] = deep_copy_value

lemma deep_copy_PricePoint [deep_copies]: "deep_copy PricePoint_DeepCopyInto viewValue refsValue"
  using deep_copy_value by (simp add: PricePoint_DeepCopyInto_def [abs_def])

locale go_lib =
  fixes L :: "('e, 'v) goLib"
  assumes lib_copy [deep_copies]: "deep_copy (libCopy L t) (libView L t) (libRefs L t)"

lemma deep_copy_AvailabilityWindow [deep_copies]: "deep_copy AvailabilityWindow_DeepCopyInto viewWindow refsWindow"
  by (rule deep_copy_struct [where get = "\<lambda>x. gWeekdays x" and put = "\<lambda>x p. x\<lparr>gWeekdays := p\<rparr>"
        and g = "\<lambda>x p. \<lparr>gWeekdays = p, gFrom = gFrom x, gUntil = gUntil x, gTimezone = gTimezone x\<rparr>"],
      (rule deep_copies deep_copy_pair deep_copy_slice deep_copy_pointer cell.sel)+)
    (simp_all add: AvailabilityWindow_DeepCopyInto_def viewWindow_def refsWindow_def copyPair_def split: prod.splits)

lemma deep_copy_HibernateAction [deep_copies]: "deep_copy HibernateAction_DeepCopyInto viewAction refsAction"
  by (rule deep_copy_struct [where get = "\<lambda>x. gMaxReplicas x" and put = "\<lambda>x p. x\<lparr>gMaxReplicas := p\<rparr>"
        and g = "\<lambda>x p. \<lparr>gSleepDaemonSet = gSleepDaemonSet x, gMaxReplicas = p\<rparr>"],
      (rule deep_copies deep_copy_pair deep_copy_slice deep_copy_pointer cell.sel)+)
    (simp_all add: HibernateAction_DeepCopyInto_def viewAction_def refsAction_def copyPair_def split: prod.splits)

lemma deep_copy_HibernatePolicySpec [deep_copies]: "deep_copy HibernatePolicySpec_DeepCopyInto viewHpSpec refsHpSpec"
  by (rule deep_copy_struct [where get = "\<lambda>x. (gWorkloadTypes x, gWindows x, gAction x)" and put = "\<lambda>x p. x\<lparr>gWorkloadTypes := fst p, gWindows := fst (snd p), gAction := snd (snd p)\<rparr>"
        and g = "\<lambda>x p. \<lparr>gWorkloadTypes = fst p, gWindows = fst (snd p), gAction = snd (snd p)\<rparr>"],
      (rule deep_copies deep_copy_pair deep_copy_slice deep_copy_pointer cell.sel)+)
    (simp_all add: HibernatePolicySpec_DeepCopyInto_def viewHpSpec_def refsHpSpec_def copyPair_def split: prod.splits)

lemma deep_copy_HibernatePolicyStatus [deep_copies]: "deep_copy HibernatePolicyStatus_DeepCopyInto viewHpStatus refsHpStatus"
  by (rule deep_copy_struct [where get = "\<lambda>x. (gHibernated x, gConditions x)" and put = "\<lambda>x p. x\<lparr>gHibernated := fst p, gConditions := snd p\<rparr>"
        and g = "\<lambda>x p. \<lparr>gHibernated = fst p, gConditions = snd p\<rparr>"],
      (rule deep_copies deep_copy_pair deep_copy_slice deep_copy_pointer cell.sel)+)
    (simp_all add: HibernatePolicyStatus_DeepCopyInto_def viewHpStatus_def refsHpStatus_def copyPair_def split: prod.splits)

lemma deep_copy_ClusterHibernatePolicySpec [deep_copies]: "deep_copy ClusterHibernatePolicySpec_DeepCopyInto viewChpSpec refsChpSpec"
  by (rule deep_copy_struct [where get = "\<lambda>x. (gCWindows x, gCAction x, gIncluded x, gExcluded x)" and put = "\<lambda>x p. x\<lparr>gCWindows := fst p, gCAction := fst (snd p), gIncluded := fst (snd (snd p)), gExcluded := snd (snd (snd p))\<rparr>"
        and g = "\<lambda>x p. \<lparr>gCWindows = fst p, gCAction = fst (snd p), gIncluded = fst (snd (snd p)), gExcluded = snd (snd (snd p))\<rparr>"],
      (rule deep_copies deep_copy_pair deep_copy_slice deep_copy_pointer cell.sel)+)
    (simp_all add: ClusterHibernatePolicySpec_DeepCopyInto_def viewChpSpec_def refsChpSpec_def copyPair_def split: prod.splits)

lemma deep_copy_ClusterHibernatePolicyStatus [deep_copies]: "deep_copy ClusterHibernatePolicyStatus_DeepCopyInto viewChpStatus refsChpStatus"
  by (rule deep_copy_struct [where get = "\<lambda>x. (gHibernated x, gConditions x)" and put = "\<lambda>x p. x\<lparr>gHibernated := fst p, gConditions := snd p\<rparr>"
        and g = "\<lambda>x p. \<lparr>gHibernated = fst p, gConditions = snd p\<rparr>"],
      (rule deep_copies deep_copy_pair deep_copy_slice deep_copy_pointer cell.sel)+)
    (simp_all add: ClusterHibernatePolicyStatus_DeepCopyInto_def viewChpStatus_def refsChpStatus_def copyPair_def split: prod.splits)

lemma deep_copy_EnergyPriceSourceStatus [deep_copies]: "deep_copy EnergyPriceSourceStatus_DeepCopyInto viewEpsStatus refsEpsStatus"
  by (rule deep_copy_struct [where get = "\<lambda>x. (gLastUpdated x, gPrices x, gEpsConditions x)" and put = "\<lambda>x p. x\<lparr>gLastUpdated := fst p, gPrices := fst (snd p), gEpsConditions := snd (snd p)\<rparr>"
        and g = "\<lambda>x p. \<lparr>gLastUpdated = fst p, gPrices = fst (snd p), gEpsConditions = snd (snd p)\<rparr>"],
      (rule deep_copies deep_copy_pair deep_copy_slice deep_copy_pointer cell.sel)+)
    (simp_all add: EnergyPriceSourceStatus_DeepCopyInto_def viewEpsStatus_def refsEpsStatus_def copyPair_def split: prod.splits)

lemma deep_copy_EnergyAwareCronJobStatus [deep_copies]: "deep_copy EnergyAwareCronJobStatus_DeepCopyInto viewEacjStatus refsEacjStatus"
  by (rule deep_copy_struct [where get = "\<lambda>x. (gActive x, gLastScheduleTime x, gNextCronWindow x, gNextScheduledTime x, gLastSuccessfulTime x, gCjConditions x)" and put = "\<lambda>x p. x\<lparr>gActive := fst p, gLastScheduleTime := fst (snd p), gNextCronWindow := fst (snd (snd p)), gNextScheduledTime := fst (snd (snd (snd p))), gLastSuccessfulTime := fst (snd (snd (snd (snd p)))), gCjConditions := snd (snd (snd (snd (snd p))))\<rparr>"
        and g = "\<lambda>x p. \<lparr>gActive = fst p, gLastScheduleTime = fst (snd p), gNextCronWindow = fst (snd (snd p)), gNextScheduledTime = fst (snd (snd (snd p))), gLastSuccessfulTime = fst (snd (snd (snd (snd p)))), gCjConditions = snd (snd (snd (snd (snd p))))\<rparr>"],
      (rule deep_copies deep_copy_pair deep_copy_slice deep_copy_pointer cell.sel)+)
    (simp_all add: EnergyAwareCronJobStatus_DeepCopyInto_def viewEacjStatus_def refsEacjStatus_def copyPair_def split: prod.splits)

context go_lib
begin

lemma deep_copy_CustomProviderConfig [deep_copies]: "deep_copy (CustomProviderConfig_DeepCopyInto L) (viewCustom L) (refsCustom L)"
  by (rule deep_copy_struct [where get = "\<lambda>x. gCustomSecret x" and put = "\<lambda>x p. x\<lparr>gCustomSecret := p\<rparr>"
        and g = "\<lambda>x p. \<lparr>gURL = gURL x, gCustomSecret = p\<rparr>"],
      (rule deep_copies deep_copy_pair deep_copy_slice deep_copy_pointer cell.sel)+)
    (simp_all add: CustomProviderConfig_DeepCopyInto_def viewCustom_def refsCustom_def copyPair_def split: prod.splits)

lemma deep_copy_EntsoeConfig [deep_copies]: "deep_copy (EntsoeConfig_DeepCopyInto L) (viewEntsoe L) (refsEntsoe L)"
  by (rule deep_copy_struct [where get = "\<lambda>x. gEntsoeSecret x" and put = "\<lambda>x p. x\<lparr>gEntsoeSecret := p\<rparr>"
        and g = "\<lambda>x p. \<lparr>gEntsoeSecret = p, gAreaCode = gAreaCode x\<rparr>"],
      (rule deep_copies deep_copy_pair deep_copy_slice deep_copy_pointer cell.sel)+)
    (simp_all add: EntsoeConfig_DeepCopyInto_def viewEntsoe_def refsEntsoe_def copyPair_def split: prod.splits)

lemma deep_copy_EneverConfig [deep_copies]: "deep_copy (EneverConfig_DeepCopyInto L) (viewEnever L) (refsEnever L)"
  by (rule deep_copy_struct [where get = "\<lambda>x. gEneverSecret x" and put = "\<lambda>x p. x\<lparr>gEneverSecret := p\<rparr>"
        and g = "\<lambda>x p. \<lparr>gEneverSecret = p, gSupplier = gSupplier x\<rparr>"],
      (rule deep_copies deep_copy_pair deep_copy_slice deep_copy_pointer cell.sel)+)
    (simp_all add: EneverConfig_DeepCopyInto_def viewEnever_def refsEnever_def copyPair_def split: prod.splits)

lemma deep_copy_ProviderConfig [deep_copies]: "deep_copy (ProviderConfig_DeepCopyInto L) (viewProviders L) (refsProviders L)"
  by (rule deep_copy_struct [where get = "\<lambda>x. (gCustom x, gEntsoe x, gEnever x)" and put = "\<lambda>x p. x\<lparr>gCustom := fst p, gEntsoe := fst (snd p), gEnever := snd (snd p)\<rparr>"
        and g = "\<lambda>x p. \<lparr>gCustom = fst p, gEntsoe = fst (snd p), gEnever = snd (snd p)\<rparr>"],
      (rule deep_copies deep_copy_pair deep_copy_slice deep_copy_pointer cell.sel)+)
    (simp_all add: ProviderConfig_DeepCopyInto_def viewProviders_def refsProviders_def copyPair_def split: prod.splits)

lemma deep_copy_EnergyPriceSourceSpec [deep_copies]: "deep_copy (EnergyPriceSourceSpec_DeepCopyInto L) (viewEpsSpec L) (refsEpsSpec L)"
  by (rule deep_copy_struct [where get = "\<lambda>x. gProviders x" and put = "\<lambda>x p. x\<lparr>gProviders := p\<rparr>"
        and g = "\<lambda>x p. \<lparr>gProvider = gProvider x, gBiddingZone = gBiddingZone x, gRefreshSchedule = gRefreshSchedule x, gCacheTTL = gCacheTTL x, gProviders = p\<rparr>"],
      (rule deep_copies deep_copy_pair deep_copy_slice deep_copy_pointer cell.sel)+)
    (simp_all add: EnergyPriceSourceSpec_DeepCopyInto_def viewEpsSpec_def refsEpsSpec_def copyPair_def split: prod.splits)

lemma deep_copy_EnergyAwareCronJobSpec [deep_copies]: "deep_copy (EnergyAwareCronJobSpec_DeepCopyInto L) (viewEacjSpec L) (refsEacjSpec L)"
  by (rule deep_copy_struct [where get = "\<lambda>x. gCronJob x" and put = "\<lambda>x p. x\<lparr>gCronJob := p\<rparr>"
        and g = "\<lambda>x p. \<lparr>gPriceSource = gPriceSource x, gEnergyStrategy = gEnergyStrategy x, gCronJob = p\<rparr>"],
      (rule deep_copies deep_copy_pair deep_copy_slice deep_copy_pointer cell.sel)+)
    (simp_all add: EnergyAwareCronJobSpec_DeepCopyInto_def viewEacjSpec_def refsEacjSpec_def copyPair_def split: prod.splits)

lemma deep_copy_HibernatePolicy [deep_copies]: "deep_copy (HibernatePolicy_DeepCopyInto L) (viewHp L) (refsHp L)"
  by (rule deep_copy_struct [where get = "\<lambda>x. (gObjectMeta x, gSpec x, gStatus x)" and put = "\<lambda>x p. x\<lparr>gObjectMeta := fst p, gSpec := fst (snd p), gStatus := snd (snd p)\<rparr>"
        and g = "\<lambda>x p. \<lparr>gTypeMeta = gTypeMeta x, gObjectMeta = fst p, gSpec = fst (snd p), gStatus = snd (snd p)\<rparr>"],
      (rule deep_copies deep_copy_pair deep_copy_slice deep_copy_pointer cell.sel)+)
    (simp_all add: HibernatePolicy_DeepCopyInto_def viewHp_def refsHp_def copyPair_def split: prod.splits)

lemma deep_copy_HibernatePolicyList [deep_copies]: "deep_copy (HibernatePolicyList_DeepCopyInto L) (viewHpList L) (refsHpList L)"
  by (rule deep_copy_struct [where get = "\<lambda>x. (gListMeta x, gItems x)" and put = "\<lambda>x p. x\<lparr>gListMeta := fst p, gItems := snd p\<rparr>"
        and g = "\<lambda>x p. \<lparr>gListTypeMeta = gListTypeMeta x, gListMeta = fst p, gItems = snd p\<rparr>"],
      (rule deep_copies deep_copy_pair deep_copy_slice deep_copy_pointer cell.sel)+)
    (simp_all add: HibernatePolicyList_DeepCopyInto_def viewHpList_def refsHpList_def copyPair_def split: prod.splits)

lemma deep_copy_ClusterHibernatePolicy [deep_copies]: "deep_copy (ClusterHibernatePolicy_DeepCopyInto L) (viewChp L) (refsChp L)"
  by (rule deep_copy_struct [where get = "\<lambda>x. (gObjectMeta x, gSpec x, gStatus x)" and put = "\<lambda>x p. x\<lparr>gObjectMeta := fst p, gSpec := fst (snd p), gStatus := snd (snd p)\<rparr>"
        and g = "\<lambda>x p. \<lparr>gTypeMeta = gTypeMeta x, gObjectMeta = fst p, gSpec = fst (snd p), gStatus = snd (snd p)\<rparr>"],
      (rule deep_copies deep_copy_pair deep_copy_slice deep_copy_pointer cell.sel)+)
    (simp_all add: ClusterHibernatePolicy_DeepCopyInto_def viewChp_def refsChp_def copyPair_def split: prod.splits)

lemma deep_copy_ClusterHibernatePolicyList [deep_copies]: "deep_copy (ClusterHibernatePolicyList_DeepCopyInto L) (viewChpList L) (refsChpList L)"
  by (rule deep_copy_struct [where get = "\<lambda>x. (gListMeta x, gItems x)" and put = "\<lambda>x p. x\<lparr>gListMeta := fst p, gItems := snd p\<rparr>"
        and g = "\<lambda>x p. \<lparr>gListTypeMeta = gListTypeMeta x, gListMeta = fst p, gItems = snd p\<rparr>"],
      (rule deep_copies deep_copy_pair deep_copy_slice deep_copy_pointer cell.sel)+)
    (simp_all add: ClusterHibernatePolicyList_DeepCopyInto_def viewChpList_def refsChpList_def copyPair_def split: prod.splits)

lemma deep_copy_EnergyPriceSource [deep_copies]: "deep_copy (EnergyPriceSource_DeepCopyInto L) (viewEps L) (refsEps L)"
  by (rule deep_copy_struct [where get = "\<lambda>x. (gObjectMeta x, gSpec x, gStatus x)" and put = "\<lambda>x p. x\<lparr>gObjectMeta := fst p, gSpec := fst (snd p), gStatus := snd (snd p)\<rparr>"
        and g = "\<lambda>x p. \<lparr>gTypeMeta = gTypeMeta x, gObjectMeta = fst p, gSpec = fst (snd p), gStatus = snd (snd p)\<rparr>"],
      (rule deep_copies deep_copy_pair deep_copy_slice deep_copy_pointer cell.sel)+)
    (simp_all add: EnergyPriceSource_DeepCopyInto_def viewEps_def refsEps_def copyPair_def split: prod.splits)

lemma deep_copy_EnergyPriceSourceList [deep_copies]: "deep_copy (EnergyPriceSourceList_DeepCopyInto L) (viewEpsList L) (refsEpsList L)"
  by (rule deep_copy_struct [where get = "\<lambda>x. (gListMeta x, gItems x)" and put = "\<lambda>x p. x\<lparr>gListMeta := fst p, gItems := snd p\<rparr>"
        and g = "\<lambda>x p. \<lparr>gListTypeMeta = gListTypeMeta x, gListMeta = fst p, gItems = snd p\<rparr>"],
      (rule deep_copies deep_copy_pair deep_copy_slice deep_copy_pointer cell.sel)+)
    (simp_all add: EnergyPriceSourceList_DeepCopyInto_def viewEpsList_def refsEpsList_def copyPair_def split: prod.splits)

lemma deep_copy_EnergyAwareCronJob [deep_copies]: "deep_copy (EnergyAwareCronJob_DeepCopyInto L) (viewEacj L) (refsEacj L)"
  by (rule deep_copy_struct [where get = "\<lambda>x. (gObjectMeta x, gSpec x, gStatus x)" and put = "\<lambda>x p. x\<lparr>gObjectMeta := fst p, gSpec := fst (snd p), gStatus := snd (snd p)\<rparr>"
        and g = "\<lambda>x p. \<lparr>gTypeMeta = gTypeMeta x, gObjectMeta = fst p, gSpec = fst (snd p), gStatus = snd (snd p)\<rparr>"],
      (rule deep_copies deep_copy_pair deep_copy_slice deep_copy_pointer cell.sel)+)
    (simp_all add: EnergyAwareCronJob_DeepCopyInto_def viewEacj_def refsEacj_def copyPair_def split: prod.splits)

lemma deep_copy_EnergyAwareCronJobList [deep_copies]: "deep_copy (EnergyAwareCronJobList_DeepCopyInto L) (viewEacjList L) (refsEacjList L)"
  by (rule deep_copy_struct [where get = "\<lambda>x. (gListMeta x, gItems x)" and put = "\<lambda>x p. x\<lparr>gListMeta := fst p, gItems := snd p\<rparr>"
        and g = "\<lambda>x p. \<lparr>gListTypeMeta = gListTypeMeta x, gListMeta = fst p, gItems = snd p\<rparr>"],
      (rule deep_copies deep_copy_pair deep_copy_slice deep_copy_pointer cell.sel)+)
    (simp_all add: EnergyAwareCronJobList_DeepCopyInto_def viewEacjList_def refsEacjList_def copyPair_def split: prod.splits)

end

end
