(* ===== verification/Patch_Base.thy ===== *)
theory Patch_Base
  imports Deep_Copy
begin

text \<open>
  \<open>base := obj.DeepCopy()\<close>, the changes to \<open>obj\<close> in place, and \<open>Status().Patch(ctx, obj, client.MergeFrom(base))\<close>:
  \<open>setCondition\<close> of \<open>internal/controller/energypricesource_controller.go\<close> on the heap, where it writes into the
  array of its argument, and the status update of the \<open>HibernatePolicy\<close> reconciler. The patch is the
  difference between \<open>base\<close> and \<open>obj\<close>, so \<open>base\<close> must keep the old values; the copies are independent of the
  originals, and \<open>setCondition\<close> on lists (theory Status) is what the code computes in place.
\<close>

section \<open>setCondition in place\<close>

text \<open>The loop of \<open>setCondition\<close>: the index of the first condition of the same type.\<close>

fun typeIndex :: "condition list \<Rightarrow> string \<Rightarrow> nat option" where
  "typeIndex [] t = None"
| "typeIndex (e # es) t = (if cType e = t then Some 0 else map_option Suc (typeIndex es t))"

definition zeroCondition :: condition where
  "zeroCondition = \<lparr>cType = '''', cStatus = '''', cReason = '''', cMessage = '''', cLastTransitionTime = zeroTime\<rparr>"

text \<open>\<open>conditions[i] = c\<close> writes into the array of the argument; \<open>append\<close> may do so, too.\<close>

definition setConditionAt :: "(nat \<Rightarrow> nat) \<Rightarrow> sref \<Rightarrow> condition \<Rightarrow> 'e cell heap \<Rightarrow> sref \<times> 'e cell heap" where
  "setConditionAt grow s c h =
     (case s of
        None \<Rightarrow> appendSlice condArr CondArr grow zeroCondition s c h
      | Some (a, n) \<Rightarrow>
          (case typeIndex (take n (condArr (h ! a))) (cType c) of
             Some i \<Rightarrow> (s, writeSlice condArr CondArr a i c h)
           | None \<Rightarrow> appendSlice condArr CondArr grow zeroCondition s c h))"

definition viewConditions :: "sref \<Rightarrow> 'e cell heap \<Rightarrow> condition list" where
  "viewConditions s h = (case viewSlice viewValue condArr s h of None \<Rightarrow> [] | Some cs \<Rightarrow> cs)"

lemma typeIndex_Some: "typeIndex cs (cType c) = Some i \<Longrightarrow> i < length cs \<and> setCondition cs c = cs[i := c]"
  by (induction cs arbitrary: i) (auto split: if_splits)

lemma typeIndex_None: "typeIndex cs (cType c) = None \<Longrightarrow> setCondition cs c = cs @ [c]"
  by (induction cs) (auto split: if_splits)

text \<open>A slice fits its array.\<close>

definition fits :: "sref \<Rightarrow> 'e cell heap \<Rightarrow> bool" where
  "fits s h \<longleftrightarrow> (case s of None \<Rightarrow> True | Some (a, n) \<Rightarrow> a < length h \<and> n \<le> length (condArr (h ! a)))"

text \<open>What it does to the heap: one cell of the argument is rewritten, or one is allocated.\<close>

lemma setConditionAt_heap:
  assumes "setConditionAt grow s c h = (t, h')"
  shows "(\<exists>a n m cs. s = Some (a, n) \<and> t = Some (a, m) \<and> h' = h[a := CondArr cs]) \<or>
    (\<exists>m cs. t = Some (length h, m) \<and> h' = h @ [CondArr cs])"
  using assms
  by (cases s) (fastforce simp: setConditionAt_def appendSlice_def writeSlice_def split: option.splits if_splits)+

lemma setConditionAt_view:
  assumes "setConditionAt grow s c h = (t, h')" "fits s h"
  shows "viewConditions t h' = setCondition (viewConditions s h) c"
proof (cases s)
  case None
  then show ?thesis using assms(1)
    by (auto simp: setConditionAt_def appendSlice_def viewConditions_def viewSlice_def viewValue_def)
next
  case (Some an)
  obtain a n where s: "s = Some (a, n)" using Some by (cases an) auto
  define cs where "cs = condArr (h ! a)"
  have f: "a < length h" "n \<le> length cs" using assms(2) by (simp_all add: s fits_def cs_def)
  have v: "viewConditions s h = take n cs" by (simp add: s viewConditions_def viewSlice_def viewValue_def cs_def)
  show ?thesis
  proof (cases "typeIndex (take n cs) (cType c)")
    case i: (Some i)
    then have "t = s" "h' = h[a := CondArr (cs[i := c])]"
      using assms(1) by (simp_all add: s setConditionAt_def writeSlice_def cs_def)
    then show ?thesis
      using typeIndex_Some [OF i] f v by (simp add: s viewConditions_def viewSlice_def viewValue_def take_update_swap)
  next
    case none: None
    have "take (Suc n) (cs[n := c]) = take n cs @ [c]" if "n < length cs"
      using that by (simp add: take_Suc_conv_app_nth)
    then show ?thesis
      using assms(1) none typeIndex_None [OF none] f v
      by (auto simp: s setConditionAt_def appendSlice_def viewConditions_def viewSlice_def viewValue_def cs_def [symmetric] split: if_splits)
  qed
qed

section \<open>Independent copies\<close>

text \<open>
  A copy that is independent of the original: it has the same value, keeps it in every later heap \<open>h''\<close> in
  which the cells that the copy allocated are the same, and the original keeps its value in every later
  heap in which the older cells are the same.
\<close>

definition independentCopy ::
  "('a \<Rightarrow> 'c heap \<Rightarrow> 'a \<times> 'c heap) \<Rightarrow> ('a \<Rightarrow> 'c heap \<Rightarrow> 'v) \<Rightarrow> ('a \<Rightarrow> 'c heap \<Rightarrow> addr set) \<Rightarrow> bool" where
  "independentCopy copy view refs \<longleftrightarrow>
     (\<forall>x h y h'. copy x h = (y, h') \<and> inHeap (refs x h) h \<longrightarrow>
        (\<exists>new. h' = h @ new) \<and> view y h' = view x h \<and>
        (\<forall>h''. length h' \<le> length h'' \<longrightarrow>
           ((\<forall>a. length h \<le> a \<and> a < length h' \<longrightarrow> h'' ! a = h' ! a) \<longrightarrow> view y h'' = view x h) \<and>
           ((\<forall>a < length h. h'' ! a = h ! a) \<longrightarrow> view x h'' = view x h)))"

lemma deep_copy_independent:
  assumes "deep_copy copy view refs"
  shows "independentCopy copy view refs"
  unfolding independentCopy_def
  using deep_copy.copy_law [OF assms] deep_copy.isolated [OF assms] by meson

section \<open>The status update\<close>

text \<open>
  The part of \<open>Reconcile\<close> between \<open>Update status\<close> and the patch, on the object at \<open>p\<close>: \<open>hib\<close> is \<^const>\<open>None\<close> inside a
  window; outside, the slice \<open>hibernated\<close> has an array of its own, allocated since the copy.
\<close>

definition updateStatusAt ::
  "(nat \<Rightarrow> nat) \<Rightarrow> addr \<Rightarrow> string list option \<Rightarrow> condition \<Rightarrow> 'e cell heap \<Rightarrow> 'e cell heap" where
  "updateStatusAt grow p hib c h =
     (let hp = hd (hpArr (h ! p));
          (s, h1) = (case hib of None \<Rightarrow> (None, h) | Some xs \<Rightarrow> (Some (length h, length xs), h @ [StringArr xs]));
          (t, h2) = setConditionAt grow (gConditions (gStatus hp)) c h1
      in h2[p := HpArr [hp\<lparr>gStatus := \<lparr>gHibernated = s, gConditions = t\<rparr>\<rparr>]])"

text \<open>The conditions of an object at \<open>p\<close> are a slice of an array of conditions.\<close>

definition typed :: "sref \<Rightarrow> 'e cell heap \<Rightarrow> bool" where
  "typed s h \<longleftrightarrow> fits s h \<and> (case s of None \<Rightarrow> True | Some (a, n) \<Rightarrow> is_CondArr (h ! a))"

text \<open>Only the object, the array of its conditions and new cells are written.\<close>

lemma updateStatusAt_writes:
  assumes "x < length h" "x \<noteq> p" "\<And>a n. gConditions (gStatus (hd (hpArr (h ! p)))) = Some (a, n) \<Longrightarrow> x \<noteq> a"
  shows "updateStatusAt grow p hib c h ! x = h ! x" "x < length (updateStatusAt grow p hib c h)"
proof -
  obtain s h1 where 1: "(case hib of None \<Rightarrow> (None, h) | Some xs \<Rightarrow> (Some (length h, length xs), h @ [StringArr xs])) = (s, h1)"
    by fastforce
  then have 2: "h1 ! x = h ! x" "x < length h1" using assms(1) by (auto simp: nth_append split: option.splits)
  obtain t h2 where 3: "setConditionAt grow (gConditions (gStatus (hd (hpArr (h ! p))))) c h1 = (t, h2)" by fastforce
  have "h2 ! x = h1 ! x" "x < length h2" using setConditionAt_heap [OF 3] 2(2) assms(3) by (auto simp: nth_append)
  then show "updateStatusAt grow p hib c h ! x = h ! x" "x < length (updateStatusAt grow p hib c h)"
    using 1 2 3 assms(2) by (simp_all add: updateStatusAt_def)
qed

lemma setConditionAt_length: "setConditionAt grow s c h = (t, h') \<Longrightarrow> length h \<le> length h'"
  by (drule setConditionAt_heap) auto

lemma updateStatusAt_length: "length h \<le> length (updateStatusAt grow p hib c h)"
  by (auto simp: updateStatusAt_def Let_def dest!: setConditionAt_length split: option.splits prod.splits)

lemma updateStatusAt_status:
  assumes "h ! p = HpArr [hp]" "p < length h" "typed (gConditions (gStatus hp)) h"
  shows "viewHpStatus (gStatus (hd (hpArr (updateStatusAt grow p hib c h ! p)))) (updateStatusAt grow p hib c h) =
    \<lparr>gHibernated = hib, gConditions = Some (setCondition (viewConditions (gConditions (gStatus hp)) h) c)\<rparr>"
proof -
  let ?q = "gConditions (gStatus hp)"
  obtain s h1 where 1: "(case hib of None \<Rightarrow> (None, h) | Some xs \<Rightarrow> (Some (length h, length xs), h @ [StringArr xs])) = (s, h1)"
    by fastforce
  then have h1: "h1 ! x = h ! x" "x < length h1" if "x < length h" for x
    using that by (auto simp: nth_append split: option.splits)
  obtain t h2 where 3: "setConditionAt grow ?q c h1 = (t, h2)" by fastforce
  define h3 where "h3 = updateStatusAt grow p hib c h"
  have h3: "h3 = h2[p := HpArr [hp\<lparr>gStatus := \<lparr>gHibernated = s, gConditions = t\<rparr>\<rparr>]]"
    using 1 3 by (simp add: h3_def updateStatusAt_def assms(1))
  have q: "fits ?q h1" "viewConditions ?q h1 = viewConditions ?q h"
    using assms(3) h1 by (auto simp: typed_def fits_def viewConditions_def viewSlice_def viewValue_def split: option.splits)
  have "a \<noteq> p \<and> a < length h" if "?q = Some (a, n)" for a n using that assms by (auto simp: typed_def fits_def)
  then have t: "\<exists>b m. t = Some (b, m) \<and> b \<noteq> p" and len: "p < length h2"
    and new: "length h < length h1 \<Longrightarrow> h2 ! length h = h1 ! length h \<and> length h < length h2"
    using setConditionAt_heap [OF 3] h1 [OF assms(2)] by (auto simp: nth_append)
  have "viewSlice viewValue condArr t h3 = Some (setCondition (viewConditions ?q h) c)"
    using setConditionAt_view [OF 3 q(1)] t q(2) by (auto simp: h3 viewConditions_def viewSlice_def viewValue_def)
  moreover have "viewSlice viewValue stringArr s h3 = hib"
    using 1 new assms(2) by (auto simp: h3 viewSlice_def viewValue_def split: option.splits)
  ultimately show ?thesis using len by (simp add: h3_def [symmetric] viewHpStatus_def) (simp add: h3)
qed

section \<open>The objects\<close>

text \<open>The pointers to the four objects and their lists are copied deeply, whatever the libraries' types are.\<close>

sublocale go_lib \<subseteq> hp: deep_copy "HibernatePolicy_DeepCopy L" "viewPointer (viewHp L) hpArr" "refsPointer (refsHp L) hpArr"
  unfolding HibernatePolicy_DeepCopy_def by (rule deep_copy_pointer deep_copy_HibernatePolicy cell.sel)+

sublocale go_lib \<subseteq> chp: deep_copy "ClusterHibernatePolicy_DeepCopy L" "viewPointer (viewChp L) chpArr" "refsPointer (refsChp L) chpArr"
  unfolding ClusterHibernatePolicy_DeepCopy_def by (rule deep_copy_pointer deep_copy_ClusterHibernatePolicy cell.sel)+

sublocale go_lib \<subseteq> eps: deep_copy "EnergyPriceSource_DeepCopy L" "viewPointer (viewEps L) epsArr" "refsPointer (refsEps L) epsArr"
  unfolding EnergyPriceSource_DeepCopy_def by (rule deep_copy_pointer deep_copy_EnergyPriceSource cell.sel)+

sublocale go_lib \<subseteq> eacj: deep_copy "EnergyAwareCronJob_DeepCopy L" "viewPointer (viewEacj L) eacjArr" "refsPointer (refsEacj L) eacjArr"
  unfolding EnergyAwareCronJob_DeepCopy_def by (rule deep_copy_pointer deep_copy_EnergyAwareCronJob cell.sel)+

sublocale go_lib \<subseteq> hps: deep_copy "HibernatePolicyList_DeepCopy L" "viewPointer (viewHpList L) listArr" "refsPointer (refsHpList L) listArr"
  unfolding HibernatePolicyList_DeepCopy_def by (rule deep_copy_pointer deep_copy_HibernatePolicyList cell.sel)+

sublocale go_lib \<subseteq> chps: deep_copy "ClusterHibernatePolicyList_DeepCopy L" "viewPointer (viewChpList L) listArr" "refsPointer (refsChpList L) listArr"
  unfolding ClusterHibernatePolicyList_DeepCopy_def by (rule deep_copy_pointer deep_copy_ClusterHibernatePolicyList cell.sel)+

sublocale go_lib \<subseteq> epss: deep_copy "EnergyPriceSourceList_DeepCopy L" "viewPointer (viewEpsList L) listArr" "refsPointer (refsEpsList L) listArr"
  unfolding EnergyPriceSourceList_DeepCopy_def by (rule deep_copy_pointer deep_copy_EnergyPriceSourceList cell.sel)+

sublocale go_lib \<subseteq> eacjs: deep_copy "EnergyAwareCronJobList_DeepCopy L" "viewPointer (viewEacjList L) listArr" "refsPointer (refsEacjList L) listArr"
  unfolding EnergyAwareCronJobList_DeepCopy_def by (rule deep_copy_pointer deep_copy_EnergyAwareCronJobList cell.sel)+

context go_lib
begin

lemmas object_copies = hp.deep_copy_axioms chp.deep_copy_axioms eps.deep_copy_axioms eacj.deep_copy_axioms
  hps.deep_copy_axioms chps.deep_copy_axioms epss.deep_copy_axioms eacjs.deep_copy_axioms

end

text \<open>
  A library: every type is a name and a pointer to another struct, like \<open>metadata\<close> with an owner; the copy
  follows the pointer once.
\<close>

definition ownedLib :: "(string \<times> pref, string \<times> string option) goLib" where
  "ownedLib = \<lparr>libCopy = \<lambda>_. copyPair copyValue (copyPointer copyValue libArr LibArr),
     libView = \<lambda>_ xy h. (viewValue (fst xy) h, viewPointer (\<lambda>e _. fst e) libArr (snd xy) h),
     libRefs = \<lambda>_ xy h. refsValue (fst xy) h \<union> refsPointer (\<lambda>_ _. {}) libArr (snd xy) h\<rparr>"

lemma deep_copy_name: "deep_copy copyValue (\<lambda>e _. fst e) (\<lambda>_ _. {})"
  by unfold_locales (simp_all add: copyValue_def)

interpretation owned: go_lib ownedLib
  unfolding go_lib_def ownedLib_def goLib.select_convs
  by (intro allI deep_copy_pair deep_copy_pointer deep_copy_value deep_copy_name cell.sel)

text \<open>A struct with no type of a library in it: its copy needs no assumption.\<close>

interpretation status: deep_copy HibernatePolicyStatus_DeepCopyInto viewHpStatus refsHpStatus
  by (rule deep_copy_HibernatePolicyStatus)

section \<open>Properties\<close>

text \<open>
  C21: For the four API types and their lists, \<open>DeepCopy\<close> gives a pointer to an equal object, with equal
  values behind all its pointers and slices, that is independent of the original: no later writes to
  memory that existed before the copy show in the copy, and no writes to memory allocated by the copy show
  in the original; nil is copied to nil. The copy functions of the Kubernetes types
  inside (\<open>ObjectMeta\<close>, \<open>ListMeta\<close>, \<open>SecretKeySelector\<close>, \<open>CronJobSpec\<close>) are assumed to be deep copies.
\<close>

theorem api_objects_deep_copied:
  assumes "go_lib L"
  shows "independentCopy (HibernatePolicy_DeepCopy L) (viewPointer (viewHp L) hpArr) (refsPointer (refsHp L) hpArr) \<and>
    independentCopy (ClusterHibernatePolicy_DeepCopy L) (viewPointer (viewChp L) chpArr) (refsPointer (refsChp L) chpArr) \<and>
    independentCopy (EnergyPriceSource_DeepCopy L) (viewPointer (viewEps L) epsArr) (refsPointer (refsEps L) epsArr) \<and>
    independentCopy (EnergyAwareCronJob_DeepCopy L) (viewPointer (viewEacj L) eacjArr) (refsPointer (refsEacj L) eacjArr) \<and>
    independentCopy (HibernatePolicyList_DeepCopy L) (viewPointer (viewHpList L) listArr) (refsPointer (refsHpList L) listArr) \<and>
    independentCopy (ClusterHibernatePolicyList_DeepCopy L) (viewPointer (viewChpList L) listArr) (refsPointer (refsChpList L) listArr) \<and>
    independentCopy (EnergyPriceSourceList_DeepCopy L) (viewPointer (viewEpsList L) listArr) (refsPointer (refsEpsList L) listArr) \<and>
    independentCopy (EnergyAwareCronJobList_DeepCopy L) (viewPointer (viewEacjList L) listArr) (refsPointer (refsEacjList L) listArr)"
  by (intro conjI deep_copy_independent go_lib.object_copies [OF assms])

theorem api_objects_deep_copied_witness:
  "independentCopy (HibernatePolicy_DeepCopy ownedLib) (viewPointer (viewHp ownedLib) hpArr)
    (refsPointer (refsHp ownedLib) hpArr)"
  using api_objects_deep_copied [OF owned.go_lib_axioms] by simp

text \<open>
  C19: In the \<open>HibernatePolicy\<close> reconciler the status update changes the object in place, the array of its
  conditions included, after \<open>base := hp.DeepCopy()\<close>. Then \<open>base\<close> still has the value that the object had
  when it was read, the object has the new list of hibernated workloads, and its conditions are those of
  \<open>setCondition\<close> on lists; so the merge patch from \<open>base\<close> carries exactly the change.
\<close>

theorem patch_base_keeps_status:
  assumes "go_lib L" "h ! p = HpArr [hp]" "inHeap (refsPointer (refsHp L) hpArr (Some p) h) h"
    and "typed (gConditions (gStatus hp)) h"
    and "HibernatePolicy_DeepCopy L (Some p) h = (base, h1)" "h2 = updateStatusAt grow p hib c h1"
  shows "viewPointer (viewHp L) hpArr base h2 = Some (viewHp L hp h) \<and>
    viewHpStatus (gStatus (hd (hpArr (h2 ! p)))) h2 =
      \<lparr>gHibernated = hib, gConditions = Some (setCondition (viewConditions (gConditions (gStatus hp)) h) c)\<rparr>"
proof -
  note copies = go_lib.object_copies(1) [OF assms(1)]
  obtain new where h1: "h1 = h @ new" using deep_copy.copied [OF copies assms(5,3)] .
  have p: "p < length h" using assms(3) by (simp add: refsPointer_def)
  then have hp: "h1 ! p = HpArr [hp]" using assms(2) by (simp add: h1 nth_append)
  have old: "a < length h \<and> h1 ! a = h ! a" if "gConditions (gStatus hp) = Some (a, n)" for a n
    using assms(4) that by (simp add: typed_def fits_def h1 nth_append)
  have "h2 ! x = h1 ! x" if "length h \<le> x" "x < length h1" for x
    unfolding assms(6) using that p old by (intro updateStatusAt_writes) (auto simp: hp)
  from deep_copy.isolated(1) [OF copies assms(5,3) _ this]
  have "viewPointer (viewHp L) hpArr base h2 = Some (viewHp L hp h)"
    by (simp add: assms(2,6) viewPointer_def updateStatusAt_length)
  moreover have "typed (gConditions (gStatus hp)) h1"
    "viewConditions (gConditions (gStatus hp)) h1 = viewConditions (gConditions (gStatus hp)) h"
    using assms(4) old
    by (auto simp: typed_def fits_def h1 viewConditions_def viewSlice_def viewValue_def split: option.splits)
  ultimately show ?thesis using updateStatusAt_status [OF hp] p by (simp add: assms(6) h1)
qed

definition demoReady :: "string \<Rightarrow> condition" where
  "demoReady msg = \<lparr>cType = ''Ready'', cStatus = ''True'', cReason = ''Reconciled'', cMessage = msg, cLastTransitionTime = zeroTime\<rparr>"

definition demoHp :: "(string \<times> pref) hpObject" where
  "demoHp = \<lparr>gTypeMeta = (''v1alpha1'', ''HibernatePolicy''), gObjectMeta = (''nights'', Some 2),
     gSpec = \<lparr>gWorkloadTypes = None, gWindows = None, gAction = \<lparr>gSleepDaemonSet = False, gMaxReplicas = None\<rparr>\<rparr>,
     gStatus = \<lparr>gHibernated = None, gConditions = Some (1, 1)\<rparr>\<rparr>"

definition demoHeap :: "(string \<times> pref) cell heap" where
  "demoHeap = [HpArr [demoHp], CondArr [demoReady ''old''], LibArr [(''owner'', None)]]"

lemma demo_refs: "inHeap (refsPointer (refsHp ownedLib) hpArr (Some 0) demoHeap) demoHeap"
  by (simp add: demoHeap_def demoHp_def refsPointer_def refsHp_def ownedLib_def refsHpSpec_def refsHpStatus_def
      refsAction_def refsSlice_def refsValue_def inHeap_def)

lemma demo_typed: "typed (gConditions (gStatus demoHp)) demoHeap"
  by (simp add: demoHeap_def demoHp_def typed_def fits_def)

theorem patch_base_keeps_status_witness:
  "(let (base, h1) = HibernatePolicy_DeepCopy ownedLib (Some 0) demoHeap;
        h2 = updateStatusAt (\<lambda>n. 2 * n) 0 (Some [''Deployment/web'']) (demoReady ''new'') h1
    in viewPointer (viewHp ownedLib) hpArr base h2 = Some (viewHp ownedLib demoHp demoHeap) \<and>
       viewHpStatus (gStatus (hd (hpArr (h2 ! 0)))) h2 =
         \<lparr>gHibernated = Some [''Deployment/web''], gConditions = Some [demoReady ''new'']\<rparr>)"
proof -
  have "setCondition (viewConditions (gConditions (gStatus demoHp)) demoHeap) (demoReady ''new'') = [demoReady ''new'']"
    by (simp add: demoHp_def demoHeap_def viewConditions_def viewSlice_def viewValue_def demoReady_def)
  then show ?thesis
    using patch_base_keeps_status [OF owned.go_lib_axioms _ demo_refs demo_typed, where c = "demoReady ''new''"]
    by (auto simp: demoHeap_def split: prod.splits)
qed

end
