(* ===== verification/Spec2Isabelle.thy ===== *)
theory Spec2Isabelle
  imports Pricing Names Windows Policies Cron_History Cron_Schedule Price_Flow Metrics_Client Startup Watches Patch_Base
begin

text \<open>
  A model of kube-greencosts, a Kubernetes operator that shifts work to cheap energy: it fetches
  day-ahead prices, starts cron jobs in the cheapest slot of a window, and puts workloads to sleep
  outside their availability windows.

  \<^bold>\<open>The program and its parts.\<close> Four controllers share a cluster. The EnergyPriceSource controller asks
  a price provider for points and stores them in the status of the source. The EnergyAwareCronJob
  controller reads those points, selects a slot and creates a Job for it. The HibernatePolicy and
  ClusterHibernatePolicy controllers scale workloads down and back, together with their autoscalers.
  Admission webhooks check the specs first; a Prometheus collector exports the prices; \<open>main\<close> wires
  all of it. The theories, by source file (under \<open>src/\<close>):

  \<^item> \<open>Prelude\<close>, \<open>Go_Strings\<close>, \<open>Go_Time\<close>, \<open>Go_Json\<close>: what the code uses of the Go language and library:
    \<open>int64\<close> wrap-around, \<open>Itoa\<close>, \<open>Atoi\<close>, \<open>Quote\<close>, trimming, SHA-256, instants, wall clocks in a zone, the
    JSON of a node selector.
  \<^item> \<open>Pricing\<close>: \<open>filterPricesInWindow\<close>, \<open>pricePointScore\<close>, \<open>selectPricePoint\<close>
    (\<open>internal/controller/energyawarecronjob_controller.go\<close>) and \<open>currentPricePoint\<close>
    (\<open>energypricesource_metrics.go\<close>).
  \<^item> \<open>Names\<close> and \<open>Hpa\<close>: the bounded names and the autoscaler suspension of \<open>internal/controller/helpers.go\<close>.
  \<^item> \<open>Windows\<close>: the availability windows of \<open>hibernatepolicy_controller.go\<close>.
  \<^item> \<open>Kube_Api\<close>, \<open>Status\<close>: the API calls of the hibernation controllers as a record of functions over an
    abstract state, conditions and results.
  \<^item> \<open>Hibernation\<close>, \<open>Hibernate_Policy\<close>: the operations of \<open>hibernatepolicy_controller.go\<close>, their
    specification, and the proofs about whole reconciliations.
  \<^item> \<open>Cluster_Policy\<close>: \<open>clusterhibernatepolicy_controller.go\<close>.
  \<^item> \<open>Policies\<close>: the reconciliations of all policies of a cluster in any order.
  \<^item> \<open>Cron_Job\<close> (the definitions), \<open>Cron_Safety\<close>, \<open>Cron_Runs\<close>, \<open>Cron_History\<close>, \<open>Cron_Schedule\<close>:
    \<open>energyawarecronjob_controller.go\<close>.
  \<^item> \<open>Webhook\<close>: \<open>internal/webhook\<close>.
  \<^item> \<open>Http_Client\<close>, \<open>Providers\<close>: \<open>internal/providers\<close>, that is the HTTP client with its spans, the registry and
    the providers custom, energyzero, enever and entsoe.
  \<^item> \<open>Price_Source\<close>: \<open>energypricesource_controller.go\<close>.
  \<^item> \<open>Metrics\<close>, \<open>Metrics_Client\<close>: the collector of \<open>energypricesource_metrics.go\<close> and \<open>internal/metrics/client.go\<close>.
  \<^item> \<open>Price_Flow\<close>: the way of a price from a provider through the status to the metrics.
  \<^item> \<open>Startup\<close>: \<open>internal/telemetry/setup.go\<close> and \<open>cmd/main.go\<close>.
  \<^item> \<open>Watches\<close>: the four \<open>SetupWithManager\<close>, the events that start a reconciliation, and the kinds of
    \<open>api/v1alpha1\<close> in the scheme.
  \<^item> \<open>Go_Heap\<close>, \<open>Deep_Copy\<close>, \<open>Patch_Base\<close>: pointers and slices on a heap,
    \<open>api/v1alpha1/zz_generated.deepcopy.go\<close>, and \<open>setCondition\<close> and the status update as writes to the heap.

  \<^bold>\<open>How the model corresponds to the code.\<close> A struct is a record with the fields the code reads or
  writes, an object of the API its spec and status. A reconciliation is a function from the state of
  the cluster to a result, an error and the new state; every early return and every failing call is a
  branch. A cluster state is a type \<open>'s\<close> that only the client functions touch. What the API server
  promises is a locale per controller (\<open>workload_api\<close>, \<open>hp_api\<close>, \<open>chp_api\<close>, \<open>job_api\<close>, \<open>eps_api\<close>), and
  each is interpreted on a store in memory whose calls can be made to fail. The locales assume that a
  read returns the stored object, so a stale cache is outside the model, and that a patch whose base
  is the stored object replaces it by the modified one and touches nothing else.

  The controllers' theories treat objects as values, although the code changes an object in place after
  \<open>base := obj.DeepCopy()\<close> and patches with the difference. \<open>Deep_Copy\<close> and \<open>Patch_Base\<close> are the reason that this
  is faithful: on a heap the copy is independent of the object, and \<open>setCondition\<close> in place gives what
  \<open>setCondition\<close> on lists gives.

  Each reading of the clock is a value of its own, so no theorem assumes that time stands still during
  a reconciliation. \<open>float64\<close> prices are rationals with a rounding function after each operation; the
  selection theorems hold for every rounding. The time zone database, the cron library, the JSON, XML
  and number parsers, the network, OpenTelemetry and the manager are parameters.

  \<^bold>\<open>What the theorems show.\<close>
  \<^item> Selection: the chosen slot is the first with the best score, the score is the mean price over the
    run, the run stays in the window, and every error has its exact cause.
  \<^item> Cron jobs: with \<open>Forbid\<close> at most one Job is unfinished in every reachable state; a reconciliation
    creates at most the Job of its slot; \<open>Replace\<close> leaves one; history limits delete the oldest. When the
    webhook accepted the spec, the run after a dispatch works for exactly the next occurrence, unless
    \<open>startingDeadlineSeconds\<close> rules it out.
  \<^item> Windows: the test and the next start are exact, and a window the webhook accepted is open from its
    start to its end on every listed day without a clock change in or next to it.
  \<^item> Hibernation: a reconciliation refines a specification per workload, a night and the next morning
    restore every workload and autoscaler, nothing outside the policy is touched even when calls fail,
    and after one pass the controller settles. A suspended autoscaler cannot move its workload, as long as
    the cap does not change under it. However the reconciliations of all policies interleave, a
    workload is as its user set it, or asleep with one owner whose wake-up restores it.
  \<^item> Prices: a successful fetch returns exactly the items of the response, in time order for the providers that
    sort; a failed refresh loses no prices; the exported price is the one in force, as an invariant of
    the reachable states; spans do not show tokens. Two theorems show what goes wrong instead: a
    network failure puts the enever token into the status, and the retry after a failure waits for the
    schedule.
  \<^item> Events: a change of what a cluster policy governs requests that policy, but for workloads that fall
    under it through their namespace only; price sources and Jobs request exactly their cron jobs.
  \<^item> Copies: the generated copies of all API types are deep, and the base of a status patch keeps the old
    status while the conditions are rewritten in place.
  \<^item> Start: each server gets its own certificate, given how the Go runtime sizes a slice.

  \<^bold>\<open>Bounds and fuel.\<close> There is no fuel. The loops of the program run over lists or have constant bounds: 101
  occurrences in \<open>nextScheduleTime\<close>, 1000 samples in the webhook, eight days in the window search. All
  definitions are total functions.

  \<^bold>\<open>Not modelled.\<close> Log output, the spans of the controllers' own tracing, help texts of flags and metrics, and
  \<open>test/utils\<close>. The scheme, the queue and the caches of controller-runtime and the copy functions of the
  Kubernetes types are parameters. Races between two controllers writing the same object appear only as
  outside steps between reconciliations.
\<close>

section \<open>From the provider to the metrics\<close>

lemma collected_iff:
  assumes "items s = Inr es" "e \<in> set es" "\<And>x. x \<in> set es \<Longrightarrow> sources s (ekey x) = Some x"
    and "c = NewEnergyPriceSourceMetricsCollector (Some items) now"
  shows "MustNewConstMetric d v (sourceLabels e) \<in> set (CollectMetrics c toFloat timeNow s) \<longleftrightarrow>
    MustNewConstMetric d v (sourceLabels e) \<in> set (collectSource c toFloat now e)"
proof -
  have run: "CollectMetrics c toFloat timeNow s = concat (map (collectSource c toFloat now) es)"
    by (simp add: assms(1,4) CollectMetrics_def NewEnergyPriceSourceMetricsCollector_def)
  have "x = e" if "x \<in> set es" "MustNewConstMetric d v (sourceLabels e) \<in> set (collectSource c toFloat now x)" for x
  proof -
    have "ekey x = ekey e" using collectSource_labels [OF that(2)] by (auto simp: sourceLabels_def ekey_def)
    with assms(3) [OF that(1)] assms(3) [OF assms(2)] show ?thesis by (metis option.inject)
  qed
  then show ?thesis using assms(2) by (auto simp: run)
qed

text \<open>
  C7: The exported price is the one in force. In every reachable state of a cluster whose sources use a
  provider that sorts its points, a scrape that exports a current price for a source exports the
  finite price of the latest stored point that is not in the future, and a scrape without one means
  that all stored prices of the source lie in the future.
\<close>

theorem exported_price_in_force:
  fixes items :: "'s \<Rightarrow> string + eps list"
  assumes "eps_api C sources" "sortsPoints W" "epsReach C sources W s"
    and "items s = Inr es" "e \<in> set es" "\<And>x. x \<in> set es \<Longrightarrow> sources s (ekey x) = Some x"
    and "c = NewEnergyPriceSourceMetricsCollector (Some items) now"
  shows "if \<exists>v. MustNewConstMetric (currentPriceDesc c) v (sourceLabels e) \<in> set (CollectMetrics c toFloat timeNow s)
    then \<exists>p \<in> set (psPrices e). MustNewConstMetric (currentPriceDesc c) (fPrice p) (sourceLabels e) \<in> set (CollectMetrics c toFloat timeNow s) \<and>
      isFinite (fPrice p) \<and> fAt p \<le> now \<and> (\<forall>q \<in> set (psPrices e). fAt q \<le> now \<longrightarrow> fAt q \<le> fAt p)
    else \<forall>q \<in> set (psPrices e). now < fAt q"
proof -
  have ord: "orderedSource e" using eps_api.reach_ordered [OF assms(1,3,2)] assms(5,6) by blast
  have names: "distinct (map dName (Describe c))"
    by (simp add: assms(7) Describe_def NewEnergyPriceSourceMetricsCollector_def)
  have fin: "p \<in> set (psPrices e) \<Longrightarrow> isFinite (fPrice p)" for p
    using ord by (auto simp: orderedSource_def finitePrices_def list_all_iff)
  note iff = collected_iff [where items = items and sources = sources and s = s, OF assms(4-7)]
  show ?thesis
  proof (cases "\<exists>v. MustNewConstMetric (currentPriceDesc c) v (sourceLabels e) \<in> set (collectSource c toFloat now e)")
    case True
    then obtain v where v: "MustNewConstMetric (currentPriceDesc c) v (sourceLabels e) \<in> set (collectSource c toFloat now e)" ..
    from collected_price [OF ord names v] v True fin show ?thesis by (auto simp: iff)
  next
    case False
    then have "currentPricePoint (pricesOf (psPrices e)) now = None"
      by (cases "currentPricePoint (pricesOf (psPrices e)) now") (auto simp: collectSource_def)
    with False show ?thesis using no_current_price [OF ord] by (simp add: iff)
  qed
qed

lemma online_price:
  "case memSources (snd onlineRun) (''ns'', ''prices'') of
     None \<Rightarrow> False
   | Some e \<Rightarrow> currentPricePoint (pricesOf (psPrices e)) (90 * minute) = Some \<lparr>At = hour, EurPerMWh = 7\<rparr>"
  by code_simp

theorem exported_price_in_force_witness:
  "\<exists>e p. memSources (snd onlineRun) (''ns'', ''prices'') = Some e \<and> p \<in> set (psPrices e) \<and> isFinite (fPrice p) \<and> fAt p \<le> 90 * minute"
proof -
  obtain e where e: "memSources (snd onlineRun) (''ns'', ''prices'') = Some e"
    "currentPricePoint (pricesOf (psPrices e)) (90 * minute) = Some \<lparr>At = hour, EurPerMWh = 7\<rparr>"
    using online_price by (auto split: option.splits)
  then have key: "ekey e = (''ns'', ''prices'')" using memEps.source_key by blast
  define c where "c = NewEnergyPriceSourceMetricsCollector (Some (\<lambda>_::epsMemState. Inr [e])) (90 * minute)"
  have start: "epsReach (memEpsClient None) memSources demoWeb (demoSources customSpec)"
    by (rule epsReach_start)
      (auto simp: memSources_def demoSources_def nameEPS_def savedEPS_def demoEPS_def sortingProvider_def customSpec_def customProviderName_def split: if_splits)
  have reach: "epsReach (memEpsClient None) memSources demoWeb (snd onlineRun)"
    by (rule epsReach_reconcile [OF start, where res = "fst onlineRun"]) (simp add: onlineRun_def)
  have "MustNewConstMetric (currentPriceDesc c) (Finite 7) (sourceLabels e) \<in> set (CollectMetrics c (\<lambda>n. Finite (of_int n)) 0 (snd onlineRun))"
    by (simp add: CollectMetrics_def c_def NewEnergyPriceSourceMetricsCollector_def collectSource_def e(2))
  then show ?thesis
    using exported_price_in_force [OF memEps.eps_api_axioms sortsPoints_demoWeb reach, where items = "\<lambda>_. Inr [e]" and es = "[e]" and e = e
        and c = c and toFloat = "\<lambda>n. Finite (of_int n)" and timeNow = 0 and now = "90 * minute"] e(1)
    by (auto simp: key c_def split: if_splits)
qed

end
